theory Spec2Isabelle
  imports Main "HOL-Library.AList"
begin

section \<open>JavaScript strings\<close>

text \<open>
  Strings are lists of Isabelle's 8-bit characters, read as the Latin-1 range of
  JavaScript's code units.  In that range the white space of \<^verbatim>\<open>\s\<close> and of
  \<^verbatim>\<open>String.prototype.trim\<close> is TAB, LF, VT, FF, CR, SPACE and NBSP.
\<close>

definition js_space :: "char \<Rightarrow> bool" where
  "js_space c =
     (c = CHR 0x09 \<or> c = CHR 0x0A \<or> c = CHR 0x0B \<or> c = CHR 0x0C \<or> c = CHR 0x0D \<or>
      c = CHR 0x20 \<or> c = CHR 0xA0)"

definition trim :: "string \<Rightarrow> string" where
  "trim s = rev (dropWhile js_space (rev (dropWhile js_space s)))"

text \<open>\<^verbatim>\<open>s.split(sep)\<close> for a one-character separator: never the empty list.\<close>

fun split :: "char \<Rightarrow> string \<Rightarrow> string list" where
  "split sep [] = [[]]"
| "split sep (c # cs) =
     (if c = sep then [] # split sep cs
      else (case split sep cs of
              [] \<Rightarrow> [[c]]
            | p # ps \<Rightarrow> (c # p) # ps))"

text \<open>\<^verbatim>\<open>s.startsWith(p)\<close> and \<^verbatim>\<open>s.endsWith(p)\<close>.\<close>

definition startsWith :: "string \<Rightarrow> string \<Rightarrow> bool" where
  "startsWith s p = (take (length p) s = p)"

definition endsWith :: "string \<Rightarrow> string \<Rightarrow> bool" where
  "endsWith s p = (length p \<le> length s \<and> drop (length s - length p) s = p)"

text \<open>\<^verbatim>\<open>xs[i]\<close>: \<^verbatim>\<open>undefined\<close> out of range.\<close>

definition at_index :: "'a list \<Rightarrow> nat \<Rightarrow> 'a option" where
  "at_index xs i = (if i < length xs then Some (xs ! i) else None)"

subsection \<open>Regular expressions\<close>

text \<open>
  The patterns of the source are anchored at both ends and use character classes,
  concatenation and \<^verbatim>\<open>+\<close> only, so \<^verbatim>\<open>re.test(s)\<close> is membership of the whole
  string in the pattern's language, decided here by derivatives.
\<close>

datatype rx = Zero | One | Atom "char \<Rightarrow> bool" | Alt rx rx | Seq rx rx | Star rx

fun nullable :: "rx \<Rightarrow> bool" where
  "nullable Zero = False"
| "nullable One = True"
| "nullable (Atom p) = False"
| "nullable (Alt r s) = (nullable r \<or> nullable s)"
| "nullable (Seq r s) = (nullable r \<and> nullable s)"
| "nullable (Star r) = True"

fun deriv :: "char \<Rightarrow> rx \<Rightarrow> rx" where
  "deriv c Zero = Zero"
| "deriv c One = Zero"
| "deriv c (Atom p) = (if p c then One else Zero)"
| "deriv c (Alt r s) = Alt (deriv c r) (deriv c s)"
| "deriv c (Seq r s) =
     (if nullable r then Alt (Seq (deriv c r) s) (deriv c s) else Seq (deriv c r) s)"
| "deriv c (Star r) = Seq (deriv c r) (Star r)"

fun rx_test :: "rx \<Rightarrow> string \<Rightarrow> bool" where
  "rx_test r [] = nullable r"
| "rx_test r (c # cs) = rx_test (deriv c r) cs"

definition Plus :: "rx \<Rightarrow> rx" where
  "Plus r = Seq r (Star r)"

text \<open>The class \<^verbatim>\<open>[^\s@]\<close>.\<close>

definition not_space_at :: "char \<Rightarrow> bool" where
  "not_space_at c = (\<not> js_space c \<and> c \<noteq> CHR ''@'')"

text \<open>\<^verbatim>\<open>/^[^\s@]+@[^\s@]+\.[^\s@]+$/\<close> (process handler, line 158).\<close>

definition email_regex :: rx where
  "email_regex =
     Seq (Plus (Atom not_space_at))
       (Seq (Atom (\<lambda>c. c = CHR ''@''))
          (Seq (Plus (Atom not_space_at))
             (Seq (Atom (\<lambda>c. c = CHR ''.'')) (Plus (Atom not_space_at)))))"

section \<open>Persisted state and HTTP messages of the Next.js API routes\<close>

text \<open>
  A JavaScript value as the process handler uses one: a string, or a value of another
  kind, of which the handler takes its truthiness and the property key it converts to
  (\<^verbatim>\<open>undefined\<close> is \<open>JOther False ''undefined''\<close>).
\<close>

datatype js_value = JString string | JOther bool string

definition js_truthy :: "js_value \<Rightarrow> bool" where
  "js_truthy v = (case v of JString s \<Rightarrow> s \<noteq> [] | JOther t k \<Rightarrow> t)"

definition property_key :: "js_value \<Rightarrow> string" where
  "property_key v = (case v of JString s \<Rightarrow> s | JOther t k \<Rightarrow> k)"

text \<open>
  Reading a property: the value read, or the error thrown, as \<^verbatim>\<open>`${error}`\<close> prints
  it.
\<close>

datatype property_read = Throws string | Reads js_value

text \<open>
  The parsed column mapping, \<^verbatim>\<open>JSON.parse(columnMappingStr)\<close>, as the handler uses it:
  what \<^verbatim>\<open>columnMapping[header]\<close> gives for each header.  Its type says that it is an
  object of strings; \<^verbatim>\<open>JSON.parse\<close> does not check that.
\<close>

type_synonym ColumnMapping = "string \<Rightarrow> property_read"

text \<open>
  The members every object inherits from \<^verbatim>\<open>Object.prototype\<close> in Node.js, each with
  the property key its value converts to: the source text of a built-in function, and
  \<^verbatim>\<open>[object Object]\<close> for \<^verbatim>\<open>__proto__\<close>, which reads as \<^verbatim>\<open>Object.prototype\<close> itself.
\<close>

definition native_function :: "string \<Rightarrow> string" where
  "native_function name = ''function '' @ name @ ''() { [native code] }''"

definition object_prototype :: "(string \<times> string) list" where
  "object_prototype =
     [(''constructor'', native_function ''Object''),
      (''__defineGetter__'', native_function ''__defineGetter__''),
      (''__defineSetter__'', native_function ''__defineSetter__''),
      (''hasOwnProperty'', native_function ''hasOwnProperty''),
      (''__lookupGetter__'', native_function ''__lookupGetter__''),
      (''__lookupSetter__'', native_function ''__lookupSetter__''),
      (''isPrototypeOf'', native_function ''isPrototypeOf''),
      (''propertyIsEnumerable'', native_function ''propertyIsEnumerable''),
      (''toString'', native_function ''toString''),
      (''valueOf'', native_function ''valueOf''),
      (''__proto__'', ''[object Object]''),
      (''toLocaleString'', native_function ''toLocaleString'')]"

text \<open>
  \<^verbatim>\<open>JSON.parse\<close> of a JSON object whose members are strings: a member of its own is
  read first (of a name given twice, the last one), then the inherited ones; any other
  property is \<^verbatim>\<open>undefined\<close>.
\<close>

definition json_object :: "(string \<times> string) list \<Rightarrow> ColumnMapping" where
  "json_object members header =
     (case map_of (rev members) header of
        Some v \<Rightarrow> Reads (JString v)
      | None \<Rightarrow>
          (case map_of object_prototype header of
             Some key \<Rightarrow> Reads (JOther True key)
           | None \<Rightarrow> Reads (JOther False ''undefined'')))"

text \<open>\<^verbatim>\<open>JSON.parse\<close> of \<^verbatim>\<open>null\<close>: reading any property of it throws a \<^verbatim>\<open>TypeError\<close>.\<close>

definition json_null :: ColumnMapping where
  "json_null header =
     Throws (''TypeError: Cannot read properties of null (reading '' @ [CHR 0x27] @ header @
             [CHR 0x27] @ '')'')"

text \<open>
  A \<^verbatim>\<open>CustomerData\<close> object: the handler also stores properties under computed
  keys, so it is the association list of its own properties.
\<close>

type_synonym CustomerData = "(string \<times> string) list"

text \<open>
  \<^verbatim>\<open>customerData[key] = value\<close> for a string \<open>value\<close>: a property of its own is
  created or updated, except under the key \<^verbatim>\<open>__proto__\<close>, which reaches the setter
  of \<^verbatim>\<open>Object.prototype\<close>, and that ignores a string.
\<close>

definition set_property :: "string \<Rightarrow> string \<Rightarrow> CustomerData \<Rightarrow> CustomerData" where
  "set_property key v customerData =
     (if key = ''__proto__'' then customerData else AList.update key v customerData)"

record row_error =
  row :: nat
  error :: string

record upload_job =
  job_id :: string
  job_org_id :: string
  job_user_id :: string
  job_filename :: string
  job_file_path :: string
  job_status :: string
  job_total_rows :: int
  job_processed_rows :: int
  job_errors :: "row_error list option"
  job_column_mapping :: "ColumnMapping option"
  job_headers :: "string list"

text \<open>
  What the handlers read and write through the Supabase client and \<^verbatim>\<open>fs\<close>:
  the tokens \<^verbatim>\<open>auth.getUser\<close> accepts (with the user each stands for), the
  \<^verbatim>\<open>users\<close> table (user id to its nullable \<^verbatim>\<open>org_id\<close>), the \<^verbatim>\<open>upload_jobs\<close>
  and \<^verbatim>\<open>customers\<close> tables, and the files on disk.
\<close>

record store =
  auth_users :: "string \<rightharpoonup> string"
  users :: "string \<rightharpoonup> string option"
  upload_jobs :: "upload_job list"
  customers_table :: "CustomerData list"
  files :: "string \<rightharpoonup> string"

record CSVPreview =
  preview_headers :: "string list"
  sample_rows :: "string list list"
  preview_total_rows :: int

text \<open>
  The JSON bodies of the answers: \<^verbatim>\<open>{ error }\<close>, \<^verbatim>\<open>{ upload_job }\<close>,
  \<^verbatim>\<open>{ preview }\<close>, \<^verbatim>\<open>{ success: true, upload_job_id, preview }\<close> and \<^verbatim>\<open>{ fields }\<close>
  (each field with its key, its label and whether it is required).
\<close>

datatype body =
    Error string
  | Job "upload_job option"
  | Preview CSVPreview
  | UploadSuccess string CSVPreview
  | CustomerFields "(string \<times> string \<times> bool) list"

text \<open>
  \<open>NoResponse\<close>: the handler never answers (an \<^verbatim>\<open>'error'\<close> event of the file
  stream itself, which has no listener).
\<close>

datatype response = Response nat body | NoResponse

text \<open>
  The authentication block of the four handlers that take a Bearer token
  (upload route lines 14-25, process handler lines 46-57, preview handler lines 33-44,
  customer-fields handler lines 13-24).
\<close>

definition verify_authentication :: "store \<Rightarrow> string option \<Rightarrow> response + string" where
  "verify_authentication st authHeader =
     (case authHeader of
        None \<Rightarrow> Inl (Response 401 (Error ''Unauthorized''))
      | Some h \<Rightarrow>
          if h = [] \<or> \<not> startsWith h ''Bearer '' then Inl (Response 401 (Error ''Unauthorized''))
          else
            (case at_index (split CHR '' '' h) 1 of
               None \<Rightarrow> Inl (Response 401 (Error ''Invalid token''))
             | Some token \<Rightarrow>
                 (case auth_users st token of
                    None \<Rightarrow> Inl (Response 401 (Error ''Invalid token''))
                  | Some user \<Rightarrow> Inr user)))"

text \<open>\<^verbatim>\<open>profile?.org_id\<close> of the user's row, when it is truthy.\<close>

definition profile_org_id :: "store \<Rightarrow> string \<Rightarrow> string option" where
  "profile_org_id st user =
     (case users st user of
        None \<Rightarrow> None
      | Some None \<Rightarrow> None
      | Some (Some org) \<Rightarrow> if org = [] then None else Some org)"

section \<open>CSV processing: \<^verbatim>\<open>pages/api/upload/csv/process/[id].ts\<close>\<close>

record parse_state =
  customers :: "CustomerData list"
  errors :: "row_error list"
  totalRows :: nat
  processedRows :: nat
  isFirstRow :: bool
  headers :: "string list"

definition truthy :: "string option \<Rightarrow> bool" where
  "truthy v = (case v of None \<Rightarrow> False | Some s \<Rightarrow> s \<noteq> [])"

text \<open>
  The \<^verbatim>\<open>headers.forEach((header, index) => ...)\<close> loop of lines 135-146, from
  \<open>index\<close> on; the accumulator is \<^verbatim>\<open>customerData\<close> and \<^verbatim>\<open>hasRequiredData\<close>.
  \<open>Inl e\<close>: reading \<^verbatim>\<open>columnMapping[header]\<close> threw \<open>e\<close>, which ends the loop.
\<close>

fun map_columns ::
  "ColumnMapping \<Rightarrow> string list \<Rightarrow> nat \<Rightarrow> string list \<Rightarrow> CustomerData \<times> bool \<Rightarrow>
   string + CustomerData \<times> bool"
where
  "map_columns columnMapping rowArray index [] acc = Inr acc"
| "map_columns columnMapping rowArray index (header # hs) (customerData, hasRequiredData) =
     (case columnMapping header of
        Throws e \<Rightarrow> Inl e
      | Reads mappedField \<Rightarrow>
          map_columns columnMapping rowArray (Suc index) hs
            (if js_truthy mappedField \<and> mappedField \<noteq> JString ''ignore'' \<and>
                truthy (at_index rowArray index)
             then
               (let v = trim (rowArray ! index)
                in if v \<noteq> []
                   then (set_property (property_key mappedField) v customerData,
                         hasRequiredData \<or> mappedField = JString ''name'')
                   else (customerData, hasRequiredData))
             else (customerData, hasRequiredData)))"

text \<open>The test of line 158: an email was provided and does not match the pattern.\<close>

definition email_invalid :: "CustomerData \<Rightarrow> bool" where
  "email_invalid customerData =
     (case map_of customerData ''email'' of
        None \<Rightarrow> False
      | Some email \<Rightarrow> email \<noteq> [] \<and> \<not> rx_test email_regex email)"

definition push_error :: "parse_state \<Rightarrow> string \<Rightarrow> parse_state" where
  "push_error st msg = st\<lparr>errors := errors st @ [\<lparr>row = totalRows st, error = msg\<rparr>]\<rparr>"

text \<open>
  The \<^verbatim>\<open>'data'\<close> listener (lines 120-188).  \<open>parse_date\<close> stands for
  \<^verbatim>\<open>new Date(s)\<close>: \<open>None\<close> when the date is invalid, otherwise the date part of
  its \<^verbatim>\<open>toISOString()\<close>.  Of the \<^verbatim>\<open>try\<close> block only the read of
  \<^verbatim>\<open>columnMapping[header]\<close> can throw; the \<^verbatim>\<open>catch\<close> of lines 182-187 then records
  the row with \<^verbatim>\<open>Processing error: \<close> and the error.
\<close>

definition on_data ::
  "ColumnMapping \<Rightarrow> (string \<Rightarrow> string option) \<Rightarrow> parse_state \<Rightarrow> string list \<Rightarrow> parse_state"
where
  "on_data columnMapping parse_date st0 rowArray =
     (let st = st0\<lparr>totalRows := totalRows st0 + 1\<rparr> in
      if isFirstRow st then st\<lparr>headers := rowArray, isFirstRow := False\<rparr>
      else
        (case map_columns columnMapping rowArray 0 (headers st) ([], False) of
           Inl e \<Rightarrow> push_error st (''Processing error: '' @ e)
         | Inr (customerData, hasRequiredData) \<Rightarrow>
             if \<not> hasRequiredData \<or> \<not> truthy (map_of customerData ''name'')
             then push_error st ''Name is required''
             else if email_invalid customerData
             then push_error st ''Invalid email format''
             else if truthy (map_of customerData ''service_date'')
             then
               (case parse_date (the (map_of customerData ''service_date'')) of
                  None \<Rightarrow> push_error st ''Invalid service date format''
                | Some isoDate \<Rightarrow>
                    st\<lparr>customers := customers st @ [AList.update ''service_date'' isoDate customerData],
                       processedRows := processedRows st + 1\<rparr>)
             else st\<lparr>customers := customers st @ [customerData],
                     processedRows := processedRows st + 1\<rparr>))"

definition initial_parse_state :: parse_state where
  "initial_parse_state =
     \<lparr>customers = [], errors = [], totalRows = 0, processedRows = 0, isFirstRow = True,
      headers = []\<rparr>"

text \<open>All \<^verbatim>\<open>'data'\<close> events of a stream, in order.\<close>

definition read_rows ::
  "ColumnMapping \<Rightarrow> (string \<Rightarrow> string option) \<Rightarrow> string list list \<Rightarrow> parse_state"
where
  "read_rows columnMapping parse_date rows =
     foldl (on_data columnMapping parse_date) initial_parse_state rows"

definition batchSize :: nat where
  "batchSize = 100"

text \<open>
  The batch loop of lines 195-215 from \<open>i\<close> on.  \<open>insert_error tbl batch\<close> is the
  \<^verbatim>\<open>insertError\<close> message of the database for inserting \<open>batch\<close> into the table
  \<open>tbl\<close>, \<open>None\<close> when the insert succeeds; an insert is one statement, so a failed
  batch leaves the table as it was.
\<close>

function insert_batches ::
  "(CustomerData list \<Rightarrow> CustomerData list \<Rightarrow> string option) \<Rightarrow> string \<Rightarrow> CustomerData list \<Rightarrow>
   nat \<Rightarrow> row_error list \<times> nat \<times> CustomerData list \<Rightarrow> row_error list \<times> nat \<times> CustomerData list"
where
  "insert_batches insert_error org_id custs i (errs, insertedCount, tbl) =
     (if i < length custs then
        (let batch = take batchSize (drop i custs);
             customersToInsert = map (AList.update ''org_id'' org_id) batch
         in case insert_error tbl customersToInsert of
              Some message \<Rightarrow>
                insert_batches insert_error org_id custs (i + batchSize)
                  (errs @ [\<lparr>row = i + 1, error = ''Database error: '' @ message\<rparr>],
                   insertedCount, tbl)
            | None \<Rightarrow>
                insert_batches insert_error org_id custs (i + batchSize)
                  (errs, insertedCount + length batch, tbl @ customersToInsert))
      else (errs, insertedCount, tbl))"
  by pat_completeness auto
termination
  by (relation "measure (\<lambda>(ie, org, custs, i, acc). length custs - i)")
     (auto simp: batchSize_def)

text \<open>\<^verbatim>\<open>.update(f).eq('id', id)\<close> on \<^verbatim>\<open>upload_jobs\<close>.\<close>

definition update_jobs :: "string \<Rightarrow> (upload_job \<Rightarrow> upload_job) \<Rightarrow> upload_job list \<Rightarrow> upload_job list" where
  "update_jobs ident f jobs = map (\<lambda>j. if job_id j = ident then f j else j) jobs"

text \<open>\<^verbatim>\<open>.single()\<close>: the row when exactly one row is selected.\<close>

definition single :: "'a list \<Rightarrow> 'a option" where
  "single xs = (case xs of [x] \<Rightarrow> Some x | _ \<Rightarrow> None)"

definition final_status :: "row_error list \<Rightarrow> nat \<Rightarrow> string" where
  "final_status errs insertedCount =
     (if length errs > 0 \<and> insertedCount = 0 then ''failed'' else ''completed'')"

text \<open>
  The \<^verbatim>\<open>'end'\<close> listener (lines 189-255).  The Supabase client reports failures in
  its result and does not throw, so the \<^verbatim>\<open>catch\<close> of line 240 is not a branch.
\<close>

definition on_end ::
  "(CustomerData list \<Rightarrow> CustomerData list \<Rightarrow> string option) \<Rightarrow> string \<Rightarrow> string \<Rightarrow> upload_job \<Rightarrow>
   parse_state \<Rightarrow> store \<Rightarrow> response \<times> store"
where
  "on_end insert_error ident org_id uploadJob ps st =
     (case insert_batches insert_error org_id (customers ps) 0 (errors ps, 0, customers_table st) of
        (errs, insertedCount, tbl) \<Rightarrow>
          (let finalStatus = final_status errs insertedCount;
               jobs = update_jobs ident
                        (\<lambda>j. j\<lparr>job_status := finalStatus,
                                job_total_rows := int (totalRows ps) - 1,
                                job_processed_rows := int insertedCount,
                                job_errors := (if length errs > 0 then Some errs else None)\<rparr>)
                        (upload_jobs st);
               updatedJob = single (filter (\<lambda>j. job_id j = ident) jobs)
           in (Response 200 (Job updatedJob),
               st\<lparr>upload_jobs := jobs, customers_table := tbl,
                  files := (files st)(job_file_path uploadJob := None)\<rparr>)))"

text \<open>The \<^verbatim>\<open>'error'\<close> listener of the CSV parser (lines 256-270).\<close>

definition on_error :: "string \<Rightarrow> string \<Rightarrow> store \<Rightarrow> response \<times> store" where
  "on_error ident err st =
     (Response 500 (Error ''Failed to parse CSV file''),
      st\<lparr>upload_jobs :=
           update_jobs ident
             (\<lambda>j. j\<lparr>job_status := ''failed'',
                     job_errors := Some [\<lparr>row = 0, error = ''CSV parsing failed: '' @ err\<rparr>]\<rparr>)
             (upload_jobs st)\<rparr>)"

datatype query_value = Absent | Single string | Multi "string list"

datatype form_fields = FormThrows | Fields "string option"

record process_request =
  req_method :: string
  query_id :: query_value
  authorization :: "string option"
  form :: form_fields

text \<open>
  What the handler takes from outside the store: \<^verbatim>\<open>JSON.parse\<close> of the column
  mapping (\<open>None\<close> when it throws), the rows the CSV parser emits for a file's content
  and the error it ends with (if any), \<^verbatim>\<open>new Date\<close>, and the database's verdict on
  an insert into \<^verbatim>\<open>customers\<close>.
\<close>

record process_env =
  parse_json :: "string \<Rightarrow> ColumnMapping option"
  csv_parser :: "string \<Rightarrow> string list list \<times> string option"
  parse_date :: "string \<Rightarrow> string option"
  insert_error :: "CustomerData list \<Rightarrow> CustomerData list \<Rightarrow> string option"

text \<open>Lines 86-271, once the job is found and pending.\<close>

definition process_job ::
  "process_env \<Rightarrow> process_request \<Rightarrow> string \<Rightarrow> string \<Rightarrow> upload_job \<Rightarrow> store \<Rightarrow> response \<times> store"
where
  "process_job env req ident org_id uploadJob st =
     (case form req of
        FormThrows \<Rightarrow> (Response 500 (Error ''Internal server error''), st)
      | Fields columnMappingStr \<Rightarrow>
          if \<not> truthy columnMappingStr
          then (Response 400 (Error ''Column mapping is required''), st)
          else
            (case parse_json env (the columnMappingStr) of
               None \<Rightarrow> (Response 500 (Error ''Internal server error''), st)
             | Some columnMapping \<Rightarrow>
                 (let st1 = st\<lparr>upload_jobs :=
                                update_jobs ident
                                  (\<lambda>j. j\<lparr>job_status := ''processing'',
                                          job_column_mapping := Some columnMapping\<rparr>)
                                  (upload_jobs st)\<rparr>
                  in case files st1 (job_file_path uploadJob) of
                       None \<Rightarrow> (NoResponse, st1)
                     | Some content \<Rightarrow>
                         (case csv_parser env content of
                            (rows, Some err) \<Rightarrow> on_error ident err st1
                          | (rows, None) \<Rightarrow>
                              on_end (insert_error env) ident org_id uploadJob
                                (read_rows columnMapping (parse_date env) rows) st1))))"

text \<open>The handler (lines 31-277).\<close>

definition process_handler :: "process_env \<Rightarrow> process_request \<Rightarrow> store \<Rightarrow> response \<times> store" where
  "process_handler env req st =
     (if req_method req \<noteq> ''POST'' then (Response 405 (Error ''Method not allowed''), st)
      else
        (case query_id req of
           Absent \<Rightarrow> (Response 400 (Error ''Invalid upload job ID''), st)
         | Multi ids \<Rightarrow> (Response 400 (Error ''Invalid upload job ID''), st)
         | Single ident \<Rightarrow>
             if ident = [] then (Response 400 (Error ''Invalid upload job ID''), st)
             else
               (case verify_authentication st (authorization req) of
                  Inl r \<Rightarrow> (r, st)
                | Inr user \<Rightarrow>
                    (case profile_org_id st user of
                       None \<Rightarrow>
                         (Response 400 (Error ''User not associated with an organization''), st)
                     | Some org_id \<Rightarrow>
                         (case single (filter (\<lambda>j. job_id j = ident \<and> job_org_id j = org_id)
                                         (upload_jobs st)) of
                            None \<Rightarrow> (Response 404 (Error ''Upload job not found''), st)
                          | Some uploadJob \<Rightarrow>
                              if job_status uploadJob \<noteq> ''pending''
                              then (Response 400 (Error ''Upload job already processed''), st)
                              else process_job env req ident org_id uploadJob st)))))"

section \<open>CSV upload: \<^verbatim>\<open>app/api/upload/csv/upload/route.ts\<close>\<close>

text \<open>
  \<^verbatim>\<open>formData.get('file')\<close>: nothing, a text field, or a file with its name and
  content.
\<close>

datatype form_entry = NoEntry | TextEntry string | FileEntry string string

datatype upload_form = FormDataThrows | FormData form_entry

record upload_request =
  up_authorization :: "string option"
  up_form :: upload_form

text \<open>
  From outside the store: the path \<^verbatim>\<open>path.join(uploadsDir, `${Date.now()}-${file.name}`)\<close>
  for a file name, the \<^verbatim>\<open>id\<close> the database generates for a new job, and whether the
  database refuses the insert for a reason of its own.  Writing and reading the file
  succeed.
\<close>

record upload_env =
  upload_filepath :: "string \<Rightarrow> string"
  gen_job_id :: "upload_job list \<Rightarrow> string"
  job_insert_refused :: "upload_job list \<Rightarrow> upload_job \<Rightarrow> bool"

text \<open>\<^verbatim>\<open>h.trim().replace(/"/g, '')\<close> (lines 76 and 78).\<close>

definition clean_field :: "string \<Rightarrow> string" where
  "clean_field h = filter (\<lambda>c. c \<noteq> CHR 0x22) (trim h)"

text \<open>\<^verbatim>\<open>csvContent.split('\n').filter(line => line.trim())\<close> (line 69).\<close>

definition nonblank_lines :: "string \<Rightarrow> string list" where
  "nonblank_lines csvContent = filter (\<lambda>line. trim line \<noteq> []) (split CHR 0x0A csvContent)"

text \<open>Lines 76-85, for a non-empty list of lines.\<close>

definition make_preview :: "string list \<Rightarrow> CSVPreview" where
  "make_preview lines =
     \<lparr>preview_headers = map clean_field (split CHR '','' (hd lines)),
      sample_rows = map (\<lambda>line. map clean_field (split CHR '','' line)) (take 5 (drop 1 lines)),
      preview_total_rows = int (length lines) - 1\<rparr>"

text \<open>The route (lines 12-118).\<close>

definition upload_POST :: "upload_env \<Rightarrow> upload_request \<Rightarrow> store \<Rightarrow> response \<times> store" where
  "upload_POST env req st =
     (case verify_authentication st (up_authorization req) of
        Inl r \<Rightarrow> (r, st)
      | Inr user \<Rightarrow>
          (case profile_org_id st user of
             None \<Rightarrow> (Response 400 (Error ''User not associated with an organization''), st)
           | Some org_id \<Rightarrow>
               (case up_form req of
                  FormDataThrows \<Rightarrow> (Response 500 (Error ''Internal server error''), st)
                | FormData NoEntry \<Rightarrow> (Response 400 (Error ''No file uploaded''), st)
                | FormData (TextEntry t) \<Rightarrow>
                    if t = [] then (Response 400 (Error ''No file uploaded''), st)
                    else (Response 500 (Error ''Internal server error''), st)
                | FormData (FileEntry name csvContent) \<Rightarrow>
                    if \<not> endsWith name ''.csv''
                    then (Response 400 (Error ''Only CSV files are allowed''), st)
                    else
                      (let filepath = upload_filepath env name;
                           lines = nonblank_lines csvContent
                       in if length lines = 0
                          then (Response 400 (Error ''CSV file is empty''),
                                st\<lparr>files := (files st)(filepath := None)\<rparr>)
                          else
                            (let preview = make_preview lines;
                                 uploadJob =
                                   \<lparr>job_id = gen_job_id env (upload_jobs st),
                                    job_org_id = org_id,
                                    job_user_id = user,
                                    job_filename = name,
                                    job_file_path = filepath,
                                    job_status = ''uploaded'',
                                    job_total_rows = int (length lines) - 1,
                                    job_processed_rows = 0,
                                    job_errors = Some [],
                                    job_column_mapping = None,
                                    job_headers = preview_headers preview\<rparr>
                             in if job_id uploadJob \<in> set (map job_id (upload_jobs st)) \<or>
                                   job_insert_refused env (upload_jobs st) uploadJob
                                then (Response 500 (Error ''Failed to create upload job''),
                                      st\<lparr>files := (files st)(filepath := None)\<rparr>)
                                else (Response 200 (UploadSuccess (job_id uploadJob) preview),
                                      st\<lparr>files := (files st)(filepath \<mapsto> csvContent),
                                         upload_jobs := upload_jobs st @ [uploadJob]\<rparr>))))))"

section \<open>CSV preview: the stream-based handler (\<^verbatim>\<open>src/unnamed/part_002\<close>)\<close>

record preview_state =
  pv_headers :: "string list"
  sampleRows :: "string list list"
  rowCount :: nat
  pv_isFirstRow :: bool

text \<open>The \<^verbatim>\<open>'data'\<close> listener (lines 74-86).\<close>

definition preview_on_data :: "preview_state \<Rightarrow> string list \<Rightarrow> preview_state" where
  "preview_on_data ps rowArray =
     (if pv_isFirstRow ps then ps\<lparr>pv_headers := rowArray, pv_isFirstRow := False\<rparr>
      else
        (let ps1 = (if length (sampleRows ps) < 5
                    then ps\<lparr>sampleRows := sampleRows ps @ [rowArray]\<rparr> else ps)
         in ps1\<lparr>rowCount := rowCount ps1 + 1\<rparr>))"

definition initial_preview_state :: preview_state where
  "initial_preview_state = \<lparr>pv_headers = [], sampleRows = [], rowCount = 0, pv_isFirstRow = True\<rparr>"

text \<open>The \<^verbatim>\<open>'end'\<close> listener (lines 87-98): the preview sent with status 200.\<close>

definition preview_of_rows :: "string list list \<Rightarrow> CSVPreview" where
  "preview_of_rows rows =
     (let ps = foldl preview_on_data initial_preview_state rows
      in \<lparr>preview_headers = pv_headers ps, sample_rows = sampleRows ps,
          preview_total_rows = int (rowCount ps)\<rparr>)"

text \<open>
  The uploaded file as \<^verbatim>\<open>formidable\<close> hands it over: parsing throws, no file, or a
  temporary file with this content.
\<close>

datatype preview_form = PreviewFormThrows | PreviewFile "string option"

record preview_request =
  pv_method :: string
  pv_authorization :: "string option"
  pv_form :: preview_form

text \<open>
  The handler (lines 24-116).  It reads and then deletes a temporary file of its own
  and touches nothing else, so the store it returns is the one it was given.
\<close>

definition preview_handler ::
  "(string \<Rightarrow> string list list \<times> string option) \<Rightarrow> preview_request \<Rightarrow> store \<Rightarrow> response \<times> store"
where
  "preview_handler csv req st =
     (if pv_method req \<noteq> ''POST'' then (Response 405 (Error ''Method not allowed''), st)
      else
        (case verify_authentication st (pv_authorization req) of
           Inl r \<Rightarrow> (r, st)
         | Inr user \<Rightarrow>
             (case pv_form req of
                PreviewFormThrows \<Rightarrow> (Response 500 (Error ''Internal server error''), st)
              | PreviewFile None \<Rightarrow> (Response 400 (Error ''No file uploaded''), st)
              | PreviewFile (Some content) \<Rightarrow>
                  (case csv content of
                     (rows, Some err) \<Rightarrow> (Response 500 (Error ''Failed to parse CSV file''), st)
                   | (rows, None) \<Rightarrow> (Response 200 (Preview (preview_of_rows rows)), st)))))"

section \<open>Customer fields: the handler of \<^verbatim>\<open>src/unnamed/part_001\<close>\<close>

record fields_request =
  cf_method :: string
  cf_authorization :: "string option"

text \<open>The fields of lines 27-35: key, label, required.\<close>

definition customer_fields :: "(string \<times> string \<times> bool) list" where
  "customer_fields =
     [(''name'', ''Name'', True),
      (''phone'', ''Phone'', False),
      (''email'', ''Email'', False),
      (''customer_id'', ''Customer/Order ID'', False),
      (''service_date'', ''Service/Purchase Date'', False),
      (''google_review_link'', ''Google Review Link'', False),
      (''ignore'', ''Ignore Column'', False)]"

text \<open>The handler (lines 4-42); it reads the token and nothing else, and writes nothing.\<close>

definition customer_fields_handler :: "fields_request \<Rightarrow> store \<Rightarrow> response \<times> store" where
  "customer_fields_handler req st =
     (if cf_method req \<noteq> ''GET'' then (Response 405 (Error ''Method not allowed''), st)
      else
        (case verify_authentication st (cf_authorization req) of
           Inl r \<Rightarrow> (r, st)
         | Inr user \<Rightarrow> (Response 200 (CustomerFields customer_fields), st)))"

section \<open>Proxy routes to the backend\<close>

text \<open>
  What a route handler of the App router can read of its request: the
  \<^verbatim>\<open>Authorization\<close> header, the access token of the Supabase session held in its
  cookies (\<open>None\<close> without a session), the query string of its URL
  (\<^verbatim>\<open>searchParams.toString()\<close>) and its body parsed as JSON (\<open>None\<close> when
  \<^verbatim>\<open>request.json()\<close> rejects).
\<close>

record 'j next_request =
  nr_authorization :: "string option"
  nr_session :: "string option"
  nr_search :: string
  nr_json :: "'j option"

text \<open>
  What \<^verbatim>\<open>fetch\<close> gives for a request to the backend: it throws, or a response with
  its status and, when its body parses as JSON, the parsed body (\<open>None\<close> when
  \<^verbatim>\<open>response.json()\<close> rejects).
\<close>

datatype 'j fetch_result = FetchThrows | FetchResponse nat "'j option"

text \<open>
  The request sent to the backend: its method, URL, JSON body and \<^verbatim>\<open>Authorization\<close>
  header, if any (every request also carries \<^verbatim>\<open>Content-Type: application/json\<close>).
\<close>

record 'j fetch_request =
  fetch_method :: string
  fetch_url :: string
  fetch_body :: "'j option"
  fetch_authorization :: "string option"

text \<open>
  The bodies a proxy route answers with: the backend's JSON, \<^verbatim>\<open>{ detail }\<close>,
  \<^verbatim>\<open>{ message }\<close> or \<^verbatim>\<open>{ error }\<close>.
\<close>

datatype 'j proxy_body = Relayed 'j | Detail string | Message string | ErrorText string

definition response_ok :: "nat \<Rightarrow> bool" where
  "response_ok status = (200 \<le> status \<and> status \<le> 299)"

text \<open>
  \<^verbatim>\<open>NextResponse.json(body, { status })\<close> builds a \<^verbatim>\<open>Response\<close> with a body; the
  constructor throws for a status outside 200..599 and for the null-body statuses
  101, 103, 204, 205 and 304 (\<open>None\<close>).
\<close>

definition NextResponse_json :: "'b \<Rightarrow> nat \<Rightarrow> (nat \<times> 'b) option" where
  "NextResponse_json b status =
     (if status < 200 \<or> 599 < status \<or> status = 204 \<or> status = 205 \<or> status = 304
      then None else Some (status, b))"

text \<open>
  The body shared by the routes: lines 18-24 of the pause route inside its
  \<^verbatim>\<open>try\<close>, with the \<^verbatim>\<open>catch\<close> of lines 25-31 answering \<open>failure\<close>.
\<close>

definition relay :: "string \<Rightarrow> 'j fetch_result \<Rightarrow> nat \<times> 'j proxy_body" where
  "relay failure r =
     (case r of
        FetchThrows \<Rightarrow> (500, Detail failure)
      | FetchResponse status parsed \<Rightarrow>
          (case parsed of
             None \<Rightarrow> (500, Detail failure)
           | Some j \<Rightarrow>
               if \<not> response_ok status
               then (case NextResponse_json (Relayed j) status of
                       None \<Rightarrow> (500, Detail failure)
                     | Some resp \<Rightarrow> resp)
               else (200, Relayed j)))"

subsection \<open>Campaign proxy routes\<close>

text \<open>
  \<^verbatim>\<open>app/api/campaigns/[id]/pause/route.ts\<close>, \<^verbatim>\<open>POST\<close>: the request it sends to the
  backend (lines 10-16), and the route, which reads nothing of its own request.
\<close>

definition pause_fetch :: "string \<Rightarrow> string \<Rightarrow> 'j fetch_request" where
  "pause_fetch BACKEND_URL ident =
     \<lparr>fetch_method = ''POST'',
      fetch_url = BACKEND_URL @ ''/api/campaigns/'' @ ident @ ''/pause'',
      fetch_body = None, fetch_authorization = None\<rparr>"

definition pause_POST ::
  "('j fetch_request \<Rightarrow> 'j fetch_result) \<Rightarrow> string \<Rightarrow> 'j next_request \<Rightarrow> string \<Rightarrow>
   nat \<times> 'j proxy_body"
where
  "pause_POST fetch BACKEND_URL request ident =
     relay ''Failed to pause campaign'' (fetch (pause_fetch BACKEND_URL ident))"

text \<open>\<^verbatim>\<open>app/api/campaigns/[id]/messages/route.ts\<close>, \<^verbatim>\<open>GET\<close>.\<close>

definition messages_fetch :: "string \<Rightarrow> string \<Rightarrow> string \<Rightarrow> 'j fetch_request" where
  "messages_fetch BACKEND_URL ident queryString =
     \<lparr>fetch_method = ''GET'',
      fetch_url = BACKEND_URL @ ''/api/campaigns/'' @ ident @ ''/messages?'' @ queryString,
      fetch_body = None, fetch_authorization = None\<rparr>"

definition messages_GET ::
  "('j fetch_request \<Rightarrow> 'j fetch_result) \<Rightarrow> string \<Rightarrow> 'j next_request \<Rightarrow> string \<Rightarrow>
   nat \<times> 'j proxy_body"
where
  "messages_GET fetch BACKEND_URL request ident =
     (let queryString = nr_search request
      in relay ''Failed to fetch campaign messages''
           (fetch (messages_fetch BACKEND_URL ident queryString)))"

text \<open>The campaign route (\<^verbatim>\<open>GET\<close>, \<^verbatim>\<open>PUT\<close>, \<^verbatim>\<open>DELETE\<close>) that follows it in the same file.\<close>

definition campaign_fetch :: "string \<Rightarrow> string \<Rightarrow> string \<Rightarrow> 'j option \<Rightarrow> 'j fetch_request" where
  "campaign_fetch method BACKEND_URL ident body =
     \<lparr>fetch_method = method,
      fetch_url = BACKEND_URL @ ''/api/campaigns/'' @ ident,
      fetch_body = body, fetch_authorization = None\<rparr>"

definition campaign_GET ::
  "('j fetch_request \<Rightarrow> 'j fetch_result) \<Rightarrow> string \<Rightarrow> 'j next_request \<Rightarrow> string \<Rightarrow>
   nat \<times> 'j proxy_body"
where
  "campaign_GET fetch BACKEND_URL request ident =
     relay ''Failed to fetch campaign'' (fetch (campaign_fetch ''GET'' BACKEND_URL ident None))"

definition campaign_PUT ::
  "('j fetch_request \<Rightarrow> 'j fetch_result) \<Rightarrow> string \<Rightarrow> 'j next_request \<Rightarrow> string \<Rightarrow>
   nat \<times> 'j proxy_body"
where
  "campaign_PUT fetch BACKEND_URL request ident =
     (case nr_json request of
        None \<Rightarrow> (500, Detail ''Failed to update campaign'')
      | Some body \<Rightarrow>
          relay ''Failed to update campaign''
            (fetch (campaign_fetch ''PUT'' BACKEND_URL ident (Some body))))"

text \<open>
  \<^verbatim>\<open>DELETE\<close> parses the backend's body only when the status is not OK (lines 113-116);
  otherwise it answers with a message of its own (line 118).
\<close>

definition campaign_DELETE ::
  "('j fetch_request \<Rightarrow> 'j fetch_result) \<Rightarrow> string \<Rightarrow> 'j next_request \<Rightarrow> string \<Rightarrow>
   nat \<times> 'j proxy_body"
where
  "campaign_DELETE fetch BACKEND_URL request ident =
     (case fetch (campaign_fetch ''DELETE'' BACKEND_URL ident None) of
        FetchThrows \<Rightarrow> (500, Detail ''Failed to delete campaign'')
      | FetchResponse status parsed \<Rightarrow>
          if \<not> response_ok status
          then (case parsed of
                  None \<Rightarrow> (500, Detail ''Failed to delete campaign'')
                | Some j \<Rightarrow>
                    (case NextResponse_json (Relayed j) status of
                       None \<Rightarrow> (500, Detail ''Failed to delete campaign'')
                     | Some resp \<Rightarrow> resp))
          else (200, Message ''Campaign deleted successfully''))"

text \<open>
  The route that configures WhatsApp for campaigns (\<^verbatim>\<open>src/unnamed/part_003\<close>),
  \<^verbatim>\<open>POST\<close>: it forwards the JSON body of its request.
\<close>

definition configure_whatsapp_fetch :: "string \<Rightarrow> 'j \<Rightarrow> 'j fetch_request" where
  "configure_whatsapp_fetch BACKEND_URL body =
     \<lparr>fetch_method = ''POST'',
      fetch_url = BACKEND_URL @ ''/api/campaigns/configure-whatsapp'',
      fetch_body = Some body, fetch_authorization = None\<rparr>"

definition configure_whatsapp_POST ::
  "('j fetch_request \<Rightarrow> 'j fetch_result) \<Rightarrow> string \<Rightarrow> 'j next_request \<Rightarrow> nat \<times> 'j proxy_body"
where
  "configure_whatsapp_POST fetch BACKEND_URL request =
     (case nr_json request of
        None \<Rightarrow> (500, Detail ''Failed to configure WhatsApp'')
      | Some body \<Rightarrow>
          relay ''Failed to configure WhatsApp''
            (fetch (configure_whatsapp_fetch BACKEND_URL body)))"

subsection \<open>A route behind the session: \<^verbatim>\<open>app/api/google/connection-status/route.ts\<close>\<close>

text \<open>
  \<^verbatim>\<open>GET\<close>: without a session in the cookies the route answers 401 (lines 28-32);
  with one, it sends the session's access token to the backend as a Bearer token
  (lines 34-39) and relays the answer.  It does not read the \<^verbatim>\<open>Authorization\<close> header
  of its own request.
\<close>

definition connection_status_fetch :: "string \<Rightarrow> string \<Rightarrow> 'j fetch_request" where
  "connection_status_fetch BACKEND_URL access_token =
     \<lparr>fetch_method = ''GET'',
      fetch_url = BACKEND_URL @ ''/api/google/connection-status'',
      fetch_body = None, fetch_authorization = Some (''Bearer '' @ access_token)\<rparr>"

definition connection_status_GET ::
  "('j fetch_request \<Rightarrow> 'j fetch_result) \<Rightarrow> string \<Rightarrow> 'j next_request \<Rightarrow> nat \<times> 'j proxy_body"
where
  "connection_status_GET fetch BACKEND_URL request =
     (case nr_session request of
        None \<Rightarrow> (401, ErrorText ''Unauthorized'')
      | Some access_token \<Rightarrow>
          relay ''Failed to fetch Google connection status''
            (fetch (connection_status_fetch BACKEND_URL access_token)))"

section \<open>Campaign lifecycle controls (\<^verbatim>\<open>CampaignExecution\<close>, \<^verbatim>\<open>src/unnamed/part_010\<close>)\<close>

datatype action = Start | Pause | Resume | Stop

text \<open>Lines 202-205.\<close>

definition canStart :: "string \<Rightarrow> bool" where
  "canStart campaignStatus = (campaignStatus = ''draft'' \<or> campaignStatus = ''scheduled'')"

definition canPause :: "string \<Rightarrow> bool" where
  "canPause campaignStatus = (campaignStatus = ''active'')"

definition canResume :: "string \<Rightarrow> bool" where
  "canResume campaignStatus = (campaignStatus = ''paused'')"

definition canStop :: "string \<Rightarrow> bool" where
  "canStop campaignStatus = (campaignStatus = ''active'' \<or> campaignStatus = ''paused'')"

text \<open>The buttons rendered by lines 239-281, in order.\<close>

definition offered_actions :: "string \<Rightarrow> action list" where
  "offered_actions campaignStatus =
     (if canStart campaignStatus then [Start] else []) @
     (if canPause campaignStatus then [Pause] else []) @
     (if canResume campaignStatus then [Resume] else []) @
     (if canStop campaignStatus then [Stop] else [])"

text \<open>
  The lifecycle buttons of the campaign detail page (\<^verbatim>\<open>app/reviews/page.tsx\<close>,
  lines 890-930).
\<close>

definition detail_offered_actions :: "string \<Rightarrow> action list" where
  "detail_offered_actions status =
     (if status = ''draft'' then [Start] else []) @
     (if status = ''active'' then [Pause, Stop] else []) @
     (if status = ''paused'' then [Resume] else [])"

definition action_name :: "action \<Rightarrow> string" where
  "action_name a = (case a of Start \<Rightarrow> ''start'' | Pause \<Rightarrow> ''pause'' | Resume \<Rightarrow> ''resume'' | Stop \<Rightarrow> ''stop'')"

text \<open>The request a button sends (\<^verbatim>\<open>handleCampaignAction\<close>, line 122): always a \<^verbatim>\<open>POST\<close>.\<close>

definition action_url :: "string \<Rightarrow> action \<Rightarrow> string" where
  "action_url campaignId a = ''/api/campaigns/'' @ campaignId @ ''/'' @ action_name a"

section \<open>The relational schema (\<^verbatim>\<open>database_schema.sql\<close> and the migrations)\<close>

text \<open>
  A nullable column holds an \<open>option\<close>, \<open>None\<close> being \<^verbatim>\<open>NULL\<close>.  A \<^verbatim>\<open>CHECK\<close>
  constraint accepts a row when its condition is true or unknown, so it accepts
  \<^verbatim>\<open>NULL\<close>.  A statement the database rejects changes nothing and is an \<open>Inl\<close>.
\<close>

datatype sql_error =
    AlreadyExists | NoSuchTable | UniqueViolation | NotNullViolation | CheckViolation
  | ForeignKeyViolation

text \<open>A column in an \<^verbatim>\<open>INSERT\<close>: left out (the default applies) or given, maybe as \<^verbatim>\<open>NULL\<close>.\<close>

datatype 'a column_input = Omitted | Given "'a option"

subsection \<open>\<^verbatim>\<open>campaigns\<close>\<close>

definition campaign_statuses :: "string list" where
  "campaign_statuses = [''draft'', ''scheduled'', ''active'', ''paused'', ''completed'', ''cancelled'']"

text \<open>\<^verbatim>\<open>CHECK (status IN ('draft', ...))\<close> of \<^verbatim>\<open>database_schema.sql\<close>, line 60.\<close>

definition campaigns_status_check :: "string option \<Rightarrow> bool" where
  "campaigns_status_check status =
     (case status of None \<Rightarrow> True | Some v \<Rightarrow> v \<in> set campaign_statuses)"

record campaign =
  campaign_id :: string
  campaign_status :: "string option"

text \<open>The table once created: whether it carries the \<^verbatim>\<open>CHECK\<close>, and its rows.\<close>

record campaigns_relation =
  status_checked :: bool
  campaign_rows :: "campaign list"

text \<open>
  \<open>CreateCampaigns\<close> is \<^verbatim>\<open>CREATE TABLE campaigns\<close> of \<^verbatim>\<open>database_schema.sql\<close>,
  line 51; \<open>CreateCampaignsPhase1\<close> is \<^verbatim>\<open>CREATE TABLE IF NOT EXISTS campaigns\<close> of
  \<^verbatim>\<open>phase1_schema.sql\<close>, line 4, and \<open>CreateCampaignsAgain\<close> the second
  \<^verbatim>\<open>CREATE TABLE campaigns\<close> of \<^verbatim>\<open>database_schema.sql\<close>, line 315, both without
  the \<^verbatim>\<open>CHECK\<close>.
\<close>

datatype campaigns_stmt =
    CreateCampaigns
  | CreateCampaignsPhase1
  | CreateCampaignsAgain
  | InsertCampaign string "string column_input"
  | UpdateCampaignStatus string "string option"
  | DeleteCampaignRow string

definition campaign_row_ok :: "bool \<Rightarrow> string option \<Rightarrow> bool" where
  "campaign_row_ok checked status = (\<not> checked \<or> campaigns_status_check status)"

fun exec_campaigns ::
  "campaigns_relation option \<Rightarrow> campaigns_stmt \<Rightarrow> sql_error + campaigns_relation option"
where
  "exec_campaigns None CreateCampaigns = Inr (Some \<lparr>status_checked = True, campaign_rows = []\<rparr>)"
| "exec_campaigns (Some t) CreateCampaigns = Inl AlreadyExists"
| "exec_campaigns None CreateCampaignsPhase1 =
     Inr (Some \<lparr>status_checked = False, campaign_rows = []\<rparr>)"
| "exec_campaigns (Some t) CreateCampaignsPhase1 = Inr (Some t)"
| "exec_campaigns None CreateCampaignsAgain =
     Inr (Some \<lparr>status_checked = False, campaign_rows = []\<rparr>)"
| "exec_campaigns (Some t) CreateCampaignsAgain = Inl AlreadyExists"
| "exec_campaigns None (InsertCampaign ident status) = Inl NoSuchTable"
| "exec_campaigns (Some t) (InsertCampaign ident status) =
     (let v = (case status of Omitted \<Rightarrow> Some ''draft'' | Given x \<Rightarrow> x) in
      if ident \<in> set (map campaign_id (campaign_rows t)) then Inl UniqueViolation
      else if \<not> campaign_row_ok (status_checked t) v then Inl CheckViolation
      else Inr (Some (t\<lparr>campaign_rows :=
                          campaign_rows t @ [\<lparr>campaign_id = ident, campaign_status = v\<rparr>]\<rparr>)))"
| "exec_campaigns None (UpdateCampaignStatus ident v) = Inl NoSuchTable"
| "exec_campaigns (Some t) (UpdateCampaignStatus ident v) =
     (if ident \<in> set (map campaign_id (campaign_rows t)) \<and> \<not> campaign_row_ok (status_checked t) v
      then Inl CheckViolation
      else Inr (Some (t\<lparr>campaign_rows :=
                          map (\<lambda>c. if campaign_id c = ident then c\<lparr>campaign_status := v\<rparr> else c)
                            (campaign_rows t)\<rparr>)))"
| "exec_campaigns None (DeleteCampaignRow ident) = Inl NoSuchTable"
| "exec_campaigns (Some t) (DeleteCampaignRow ident) =
     Inr (Some (t\<lparr>campaign_rows := filter (\<lambda>c. campaign_id c \<noteq> ident) (campaign_rows t)\<rparr>))"

text \<open>A script: each statement in turn, a rejected one changing nothing.\<close>

fun run_campaigns :: "campaigns_relation option \<Rightarrow> campaigns_stmt list \<Rightarrow> campaigns_relation option" where
  "run_campaigns db [] = db"
| "run_campaigns db (s # ss) =
     run_campaigns (case exec_campaigns db s of Inl e \<Rightarrow> db | Inr db' \<Rightarrow> db') ss"

definition all_campaign_rows :: "campaigns_relation option \<Rightarrow> campaign list" where
  "all_campaign_rows db = (case db of None \<Rightarrow> [] | Some t \<Rightarrow> campaign_rows t)"

subsection \<open>\<^verbatim>\<open>reviews\<close>\<close>

record review =
  review_id :: string
  review_rating :: int

record reviews_relation =
  rating_checked :: bool
  review_rows :: "review list"

text \<open>
  \<open>CreateReviews\<close> is \<^verbatim>\<open>CREATE TABLE reviews\<close> of \<^verbatim>\<open>database_schema.sql\<close>, line
  147, whose \<^verbatim>\<open>rating\<close> is \<^verbatim>\<open>INTEGER NOT NULL CHECK (rating >= 1 AND rating <= 5)\<close>;
  \<open>CreateReviewsMigration\<close> is \<^verbatim>\<open>CREATE TABLE IF NOT EXISTS reviews\<close> of the Google
  Reviews migration (\<^verbatim>\<open>src/unnamed/part_011\<close>, line 10), whose \<^verbatim>\<open>rating\<close> is
  \<^verbatim>\<open>INTEGER NOT NULL\<close>.
\<close>

datatype reviews_stmt =
    CreateReviews
  | CreateReviewsMigration
  | InsertReview string "int option"
  | UpdateReviewRating string "int option"
  | DeleteReview string

definition rating_error :: "bool \<Rightarrow> int option \<Rightarrow> sql_error option" where
  "rating_error checked rating =
     (case rating of
        None \<Rightarrow> Some NotNullViolation
      | Some r \<Rightarrow> if checked \<and> \<not> (r \<ge> 1 \<and> r \<le> 5) then Some CheckViolation else None)"

fun exec_reviews :: "reviews_relation option \<Rightarrow> reviews_stmt \<Rightarrow> sql_error + reviews_relation option" where
  "exec_reviews None CreateReviews = Inr (Some \<lparr>rating_checked = True, review_rows = []\<rparr>)"
| "exec_reviews (Some t) CreateReviews = Inl AlreadyExists"
| "exec_reviews None CreateReviewsMigration =
     Inr (Some \<lparr>rating_checked = False, review_rows = []\<rparr>)"
| "exec_reviews (Some t) CreateReviewsMigration = Inr (Some t)"
| "exec_reviews None (InsertReview ident rating) = Inl NoSuchTable"
| "exec_reviews (Some t) (InsertReview ident rating) =
     (if ident \<in> set (map review_id (review_rows t)) then Inl UniqueViolation
      else (case rating_error (rating_checked t) rating of
              Some e \<Rightarrow> Inl e
            | None \<Rightarrow>
                Inr (Some (t\<lparr>review_rows :=
                             review_rows t @ [\<lparr>review_id = ident, review_rating = the rating\<rparr>]\<rparr>))))"
| "exec_reviews None (UpdateReviewRating ident rating) = Inl NoSuchTable"
| "exec_reviews (Some t) (UpdateReviewRating ident rating) =
     (if ident \<in> set (map review_id (review_rows t)) \<and> rating_error (rating_checked t) rating \<noteq> None
      then Inl (the (rating_error (rating_checked t) rating))
      else Inr (Some (t\<lparr>review_rows :=
                          map (\<lambda>r. if review_id r = ident then r\<lparr>review_rating := the rating\<rparr> else r)
                            (review_rows t)\<rparr>)))"
| "exec_reviews None (DeleteReview ident) = Inl NoSuchTable"
| "exec_reviews (Some t) (DeleteReview ident) =
     Inr (Some (t\<lparr>review_rows := filter (\<lambda>r. review_id r \<noteq> ident) (review_rows t)\<rparr>))"

fun run_reviews :: "reviews_relation option \<Rightarrow> reviews_stmt list \<Rightarrow> reviews_relation option" where
  "run_reviews db [] = db"
| "run_reviews db (s # ss) =
     run_reviews (case exec_reviews db s of Inl e \<Rightarrow> db | Inr db' \<Rightarrow> db') ss"

definition all_review_rows :: "reviews_relation option \<Rightarrow> review list" where
  "all_review_rows db = (case db of None \<Rightarrow> [] | Some t \<Rightarrow> review_rows t)"

text \<open>The rating a statement would store, if it stores one.\<close>

definition sets_rating :: "reviews_relation option \<Rightarrow> reviews_stmt \<Rightarrow> int option" where
  "sets_rating db s =
     (case s of
        InsertReview ident (Some r) \<Rightarrow> Some r
      | UpdateReviewRating ident (Some r) \<Rightarrow>
          if ident \<in> set (map review_id (all_review_rows db)) then Some r else None
      | _ \<Rightarrow> None)"

subsection \<open>\<^verbatim>\<open>messages\<close> and \<^verbatim>\<open>events\<close>\<close>

record message =
  message_id :: string
  message_guest_id :: "string option"
  message_campaign_id :: "string option"

text \<open>
  \<^verbatim>\<open>events.message_id UUID REFERENCES messages(id) ON DELETE CASCADE\<close>
  (\<^verbatim>\<open>database_schema.sql\<close>, line 112; migration 003, line 7): nullable.
\<close>

record event =
  event_id :: string
  event_message_id :: "string option"
  event_type :: "string option"

record messaging_db =
  messages :: "message list"
  events :: "event list"

definition event_types :: "string list" where
  "event_types = [''sent'', ''delivered'', ''read'', ''failed'', ''bounced'', ''complained'']"

text \<open>The foreign key of a row of \<^verbatim>\<open>events\<close>: \<^verbatim>\<open>NULL\<close>, or the id of a message.\<close>

definition event_fk_ok :: "message list \<Rightarrow> string option \<Rightarrow> bool" where
  "event_fk_ok ms ref = (case ref of None \<Rightarrow> True | Some m \<Rightarrow> m \<in> set (map message_id ms))"

text \<open>
  \<^verbatim>\<open>DELETE FROM messages WHERE ...\<close>: the rows go, and \<^verbatim>\<open>ON DELETE CASCADE\<close> takes the
  events that reference them.
\<close>

definition delete_messages :: "(message \<Rightarrow> bool) \<Rightarrow> messaging_db \<Rightarrow> messaging_db" where
  "delete_messages doomed db =
     (let gone = map message_id (filter doomed (messages db)) in
      \<lparr>messages = filter (\<lambda>m. \<not> doomed m) (messages db),
       events = filter (\<lambda>e. case event_message_id e of None \<Rightarrow> True | Some m \<Rightarrow> m \<notin> set gone)
                  (events db)\<rparr>)"

text \<open>
  \<open>DeleteGuest\<close> and \<open>DeleteCampaign\<close> are deletes in the parent tables, which cascade
  to \<^verbatim>\<open>messages\<close> (lines 92-93) and from there to \<^verbatim>\<open>events\<close>.
\<close>

datatype messaging_stmt =
    InsertMessage message
  | DeleteMessage string
  | DeleteGuest string
  | DeleteCampaign string
  | UpdateMessageId string string
  | InsertEvent event
  | UpdateEventMessage string "string option"
  | DeleteEvent string

fun exec_messaging :: "messaging_db \<Rightarrow> messaging_stmt \<Rightarrow> sql_error + messaging_db" where
  "exec_messaging db (InsertMessage m) =
     (if message_id m \<in> set (map message_id (messages db)) then Inl UniqueViolation
      else Inr (db\<lparr>messages := messages db @ [m]\<rparr>))"
| "exec_messaging db (DeleteMessage ident) = Inr (delete_messages (\<lambda>m. message_id m = ident) db)"
| "exec_messaging db (DeleteGuest g) = Inr (delete_messages (\<lambda>m. message_guest_id m = Some g) db)"
| "exec_messaging db (DeleteCampaign c) =
     Inr (delete_messages (\<lambda>m. message_campaign_id m = Some c) db)"
| "exec_messaging db (UpdateMessageId old new) =
     (if old = new \<or> old \<notin> set (map message_id (messages db)) then Inr db
      else if new \<in> set (map message_id (messages db)) then Inl UniqueViolation
      else if Some old \<in> set (map event_message_id (events db)) then Inl ForeignKeyViolation
      else Inr (db\<lparr>messages :=
                     map (\<lambda>m. if message_id m = old then m\<lparr>message_id := new\<rparr> else m)
                       (messages db)\<rparr>))"
| "exec_messaging db (InsertEvent e) =
     (if event_id e \<in> set (map event_id (events db)) then Inl UniqueViolation
      else if event_type e = None then Inl NotNullViolation
      else if the (event_type e) \<notin> set event_types then Inl CheckViolation
      else if \<not> event_fk_ok (messages db) (event_message_id e) then Inl ForeignKeyViolation
      else Inr (db\<lparr>events := events db @ [e]\<rparr>))"
| "exec_messaging db (UpdateEventMessage ident ref) =
     (if ident \<in> set (map event_id (events db)) \<and> \<not> event_fk_ok (messages db) ref
      then Inl ForeignKeyViolation
      else Inr (db\<lparr>events :=
                     map (\<lambda>e. if event_id e = ident then e\<lparr>event_message_id := ref\<rparr> else e)
                       (events db)\<rparr>))"
| "exec_messaging db (DeleteEvent ident) =
     Inr (db\<lparr>events := filter (\<lambda>e. event_id e \<noteq> ident) (events db)\<rparr>)"

fun run_messaging :: "messaging_db \<Rightarrow> messaging_stmt list \<Rightarrow> messaging_db" where
  "run_messaging db [] = db"
| "run_messaging db (s # ss) =
     run_messaging (case exec_messaging db s of Inl e \<Rightarrow> db | Inr db' \<Rightarrow> db') ss"

definition empty_messaging_db :: messaging_db where
  "empty_messaging_db = \<lparr>messages = [], events = []\<rparr>"

text \<open>No row of \<^verbatim>\<open>events\<close> references a message that is not there.\<close>

definition no_dangling_event :: "messaging_db \<Rightarrow> bool" where
  "no_dangling_event db = list_all (\<lambda>e. event_fk_ok (messages db) (event_message_id e)) (events db)"

text \<open>Every row of \<^verbatim>\<open>events\<close> references a message that is there.\<close>

definition every_event_keyed :: "messaging_db \<Rightarrow> bool" where
  "every_event_keyed db =
     list_all (\<lambda>e. case event_message_id e of
                     None \<Rightarrow> False
                   | Some m \<Rightarrow> m \<in> set (map message_id (messages db))) (events db)"

section \<open>Retry of failed deliveries\<close>

text \<open>
  Modelled from the spec: the retry scheduler of the message dispatch worker.  The
  backend code that retries a failed delivery is not among the source files; the
  repository has the column \<^verbatim>\<open>messages.retry_count INTEGER DEFAULT 0\<close> (migration 003,
  line 21) and the documented policy (\<^verbatim>\<open>src/unnamed/part_012\<close>, lines 150-151):
  a failed message is retried up to 3 times, after delays of 1, 5 and 15 minutes.
\<close>

definition max_retries :: nat where
  "max_retries = 3"

text \<open>Modelled from the spec: the delays before the first, second and third retry, in minutes.\<close>

definition retry_delays :: "nat list" where
  "retry_delays = [1, 5, 15]"

text \<open>
  Modelled from the spec: what the scheduler keeps of a message.  \<open>retry_count\<close> is the
  column of migration 003; \<open>scheduled_at\<close> is the minute at which the next attempt is
  due, \<open>None\<close> when none is.
\<close>

record dispatch =
  dispatch_status :: string
  retry_count :: nat
  scheduled_at :: "nat option"

text \<open>Modelled from the spec: a message queued at minute \<open>t\<close>, not yet retried.\<close>

definition new_dispatch :: "nat \<Rightarrow> dispatch" where
  "new_dispatch t = \<lparr>dispatch_status = ''queued'', retry_count = 0, scheduled_at = Some t\<rparr>"

text \<open>
  Modelled from the spec: one delivery attempt, made when it is due; \<open>ok\<close> says whether
  the provider took the message.
\<close>

definition attempt :: "bool \<Rightarrow> dispatch \<Rightarrow> dispatch" where
  "attempt ok m =
     (case scheduled_at m of
        None \<Rightarrow> m
      | Some now \<Rightarrow>
          if ok then m\<lparr>dispatch_status := ''sent'', scheduled_at := None\<rparr>
          else if retry_count m < max_retries
          then m\<lparr>dispatch_status := ''failed'',
                 retry_count := retry_count m + 1,
                 scheduled_at := Some (now + retry_delays ! retry_count m)\<rparr>
          else m\<lparr>dispatch_status := ''failed'', scheduled_at := None\<rparr>)"

text \<open>Modelled from the spec: the attempts made for one message, given how each one ends.\<close>

fun attempts :: "bool list \<Rightarrow> dispatch \<Rightarrow> dispatch" where
  "attempts [] m = m"
| "attempts (ok # oks) m = attempts oks (attempt ok m)"

section \<open>Example inputs\<close>

text \<open>A backend that is down behind a gateway: status 503 with an HTML page for a body.\<close>

definition backend_unavailable :: "string fetch_request \<Rightarrow> string fetch_result" where
  "backend_unavailable req = FetchResponse 503 None"

text \<open>A backend that knows no campaign: status 404 with a JSON body.\<close>

definition backend_not_found :: "string fetch_request \<Rightarrow> string fetch_result" where
  "backend_not_found req = FetchResponse 404 (Some ''Campaign not found'')"

text \<open>A backend that does what it is asked: status 200 with a JSON body.\<close>

definition backend_done :: "string fetch_request \<Rightarrow> string fetch_result" where
  "backend_done req = FetchResponse 200 (Some ''done'')"

text \<open>A backend that refuses the transition: status 409 with a JSON body.\<close>

definition backend_conflict :: "string fetch_request \<Rightarrow> string fetch_result" where
  "backend_conflict req = FetchResponse 409 (Some ''Campaign is not active'')"

text \<open>
  A request with no \<^verbatim>\<open>Authorization\<close> header, no session, no query and an empty JSON
  body; and the same request by a browser that holds a session.
\<close>

definition anonymous_request :: "string next_request" where
  "anonymous_request =
     \<lparr>nr_authorization = None, nr_session = None, nr_search = [], nr_json = Some ''{}''\<rparr>"

definition session_request :: "string next_request" where
  "session_request = anonymous_request\<lparr>nr_session := Some ''session-token''\<rparr>"

text \<open>
  A store with one user \<^verbatim>\<open>u1\<close> of organisation \<^verbatim>\<open>org1\<close>, whose token is
  \<^verbatim>\<open>tok1\<close>, and nothing uploaded yet.
\<close>

definition example_store :: store where
  "example_store =
     \<lparr>auth_users = [''tok1'' \<mapsto> ''u1''],
      users = [''u1'' \<mapsto> Some ''org1''],
      upload_jobs = [],
      customers_table = [],
      files = Map.empty\<rparr>"

definition example_upload_env :: upload_env where
  "example_upload_env =
     \<lparr>upload_filepath = (\<lambda>name. ''uploads/1700000000000-'' @ name),
      gen_job_id = (\<lambda>jobs. ''job-'' @ replicate (length jobs) CHR ''i''),
      job_insert_refused = (\<lambda>jobs job. False)\<rparr>"

text \<open>
  What the CSV parser (\<^verbatim>\<open>csv-parser\<close> with \<^verbatim>\<open>headers: false\<close>) emits for a file
  of lines that end in LF, without quotes: one row for each line, holding the fields
  between the commas, and an empty row for an empty line.  What follows the last line
  break is a line only when it is not empty.
\<close>

definition csv_lines :: "string \<Rightarrow> string list" where
  "csv_lines content =
     (let ls = split CHR 0x0A content in if last ls = [] then butlast ls else ls)"

definition plain_csv :: "string \<Rightarrow> string list list \<times> string option" where
  "plain_csv content =
     (map (\<lambda>line. if line = [] then [] else split CHR '','' line) (csv_lines content), None)"

text \<open>The column mapping \<^verbatim>\<open>{"Name": "name", "Email": "email", "Notes": "ignore"}\<close>.\<close>

definition example_mapping :: ColumnMapping where
  "example_mapping =
     json_object [(''Name'', ''name''), (''Email'', ''email''), (''Notes'', ''ignore'')]"

definition example_date :: "string \<Rightarrow> string option" where
  "example_date s = (if s = ''2024-01-05'' then Some ''2024-01-05'' else None)"

definition accept_all :: "CustomerData list \<Rightarrow> CustomerData list \<Rightarrow> string option" where
  "accept_all tbl batch = None"

definition example_process_env :: process_env where
  "example_process_env =
     \<lparr>parse_json = (\<lambda>s. if s = ''mapping'' then Some example_mapping else None),
      csv_parser = plain_csv,
      parse_date = example_date,
      insert_error = accept_all\<rparr>"

definition example_upload_request :: "string \<Rightarrow> upload_request" where
  "example_upload_request content =
     \<lparr>up_authorization = Some ''Bearer tok1'',
      up_form = FormData (FileEntry ''guests.csv'' content)\<rparr>"

text \<open>A file of three lines: the header, a good row and a row whose email is malformed.\<close>

definition example_csv :: string where
  "example_csv =
     ''Name,Email'' @ [CHR 0x0A] @ ''Ann, ann@x.org'' @ [CHR 0x0A] @ ''Bob,bob-at-x'' @ [CHR 0x0A]"

definition example_preview :: CSVPreview where
  "example_preview =
     \<lparr>preview_headers = [''Name'', ''Email''],
      sample_rows = [[''Ann'', ''ann@x.org''], [''Bob'', ''bob-at-x'']],
      preview_total_rows = 2\<rparr>"

text \<open>The job the upload route creates for that file, and the store it leaves.\<close>

definition uploaded_job :: upload_job where
  "uploaded_job =
     \<lparr>job_id = ''job-'', job_org_id = ''org1'', job_user_id = ''u1'',
      job_filename = ''guests.csv'',
      job_file_path = ''uploads/1700000000000-guests.csv'',
      job_status = ''uploaded'', job_total_rows = 2, job_processed_rows = 0,
      job_errors = Some [], job_column_mapping = None,
      job_headers = [''Name'', ''Email'']\<rparr>"

definition uploaded_store :: store where
  "uploaded_store =
     \<lparr>auth_users = [''tok1'' \<mapsto> ''u1''],
      users = [''u1'' \<mapsto> Some ''org1''],
      upload_jobs = [uploaded_job],
      customers_table = [],
      files = [''uploads/1700000000000-guests.csv'' \<mapsto> example_csv]\<rparr>"

text \<open>The same store with the job \<^verbatim>\<open>pending\<close>, as the process handler wants it.\<close>

definition pending_store :: store where
  "pending_store = uploaded_store\<lparr>upload_jobs := [uploaded_job\<lparr>job_status := ''pending''\<rparr>]\<rparr>"

definition example_process_request :: process_request where
  "example_process_request =
     \<lparr>req_method = ''POST'', query_id = Single ''job-'', authorization = Some ''Bearer tok1'',
      form = Fields (Some ''mapping'')\<rparr>"

text \<open>What processing that file leaves: one customer, one row-level error.\<close>

definition processed_job :: upload_job where
  "processed_job =
     \<lparr>job_id = ''job-'', job_org_id = ''org1'', job_user_id = ''u1'',
      job_filename = ''guests.csv'',
      job_file_path = ''uploads/1700000000000-guests.csv'',
      job_status = ''completed'', job_total_rows = 2, job_processed_rows = 1,
      job_errors = Some [\<lparr>row = 3, error = ''Invalid email format''\<rparr>],
      job_column_mapping = Some example_mapping,
      job_headers = [''Name'', ''Email'']\<rparr>"

definition processed_store :: store where
  "processed_store =
     \<lparr>auth_users = [''tok1'' \<mapsto> ''u1''],
      users = [''u1'' \<mapsto> Some ''org1''],
      upload_jobs = [processed_job],
      customers_table = [[(''name'', ''Ann''), (''email'', ''ann@x.org''), (''org_id'', ''org1'')]],
      files = Map.empty\<rparr>"

text \<open>A parser that stops after the second row of a file.\<close>

definition first_two_rows :: "string \<Rightarrow> string list list \<times> string option" where
  "first_two_rows content = (take 2 (fst (plain_csv content)), None)"

definition example_rows :: "string list list" where
  "example_rows = [[''Name'', ''Email''], [''Ann'', '' ann@x.org''], [''Bob'', ''bob-at-x'']]"

section \<open>Theorems: campaign status and lifecycle controls\<close>

lemma exec_campaigns_checked:
  assumes "status_checked t"
    and "list_all (\<lambda>c. campaigns_status_check (campaign_status c)) (campaign_rows t)"
    and "exec_campaigns (Some t) s = Inr db'"
  shows "\<exists>t'. db' = Some t' \<and> status_checked t' \<and>
           list_all (\<lambda>c. campaigns_status_check (campaign_status c)) (campaign_rows t')"
  using assms
  by (cases s) (auto simp: Let_def campaign_row_ok_def list_all_iff split: if_splits)

lemma run_campaigns_checked:
  assumes "status_checked t"
    and "list_all (\<lambda>c. campaigns_status_check (campaign_status c)) (campaign_rows t)"
  shows "\<exists>t'. run_campaigns (Some t) script = Some t' \<and> status_checked t' \<and>
           list_all (\<lambda>c. campaigns_status_check (campaign_status c)) (campaign_rows t')"
  using assms
proof (induction script arbitrary: t)
  case Nil
  then show ?case by simp
next
  case (Cons s ss)
  show ?case
  proof (cases "exec_campaigns (Some t) s")
    case (Inl e)
    then show ?thesis using Cons by simp
  next
    case (Inr db')
    from exec_campaigns_checked[OF Cons.prems Inr] obtain t' where
      "db' = Some t'" "status_checked t'"
      "list_all (\<lambda>c. campaigns_status_check (campaign_status c)) (campaign_rows t')" by blast
    then show ?thesis using Cons.IH[of t'] Inr by simp
  qed
qed

lemma offered_actions_iff:
  "a \<in> set (offered_actions s) \<longleftrightarrow>
     (a = Start \<and> (s = ''draft'' \<or> s = ''scheduled'')) \<or>
     (a = Pause \<and> s = ''active'') \<or>
     (a = Resume \<and> s = ''paused'') \<or>
     (a = Stop \<and> (s = ''active'' \<or> s = ''paused''))"
  by (auto simp: offered_actions_def canStart_def canPause_def canResume_def canStop_def)

text \<open>
  Claim C3, as amended.  Once \<^verbatim>\<open>database_schema.sql\<close> has created \<^verbatim>\<open>campaigns\<close>,
  whatever statements follow (inserts, updates, deletes, the later
  \<^verbatim>\<open>CREATE TABLE\<close>s), the status of every row is \<^verbatim>\<open>NULL\<close> or one of
  \<^verbatim>\<open>draft\<close>, \<^verbatim>\<open>scheduled\<close>, \<^verbatim>\<open>active\<close>, \<^verbatim>\<open>paused\<close>, \<^verbatim>\<open>completed\<close>,
  \<^verbatim>\<open>cancelled\<close>.  \<^verbatim>\<open>CampaignExecution\<close> offers start exactly for \<^verbatim>\<open>draft\<close> and
  \<^verbatim>\<open>scheduled\<close>, pause exactly for \<^verbatim>\<open>active\<close>, resume exactly for \<^verbatim>\<open>paused\<close>
  and stop exactly for \<^verbatim>\<open>active\<close> and \<^verbatim>\<open>paused\<close>; the campaign detail page
  offers no action that \<^verbatim>\<open>CampaignExecution\<close> would not.
\<close>

theorem campaign_status_and_gating:
  "list_all (\<lambda>c. campaign_status c = None \<or> campaign_status c \<in> Some ` set campaign_statuses)
     (all_campaign_rows (run_campaigns (run_campaigns None [CreateCampaigns]) script)) \<and>
   (Start \<in> set (offered_actions s) \<longleftrightarrow> s = ''draft'' \<or> s = ''scheduled'') \<and>
   (Pause \<in> set (offered_actions s) \<longleftrightarrow> s = ''active'') \<and>
   (Resume \<in> set (offered_actions s) \<longleftrightarrow> s = ''paused'') \<and>
   (Stop \<in> set (offered_actions s) \<longleftrightarrow> s = ''active'' \<or> s = ''paused'') \<and>
   set (detail_offered_actions s) \<subseteq> set (offered_actions s)"
proof -
  obtain t' where t':
    "run_campaigns (Some \<lparr>status_checked = True, campaign_rows = []\<rparr>) script = Some t'"
    "list_all (\<lambda>c. campaigns_status_check (campaign_status c)) (campaign_rows t')"
    using run_campaigns_checked[of "\<lparr>status_checked = True, campaign_rows = []\<rparr>" script] by auto
  have "list_all (\<lambda>c. campaign_status c = None \<or> campaign_status c \<in> Some ` set campaign_statuses)
     (all_campaign_rows (run_campaigns (run_campaigns None [CreateCampaigns]) script))"
  proof -
    have "campaign_status c = None \<or> campaign_status c \<in> Some ` set campaign_statuses"
      if "campaigns_status_check (campaign_status c)" for c
      using that by (cases "campaign_status c") (simp_all add: campaigns_status_check_def)
    then show ?thesis
      using t' by (auto simp add: all_campaign_rows_def list_all_iff)
  qed
  moreover have "set (detail_offered_actions s) \<subseteq> set (offered_actions s)"
    by (auto simp: detail_offered_actions_def offered_actions_iff)
  ultimately show ?thesis by (simp add: offered_actions_iff)
qed

theorem campaign_status_and_gating_witness:
  "all_campaign_rows (run_campaigns (run_campaigns None [CreateCampaigns])
      [InsertCampaign ''c1'' Omitted, UpdateCampaignStatus ''c1'' (Some ''archived''),
       UpdateCampaignStatus ''c1'' (Some ''active'')])
     = [\<lparr>campaign_id = ''c1'', campaign_status = Some ''active''\<rparr>] \<and>
   Some ''active'' \<in> Some ` set campaign_statuses \<and>
   offered_actions ''active'' = [Pause, Stop] \<and>
   detail_offered_actions ''active'' = [Pause, Stop]"
  using campaign_status_and_gating
    [of "[InsertCampaign ''c1'' Omitted, UpdateCampaignStatus ''c1'' (Some ''archived''),
          UpdateCampaignStatus ''c1'' (Some ''active'')]" "''active''"]
  by (simp add: all_campaign_rows_def campaign_row_ok_def campaigns_status_check_def
        campaign_statuses_def offered_actions_def detail_offered_actions_def
        canStart_def canPause_def canResume_def canStop_def)

text \<open>
  Claim C3 as stated fails: the \<^verbatim>\<open>status\<close> column is nullable and the \<^verbatim>\<open>CHECK\<close>
  accepts \<^verbatim>\<open>NULL\<close>, so an insert with an explicit \<^verbatim>\<open>NULL\<close> leaves a campaign whose
  status is none of the six.
\<close>

theorem campaign_status_null_counterexample:
  "map campaign_status
     (all_campaign_rows (run_campaigns None [CreateCampaigns, InsertCampaign ''c1'' (Given None)]))
   = [None]"
  by (simp add: all_campaign_rows_def campaign_row_ok_def campaigns_status_check_def)

section \<open>Theorems: retry of failed deliveries\<close>

lemma attempt_retry_count:
  "retry_count m \<le> max_retries \<Longrightarrow> retry_count (attempt ok m) \<le> max_retries"
  by (auto simp: attempt_def split: option.splits)

lemma attempts_retry_count:
  "retry_count m \<le> max_retries \<Longrightarrow> retry_count (attempts oks m) \<le> max_retries"
  by (induction oks arbitrary: m) (auto simp: attempt_retry_count)

lemma attempts_unscheduled: "scheduled_at m = None \<Longrightarrow> attempts oks m = m"
  by (induction oks arbitrary: m) (auto simp: attempt_def)

lemma attempts_append: "attempts (xs @ ys) m = attempts ys (attempts xs m)"
  by (induction xs arbitrary: m) auto

text \<open>
  Claim C1.  For a message first due at minute \<open>t\<close> and any outcomes of its attempts:
  \<open>retry_count\<close> never exceeds 3; after the first, second and third failure the next
  attempt is due 1, 5 and 15 minutes after the failed one; and once the third retry
  has failed the message is \<^verbatim>\<open>failed\<close> with nothing scheduled, whatever comes after.
\<close>

theorem retry_policy:
  "retry_count (attempts oks (new_dispatch t)) \<le> 3 \<and>
   scheduled_at (attempts [False] (new_dispatch t)) = Some (t + 1) \<and>
   scheduled_at (attempts [False, False] (new_dispatch t)) = Some (t + 1 + 5) \<and>
   scheduled_at (attempts [False, False, False] (new_dispatch t)) = Some (t + 1 + 5 + 15) \<and>
   attempts ([False, False, False, False] @ oks) (new_dispatch t) =
     \<lparr>dispatch_status = ''failed'', retry_count = 3, scheduled_at = None\<rparr>"
proof -
  have a: "retry_count (attempts oks (new_dispatch t)) \<le> 3"
    using attempts_retry_count[of "new_dispatch t" oks]
    by (simp add: new_dispatch_def max_retries_def)
  have b: "attempts [False, False, False, False] (new_dispatch t) =
     \<lparr>dispatch_status = ''failed'', retry_count = 3, scheduled_at = None\<rparr>"
    by (simp add: new_dispatch_def attempt_def max_retries_def retry_delays_def)
  have c: "attempts ([False, False, False, False] @ oks) (new_dispatch t) =
     \<lparr>dispatch_status = ''failed'', retry_count = 3, scheduled_at = None\<rparr>"
    unfolding attempts_append b by (rule attempts_unscheduled) simp
  show ?thesis using a c
    by (simp add: new_dispatch_def attempt_def max_retries_def retry_delays_def)
qed

theorem retry_policy_witness:
  "attempts [False, False, True, False] (new_dispatch 100) =
     \<lparr>dispatch_status = ''sent'', retry_count = 2, scheduled_at = None\<rparr> \<and>
   attempts [False, False, False, False, False, True] (new_dispatch 100) =
     \<lparr>dispatch_status = ''failed'', retry_count = 3, scheduled_at = None\<rparr>"
  using retry_policy [of "[False, True]" 100]
  by (simp add: new_dispatch_def attempt_def max_retries_def retry_delays_def)

section \<open>Theorems: events and their messages\<close>

lemma no_dangling_event_iff:
  "no_dangling_event db \<longleftrightarrow>
     (\<forall>e \<in> set (events db). \<forall>m. event_message_id e = Some m \<longrightarrow> m \<in> message_id ` set (messages db))"
  by (auto simp: no_dangling_event_def list_all_iff event_fk_ok_def split: option.splits)

lemma delete_messages_no_dangling:
  assumes "no_dangling_event db"
  shows "no_dangling_event (delete_messages doomed db)"
  unfolding no_dangling_event_iff
proof (intro ballI allI impI)
  fix e m
  assume e: "e \<in> set (events (delete_messages doomed db))"
    and m: "event_message_id e = Some m"
  from e m have e0: "e \<in> set (events db)"
    and notgone: "m \<notin> message_id ` {x \<in> set (messages db). doomed x}"
    by (auto simp: delete_messages_def Let_def)
  from assms e0 m obtain x where x: "x \<in> set (messages db)" "message_id x = m"
    unfolding no_dangling_event_iff by auto
  with notgone have "\<not> doomed x" by auto
  with x show "m \<in> message_id ` set (messages (delete_messages doomed db))"
    by (auto simp: delete_messages_def Let_def)
qed

lemma exec_messaging_no_dangling:
  assumes "no_dangling_event db" and "exec_messaging db s = Inr db'"
  shows "no_dangling_event db'"
proof (cases s)
  case (InsertMessage m)
  then show ?thesis using assms
    by (auto simp: no_dangling_event_iff split: if_splits)
next
  case (DeleteMessage i)
  then show ?thesis using assms delete_messages_no_dangling by auto
next
  case (DeleteGuest g)
  then show ?thesis using assms delete_messages_no_dangling by auto
next
  case (DeleteCampaign c)
  then show ?thesis using assms delete_messages_no_dangling by auto
next
  case (UpdateMessageId old new)
  show ?thesis
  proof (cases "old = new \<or> old \<notin> set (map message_id (messages db))")
    case True
    then show ?thesis using assms UpdateMessageId by auto
  next
    case False
    with assms UpdateMessageId have
      unref: "Some old \<notin> set (map event_message_id (events db))"
      and db': "db' = db\<lparr>messages :=
                     map (\<lambda>m. if message_id m = old then m\<lparr>message_id := new\<rparr> else m)
                       (messages db)\<rparr>"
      by (auto split: if_splits)
    show ?thesis
      unfolding no_dangling_event_iff
    proof (intro ballI allI impI)
      fix e m
      assume e: "e \<in> set (events db')" and m: "event_message_id e = Some m"
      from e db' have e0: "e \<in> set (events db)" by simp
      with unref m have "m \<noteq> old" by force
      moreover from assms(1) e0 m obtain x where "x \<in> set (messages db)" "message_id x = m"
        unfolding no_dangling_event_iff by auto
      ultimately show "m \<in> message_id ` set (messages db')"
        unfolding db' by (force simp: image_iff)
    qed
  qed
next
  case (InsertEvent e)
  then show ?thesis using assms
    by (auto simp: no_dangling_event_def split: if_splits)
next
  case (UpdateEventMessage i r)
  then show ?thesis using assms
    by (auto simp: no_dangling_event_def list_all_iff split: if_splits)
next
  case (DeleteEvent i)
  then show ?thesis using assms
    by (auto simp: no_dangling_event_def list_all_iff)
qed

lemma run_messaging_no_dangling:
  "no_dangling_event db \<Longrightarrow> no_dangling_event (run_messaging db script)"
proof (induction script arbitrary: db)
  case Nil
  then show ?case by simp
next
  case (Cons s ss)
  then show ?case
    by (cases "exec_messaging db s") (auto dest: exec_messaging_no_dangling)
qed

text \<open>
  Claim C4, as amended.  Whatever statements run on \<^verbatim>\<open>messages\<close> and \<^verbatim>\<open>events\<close>
  (inserts, updates, deletes, deletes cascading from guests and campaigns), every row of
  \<^verbatim>\<open>events\<close> whose \<^verbatim>\<open>message_id\<close> is not \<^verbatim>\<open>NULL\<close> references a message that
  exists; deleting a message succeeds, removes exactly the events that reference it and
  leaves no event referencing a message that is gone.
\<close>

theorem events_reference_messages:
  "no_dangling_event (run_messaging empty_messaging_db script) \<and>
   (\<exists>db'. exec_messaging (run_messaging empty_messaging_db script) (DeleteMessage ident) = Inr db' \<and>
      ident \<notin> set (map message_id (messages db')) \<and>
      events db' = filter (\<lambda>e. event_message_id e \<noteq> Some ident)
                     (events (run_messaging empty_messaging_db script)) \<and>
      no_dangling_event db')"
proof -
  let ?db = "run_messaging empty_messaging_db script"
  have inv: "no_dangling_event ?db"
    by (rule run_messaging_no_dangling) (simp add: no_dangling_event_def empty_messaging_db_def)
  have "events (delete_messages (\<lambda>m. message_id m = ident) ?db)
        = filter (\<lambda>e. event_message_id e \<noteq> Some ident) (events ?db)"
  proof -
    have "ident \<in> message_id ` {x \<in> set (messages ?db). message_id x = ident}"
      if "e \<in> set (events ?db)" "event_message_id e = Some ident" for e
      using inv that unfolding no_dangling_event_iff by force
    then show ?thesis
      unfolding delete_messages_def Let_def
      by (auto intro!: filter_cong split: option.splits)
  qed
  moreover have "ident \<notin> set (map message_id (messages (delete_messages (\<lambda>m. message_id m = ident) ?db)))"
    by (auto simp: delete_messages_def Let_def)
  ultimately show ?thesis
    using inv delete_messages_no_dangling[OF inv] by simp
qed

theorem events_reference_messages_witness:
  "run_messaging empty_messaging_db
     [InsertMessage \<lparr>message_id = ''m1'', message_guest_id = None, message_campaign_id = None\<rparr>,
      InsertEvent \<lparr>event_id = ''e1'', event_message_id = Some ''m1'', event_type = Some ''sent''\<rparr>,
      InsertEvent \<lparr>event_id = ''e2'', event_message_id = Some ''m2'', event_type = Some ''sent''\<rparr>,
      InsertEvent \<lparr>event_id = ''e3'', event_message_id = None, event_type = Some ''read''\<rparr>,
      DeleteMessage ''m1'']
   = \<lparr>messages = [],
      events = [\<lparr>event_id = ''e3'', event_message_id = None, event_type = Some ''read''\<rparr>]\<rparr> \<and>
   no_dangling_event \<lparr>messages = [],
      events = [\<lparr>event_id = ''e3'', event_message_id = None, event_type = Some ''read''\<rparr>]\<rparr>"
  using events_reference_messages
    [of "[InsertMessage \<lparr>message_id = ''m1'', message_guest_id = None, message_campaign_id = None\<rparr>,
      InsertEvent \<lparr>event_id = ''e1'', event_message_id = Some ''m1'', event_type = Some ''sent''\<rparr>,
      InsertEvent \<lparr>event_id = ''e2'', event_message_id = Some ''m2'', event_type = Some ''sent''\<rparr>,
      InsertEvent \<lparr>event_id = ''e3'', event_message_id = None, event_type = Some ''read''\<rparr>,
      DeleteMessage ''m1'']" "''m1''"]
  by (simp add: empty_messaging_db_def event_types_def event_fk_ok_def delete_messages_def
        no_dangling_event_def)

text \<open>
  Claim C4 as stated fails: \<^verbatim>\<open>events.message_id\<close> is nullable, so an event with no
  message is accepted and that row is keyed to no message.
\<close>

theorem event_without_message_counterexample:
  "run_messaging empty_messaging_db
     [InsertEvent \<lparr>event_id = ''e1'', event_message_id = None, event_type = Some ''sent''\<rparr>]
   = \<lparr>messages = [],
      events = [\<lparr>event_id = ''e1'', event_message_id = None, event_type = Some ''sent''\<rparr>]\<rparr> \<and>
   \<not> every_event_keyed (run_messaging empty_messaging_db
     [InsertEvent \<lparr>event_id = ''e1'', event_message_id = None, event_type = Some ''sent''\<rparr>])"
  by (simp add: empty_messaging_db_def event_types_def event_fk_ok_def every_event_keyed_def)

section \<open>Theorems: review ratings\<close>

lemma exec_reviews_checked:
  assumes "rating_checked t"
    and "list_all (\<lambda>r. 1 \<le> review_rating r \<and> review_rating r \<le> 5) (review_rows t)"
    and "exec_reviews (Some t) s = Inr db'"
  shows "\<exists>t'. db' = Some t' \<and> rating_checked t' \<and>
           list_all (\<lambda>r. 1 \<le> review_rating r \<and> review_rating r \<le> 5) (review_rows t')"
  using assms
  by (cases s) (auto simp: rating_error_def list_all_iff split: if_splits option.splits)

lemma run_reviews_checked:
  assumes "rating_checked t"
    and "list_all (\<lambda>r. 1 \<le> review_rating r \<and> review_rating r \<le> 5) (review_rows t)"
  shows "\<exists>t'. run_reviews (Some t) script = Some t' \<and> rating_checked t' \<and>
           list_all (\<lambda>r. 1 \<le> review_rating r \<and> review_rating r \<le> 5) (review_rows t')"
  using assms
proof (induction script arbitrary: t)
  case Nil
  then show ?case by simp
next
  case (Cons s ss)
  show ?case
  proof (cases "exec_reviews (Some t) s")
    case (Inl e)
    then show ?thesis using Cons by simp
  next
    case (Inr db')
    from exec_reviews_checked[OF Cons.prems Inr] obtain t' where
      "db' = Some t'" "rating_checked t'"
      "list_all (\<lambda>r. 1 \<le> review_rating r \<and> review_rating r \<le> 5) (review_rows t')" by blast
    then show ?thesis using Cons.IH[of t'] Inr by simp
  qed
qed

lemma exec_reviews_rejects:
  assumes "rating_checked t" and "sets_rating (Some t) s = Some r" and "\<not> (1 \<le> r \<and> r \<le> 5)"
  shows "isl (exec_reviews (Some t) s)"
  using assms
  by (cases s) (auto simp: sets_rating_def rating_error_def all_review_rows_def split: option.splits if_splits)

text \<open>
  Claim C5.  Once \<^verbatim>\<open>database_schema.sql\<close> has created \<^verbatim>\<open>reviews\<close>, whatever
  statements follow (the migration's \<^verbatim>\<open>CREATE TABLE IF NOT EXISTS\<close> among them), every
  row has a rating from 1 to 5, and an insert or an update that would store a rating
  outside 1 to 5 is rejected and leaves the table as it was.
\<close>

theorem reviews_rating_range:
  "list_all (\<lambda>r. 1 \<le> review_rating r \<and> review_rating r \<le> 5)
     (all_review_rows (run_reviews (run_reviews None [CreateReviews]) script)) \<and>
   (sets_rating (run_reviews (run_reviews None [CreateReviews]) script) s = Some r \<and> \<not> (1 \<le> r \<and> r \<le> 5)
      \<longrightarrow> isl (exec_reviews (run_reviews (run_reviews None [CreateReviews]) script) s) \<and>
          run_reviews (run_reviews (run_reviews None [CreateReviews]) script) [s]
            = run_reviews (run_reviews None [CreateReviews]) script)"
proof -
  obtain t' where t':
    "run_reviews (Some \<lparr>rating_checked = True, review_rows = []\<rparr>) script = Some t'"
    "rating_checked t'"
    "list_all (\<lambda>r. 1 \<le> review_rating r \<and> review_rating r \<le> 5) (review_rows t')"
    using run_reviews_checked[of "\<lparr>rating_checked = True, review_rows = []\<rparr>" script] by auto
  have db: "run_reviews (run_reviews None [CreateReviews]) script = Some t'"
    using t'(1) by simp
  show ?thesis
    unfolding db using t'(2,3) exec_reviews_rejects[of t' s r]
    by (auto simp: all_review_rows_def split: sum.splits)
qed

theorem reviews_rating_range_witness:
  "run_reviews (run_reviews None [CreateReviews]) [CreateReviewsMigration, InsertReview ''r1'' (Some 4)]
     = Some \<lparr>rating_checked = True, review_rows = [\<lparr>review_id = ''r1'', review_rating = 4\<rparr>]\<rparr> \<and>
   sets_rating (Some \<lparr>rating_checked = True, review_rows = [\<lparr>review_id = ''r1'', review_rating = 4\<rparr>]\<rparr>)
     (UpdateReviewRating ''r1'' (Some 6)) = Some 6 \<and>
   exec_reviews (Some \<lparr>rating_checked = True, review_rows = [\<lparr>review_id = ''r1'', review_rating = 4\<rparr>]\<rparr>)
     (UpdateReviewRating ''r1'' (Some 6)) = Inl CheckViolation \<and>
   exec_reviews (Some \<lparr>rating_checked = True, review_rows = [\<lparr>review_id = ''r1'', review_rating = 4\<rparr>]\<rparr>)
     (InsertReview ''r2'' (Some 0)) = Inl CheckViolation"
  using reviews_rating_range
    [of "[CreateReviewsMigration, InsertReview ''r1'' (Some 4)]" "UpdateReviewRating ''r1'' (Some 6)" 6]
  by (simp add: rating_error_def sets_rating_def all_review_rows_def)

section \<open>Theorems: campaign proxy routes\<close>

lemma relay_rejected:
  assumes "300 \<le> status" and "status \<le> 599" and "status \<noteq> 304"
  shows "relay failure (FetchResponse status (Some j)) = (status, Relayed j)"
  using assms by (simp add: relay_def NextResponse_json_def response_ok_def)

lemma relay_failed:
  "relay failure FetchThrows = (500, Detail failure)"
  "relay failure (FetchResponse status None) = (500, Detail failure)"
  by (simp_all add: relay_def)

text \<open>
  Claim C7, as amended.  Each campaign proxy route (pause, messages, the campaign
  route's \<^verbatim>\<open>GET\<close>, \<^verbatim>\<open>PUT\<close> and \<^verbatim>\<open>DELETE\<close>, and configure-whatsapp) sends its
  request to the backend (\<^verbatim>\<open>PUT\<close> and configure-whatsapp with the JSON body of the
  request they got).  When the backend answers with a non-OK status (300 to 599, 304
  apart) and a body that parses as JSON, the route answers with that body and that
  status.  When \<^verbatim>\<open>fetch\<close> throws, and when the backend answers with a non-OK status
  and a body that does not parse as JSON, the route answers 500 with its fixed message.
\<close>

theorem proxy_routes_relay:
  "(300 \<le> status \<and> status \<le> 599 \<and> status \<noteq> 304 \<longrightarrow>
      (fetch (pause_fetch url ident) = FetchResponse status (Some j)
         \<longrightarrow> pause_POST fetch url request ident = (status, Relayed j)) \<and>
      (fetch (messages_fetch url ident (nr_search request)) = FetchResponse status (Some j)
         \<longrightarrow> messages_GET fetch url request ident = (status, Relayed j)) \<and>
      (fetch (campaign_fetch ''GET'' url ident None) = FetchResponse status (Some j)
         \<longrightarrow> campaign_GET fetch url request ident = (status, Relayed j)) \<and>
      (nr_json request = Some b \<and>
       fetch (campaign_fetch ''PUT'' url ident (Some b)) = FetchResponse status (Some j)
         \<longrightarrow> campaign_PUT fetch url request ident = (status, Relayed j)) \<and>
      (fetch (campaign_fetch ''DELETE'' url ident None) = FetchResponse status (Some j)
         \<longrightarrow> campaign_DELETE fetch url request ident = (status, Relayed j)) \<and>
      (nr_json request = Some b \<and>
       fetch (configure_whatsapp_fetch url b) = FetchResponse status (Some j)
         \<longrightarrow> configure_whatsapp_POST fetch url request = (status, Relayed j))) \<and>
   (fetch (pause_fetch url ident) = FetchThrows
      \<longrightarrow> pause_POST fetch url request ident = (500, Detail ''Failed to pause campaign'')) \<and>
   (fetch (messages_fetch url ident (nr_search request)) = FetchThrows
      \<longrightarrow> messages_GET fetch url request ident
            = (500, Detail ''Failed to fetch campaign messages'')) \<and>
   (fetch (campaign_fetch ''GET'' url ident None) = FetchThrows
      \<longrightarrow> campaign_GET fetch url request ident = (500, Detail ''Failed to fetch campaign'')) \<and>
   (nr_json request = Some b \<and> fetch (campaign_fetch ''PUT'' url ident (Some b)) = FetchThrows
      \<longrightarrow> campaign_PUT fetch url request ident = (500, Detail ''Failed to update campaign'')) \<and>
   (fetch (campaign_fetch ''DELETE'' url ident None) = FetchThrows
      \<longrightarrow> campaign_DELETE fetch url request ident = (500, Detail ''Failed to delete campaign'')) \<and>
   (nr_json request = Some b \<and> fetch (configure_whatsapp_fetch url b) = FetchThrows
      \<longrightarrow> configure_whatsapp_POST fetch url request
            = (500, Detail ''Failed to configure WhatsApp'')) \<and>
   (\<not> response_ok status \<longrightarrow>
      (fetch (pause_fetch url ident) = FetchResponse status None
         \<longrightarrow> pause_POST fetch url request ident = (500, Detail ''Failed to pause campaign'')) \<and>
      (fetch (messages_fetch url ident (nr_search request)) = FetchResponse status None
         \<longrightarrow> messages_GET fetch url request ident
               = (500, Detail ''Failed to fetch campaign messages'')) \<and>
      (fetch (campaign_fetch ''GET'' url ident None) = FetchResponse status None
         \<longrightarrow> campaign_GET fetch url request ident = (500, Detail ''Failed to fetch campaign'')) \<and>
      (nr_json request = Some b \<and>
       fetch (campaign_fetch ''PUT'' url ident (Some b)) = FetchResponse status None
         \<longrightarrow> campaign_PUT fetch url request ident = (500, Detail ''Failed to update campaign'')) \<and>
      (fetch (campaign_fetch ''DELETE'' url ident None) = FetchResponse status None
         \<longrightarrow> campaign_DELETE fetch url request ident
               = (500, Detail ''Failed to delete campaign'')) \<and>
      (nr_json request = Some b \<and>
       fetch (configure_whatsapp_fetch url b) = FetchResponse status None
         \<longrightarrow> configure_whatsapp_POST fetch url request
               = (500, Detail ''Failed to configure WhatsApp'')))"
proof -
  have a: "300 \<le> status \<and> status \<le> 599 \<and> status \<noteq> 304 \<Longrightarrow>
           relay failure (FetchResponse status (Some j)) = (status, Relayed j)" for failure
    by (simp add: relay_rejected)
  have d: "300 \<le> status \<and> status \<le> 599 \<and> status \<noteq> 304 \<Longrightarrow>
           fetch (campaign_fetch ''DELETE'' url ident None) = FetchResponse status (Some j) \<Longrightarrow>
           campaign_DELETE fetch url request ident = (status, Relayed j)"
    by (simp add: campaign_DELETE_def NextResponse_json_def response_ok_def)
  show ?thesis
    using a d
    by (simp add: pause_POST_def messages_GET_def campaign_GET_def campaign_PUT_def
          campaign_DELETE_def configure_whatsapp_POST_def relay_failed)
qed

theorem proxy_routes_relay_witness:
  "pause_POST backend_not_found ''http://localhost:8000'' anonymous_request ''c1''
     = (404, Relayed ''Campaign not found'') \<and>
   messages_GET backend_not_found ''http://localhost:8000'' anonymous_request ''c1''
     = (404, Relayed ''Campaign not found'') \<and>
   campaign_GET backend_not_found ''http://localhost:8000'' anonymous_request ''c1''
     = (404, Relayed ''Campaign not found'') \<and>
   campaign_PUT backend_not_found ''http://localhost:8000'' anonymous_request ''c1''
     = (404, Relayed ''Campaign not found'') \<and>
   campaign_DELETE backend_not_found ''http://localhost:8000'' anonymous_request ''c1''
     = (404, Relayed ''Campaign not found'') \<and>
   configure_whatsapp_POST backend_not_found ''http://localhost:8000'' anonymous_request
     = (404, Relayed ''Campaign not found'') \<and>
   campaign_DELETE backend_unavailable ''http://localhost:8000'' anonymous_request ''c1''
     = (500, Detail ''Failed to delete campaign'') \<and>
   configure_whatsapp_POST backend_unavailable ''http://localhost:8000'' anonymous_request
     = (500, Detail ''Failed to configure WhatsApp'')"
  using proxy_routes_relay
    [where status = 404 and fetch = backend_not_found and url = "''http://localhost:8000''"
       and ident = "''c1''" and j = "''Campaign not found''" and request = anonymous_request
       and b = "''{}''"]
    proxy_routes_relay
    [where status = 503 and fetch = backend_unavailable and url = "''http://localhost:8000''"
       and ident = "''c1''" and request = anonymous_request and b = "''{}''"]
  by (simp add: backend_not_found_def backend_unavailable_def anonymous_request_def
        response_ok_def)

text \<open>
  Claim C7 as stated fails: the backend answers 503, a non-OK status, with a body that is
  not JSON; \<^verbatim>\<open>response.json()\<close> rejects inside the \<^verbatim>\<open>try\<close>, and the route answers
  500 with its fixed message instead of the backend's status and body.
\<close>

theorem proxy_non_json_error_counterexample:
  "pause_POST backend_unavailable ''http://localhost:8000'' anonymous_request ''c1''
     = (500, Detail ''Failed to pause campaign'')"
  by (simp add: pause_POST_def relay_def backend_unavailable_def)

section \<open>Theorems: authentication and status codes of the handlers that take a Bearer token\<close>

text \<open>The first piece of a split is what precedes the first separator.\<close>

lemma split_first:
  "\<exists>rest. split sep s = takeWhile (\<lambda>c. c \<noteq> sep) s # rest"
  by (induction s) (auto split: list.splits)

text \<open>
  The token the handlers take from a header that starts with \<^verbatim>\<open>Bearer \<close>,
  \<^verbatim>\<open>authHeader.split(' ')[1]\<close>: what follows the prefix, up to the next blank.
\<close>

lemma split_Bearer_token:
  assumes "startsWith h ''Bearer ''"
  shows "at_index (split CHR '' '' h) 1 = Some (takeWhile (\<lambda>c. c \<noteq> CHR '' '') (drop 7 h))"
proof -
  have len: "length ''Bearer '' = 7" by simp
  from assms have "take 7 h = ''Bearer ''"
    unfolding startsWith_def len .
  then have h: "h = ''Bearer '' @ drop 7 h"
    by (metis append_take_drop_id)
  obtain rest where r: "split CHR '' '' (drop 7 h)
      = takeWhile (\<lambda>c. c \<noteq> CHR '' '') (drop 7 h) # rest"
    using split_first by blast
  have "split CHR '' '' (''Bearer '' @ drop 7 h)
      = ''Bearer'' # takeWhile (\<lambda>c. c \<noteq> CHR '' '') (drop 7 h) # rest"
    by (simp add: r)
  then have "at_index (split CHR '' '' (''Bearer '' @ drop 7 h)) 1
      = Some (takeWhile (\<lambda>c. c \<noteq> CHR '' '') (drop 7 h))"
    by (simp add: at_index_def)
  with h show ?thesis by simp
qed

lemma verify_authentication_Inl:
  "verify_authentication st authz = Inl r \<Longrightarrow>
     r = Response 401 (Error ''Unauthorized'') \<or> r = Response 401 (Error ''Invalid token'')"
  by (auto simp: verify_authentication_def split: option.splits if_splits)

text \<open>
  The handlers accept exactly the headers that start with \<^verbatim>\<open>Bearer \<close> and whose
  token \<^verbatim>\<open>auth.getUser\<close> accepts.
\<close>

lemma verify_authentication_iff:
  "verify_authentication st authz = Inr user \<longleftrightarrow>
     (\<exists>h. authz = Some h \<and> startsWith h ''Bearer '' \<and>
          auth_users st (takeWhile (\<lambda>c. c \<noteq> CHR '' '') (drop 7 h)) = Some user)"
proof (cases authz)
  case None
  then show ?thesis by (simp add: verify_authentication_def)
next
  case (Some h)
  show ?thesis
  proof (cases "startsWith h ''Bearer ''")
    case False
    with Some show ?thesis by (simp add: verify_authentication_def)
  next
    case True
    then have "h \<noteq> []" by (auto simp: startsWith_def)
    with Some True show ?thesis
      by (simp add: verify_authentication_def split_Bearer_token[unfolded One_nat_def]
               split: option.splits)
  qed
qed

lemma verify_authentication_rejects:
  assumes "\<not> (\<exists>h user. authz = Some h \<and> startsWith h ''Bearer '' \<and>
              auth_users st (takeWhile (\<lambda>c. c \<noteq> CHR '' '') (drop 7 h)) = Some user)"
  shows "\<exists>msg. verify_authentication st authz = Inl (Response 401 (Error msg))"
proof (cases "verify_authentication st authz")
  case (Inl r)
  with verify_authentication_Inl[OF Inl] show ?thesis by auto
next
  case (Inr user)
  with assms show ?thesis unfolding verify_authentication_iff by blast
qed

lemma on_end_status:
  "fst (on_end ie ident org job ps st) = Response code b \<Longrightarrow> code = 200"
  by (auto simp: on_end_def Let_def split: prod.splits)

lemma on_end_body:
  "fst (on_end ie ident org job ps st) = Response code b \<Longrightarrow> \<exists>j. b = Job j"
  by (auto simp: on_end_def Let_def split: prod.splits)

lemma process_job_answer:
  "fst (process_job env req ident org job st) = Response code b \<Longrightarrow>
     (code = 200 \<and> (\<exists>j. b = Job j)) \<or> (code \<in> {400, 500} \<and> (\<exists>msg. b = Error msg))"
  by (auto simp: process_job_def on_error_def Let_def dest: on_end_status on_end_body
           split: form_fields.splits if_splits option.splits prod.splits)

lemma process_handler_answer:
  "fst (process_handler env req st) = Response code b \<Longrightarrow>
     (code = 200 \<and> (\<exists>j. b = Job j)) \<or>
     (code \<in> {400, 401, 404, 405, 500} \<and> (\<exists>msg. b = Error msg))"
  using process_job_answer[of env req _ _ _ st code b]
  by (auto simp: process_handler_def dest!: verify_authentication_Inl
           split: if_splits query_value.splits sum.splits option.splits)

lemma upload_POST_answer:
  "fst (upload_POST env req st) = Response code b \<Longrightarrow>
     (code = 200 \<and> (\<exists>jid p. b = UploadSuccess jid p)) \<or>
     (code \<in> {400, 401, 500} \<and> (\<exists>msg. b = Error msg))"
  by (auto simp: upload_POST_def Let_def dest!: verify_authentication_Inl
           split: if_splits sum.splits option.splits upload_form.splits form_entry.splits)

lemma preview_handler_answer:
  "fst (preview_handler csv req st) = Response code b \<Longrightarrow>
     (code = 200 \<and> (\<exists>p. b = Preview p)) \<or>
     (code \<in> {400, 401, 405, 500} \<and> (\<exists>msg. b = Error msg))"
  by (auto simp: preview_handler_def dest!: verify_authentication_Inl
           split: if_splits sum.splits option.splits preview_form.splits prod.splits)

lemma customer_fields_handler_answer:
  "fst (customer_fields_handler req st) = Response code b \<Longrightarrow>
     (code = 200 \<and> b = CustomerFields customer_fields) \<or>
     (code \<in> {401, 405, 500} \<and> (\<exists>msg. b = Error msg))"
  by (auto simp: customer_fields_handler_def dest!: verify_authentication_Inl
           split: if_splits sum.splits)

text \<open>
  Claim C6, as amended.  The four handlers that verify a Bearer token are the CSV upload
  route and the CSV process, CSV preview and customer-fields handlers.  A request whose
  \<^verbatim>\<open>Authorization\<close> header is missing, does not start with \<^verbatim>\<open>Bearer \<close>, or carries a
  token that \<^verbatim>\<open>auth.getUser\<close> does not accept, is answered 401 and leaves the store as
  it was, when it has the method the handler serves (\<^verbatim>\<open>POST\<close>, and \<^verbatim>\<open>GET\<close> for
  customer-fields) and, for the process handler, a job id in the query.  Whatever the
  request, an answer of these handlers is either 200 with the body of a success, or an
  error with one of the statuses 400, 401, 404, 405, 500 (upload: 400, 401, 500; preview:
  400, 401, 405, 500; customer-fields: 401, 405, 500).  A request with another method to the
  process, preview or customer-fields handler is answered 405, whatever its token, and
  changes nothing.  The campaign proxy routes and the connection-status route do not read
  the \<^verbatim>\<open>Authorization\<close> header of their request: their answer is the same whatever it
  holds; the connection-status route answers 401 when the cookies hold no session.
\<close>

theorem bearer_token_handlers:
  "(\<not> (\<exists>h user. authz = Some h \<and> startsWith h ''Bearer '' \<and>
          auth_users st (takeWhile (\<lambda>c. c \<noteq> CHR '' '') (drop 7 h)) = Some user) \<longrightarrow>
    (up_authorization ureq = authz \<longrightarrow>
       (\<exists>msg. upload_POST uenv ureq st = (Response 401 (Error msg), st))) \<and>
    (authorization preq = authz \<and> req_method preq = ''POST'' \<and> query_id preq = Single ident \<and>
     ident \<noteq> [] \<longrightarrow>
       (\<exists>msg. process_handler penv preq st = (Response 401 (Error msg), st))) \<and>
    (pv_authorization vreq = authz \<and> pv_method vreq = ''POST'' \<longrightarrow>
       (\<exists>msg. preview_handler csv vreq st = (Response 401 (Error msg), st))) \<and>
    (cf_authorization freq = authz \<and> cf_method freq = ''GET'' \<longrightarrow>
       (\<exists>msg. customer_fields_handler freq st = (Response 401 (Error msg), st)))) \<and>
   (fst (upload_POST uenv ureq st) = Response code b \<longrightarrow>
      (code = 200 \<and> (\<exists>jid p. b = UploadSuccess jid p)) \<or>
      (code \<in> {400, 401, 500} \<and> (\<exists>msg. b = Error msg))) \<and>
   (fst (process_handler penv preq st) = Response code b \<longrightarrow>
      (code = 200 \<and> (\<exists>j. b = Job j)) \<or>
      (code \<in> {400, 401, 404, 405, 500} \<and> (\<exists>msg. b = Error msg))) \<and>
   (fst (preview_handler csv vreq st) = Response code b \<longrightarrow>
      (code = 200 \<and> (\<exists>p. b = Preview p)) \<or>
      (code \<in> {400, 401, 405, 500} \<and> (\<exists>msg. b = Error msg))) \<and>
   (fst (customer_fields_handler freq st) = Response code b \<longrightarrow>
      (code = 200 \<and> b = CustomerFields customer_fields) \<or>
      (code \<in> {401, 405, 500} \<and> (\<exists>msg. b = Error msg))) \<and>
   (req_method preq \<noteq> ''POST'' \<longrightarrow>
      process_handler penv preq st = (Response 405 (Error ''Method not allowed''), st)) \<and>
   (pv_method vreq \<noteq> ''POST'' \<longrightarrow>
      preview_handler csv vreq st = (Response 405 (Error ''Method not allowed''), st)) \<and>
   (cf_method freq \<noteq> ''GET'' \<longrightarrow>
      customer_fields_handler freq st = (Response 405 (Error ''Method not allowed''), st)) \<and>
   pause_POST fetch url (request\<lparr>nr_authorization := a\<rparr>) cid = pause_POST fetch url request cid \<and>
   messages_GET fetch url (request\<lparr>nr_authorization := a\<rparr>) cid
     = messages_GET fetch url request cid \<and>
   campaign_GET fetch url (request\<lparr>nr_authorization := a\<rparr>) cid
     = campaign_GET fetch url request cid \<and>
   campaign_PUT fetch url (request\<lparr>nr_authorization := a\<rparr>) cid
     = campaign_PUT fetch url request cid \<and>
   campaign_DELETE fetch url (request\<lparr>nr_authorization := a\<rparr>) cid
     = campaign_DELETE fetch url request cid \<and>
   configure_whatsapp_POST fetch url (request\<lparr>nr_authorization := a\<rparr>)
     = configure_whatsapp_POST fetch url request \<and>
   connection_status_GET fetch url (request\<lparr>nr_authorization := a\<rparr>)
     = connection_status_GET fetch url request \<and>
   (nr_session request = None \<longrightarrow>
      connection_status_GET fetch url request = (401, ErrorText ''Unauthorized''))"
proof (intro conjI impI)
  assume a: "\<not> (\<exists>h user. authz = Some h \<and> startsWith h ''Bearer '' \<and>
          auth_users st (takeWhile (\<lambda>c. c \<noteq> CHR '' '') (drop 7 h)) = Some user)"
  from verify_authentication_rejects[OF a] obtain msg where
    v: "verify_authentication st authz = Inl (Response 401 (Error msg))" by blast
  { assume "up_authorization ureq = authz"
    with v show "\<exists>msg. upload_POST uenv ureq st = (Response 401 (Error msg), st)"
      by (simp add: upload_POST_def) }
  { assume "authorization preq = authz \<and> req_method preq = ''POST'' \<and> query_id preq = Single ident \<and>
       ident \<noteq> []"
    with v show "\<exists>msg. process_handler penv preq st = (Response 401 (Error msg), st)"
      by (simp add: process_handler_def) }
  { assume "pv_authorization vreq = authz \<and> pv_method vreq = ''POST''"
    with v show "\<exists>msg. preview_handler csv vreq st = (Response 401 (Error msg), st)"
      by (simp add: preview_handler_def) }
  { assume "cf_authorization freq = authz \<and> cf_method freq = ''GET''"
    with v show "\<exists>msg. customer_fields_handler freq st = (Response 401 (Error msg), st)"
      by (simp add: customer_fields_handler_def) }
next
  assume "fst (upload_POST uenv ureq st) = Response code b"
  then show "(code = 200 \<and> (\<exists>jid p. b = UploadSuccess jid p)) \<or>
      (code \<in> {400, 401, 500} \<and> (\<exists>msg. b = Error msg))"
    by (rule upload_POST_answer)
next
  assume "fst (process_handler penv preq st) = Response code b"
  then show "(code = 200 \<and> (\<exists>j. b = Job j)) \<or>
      (code \<in> {400, 401, 404, 405, 500} \<and> (\<exists>msg. b = Error msg))"
    by (rule process_handler_answer)
next
  assume "fst (preview_handler csv vreq st) = Response code b"
  then show "(code = 200 \<and> (\<exists>p. b = Preview p)) \<or>
      (code \<in> {400, 401, 405, 500} \<and> (\<exists>msg. b = Error msg))"
    by (rule preview_handler_answer)
next
  assume "fst (customer_fields_handler freq st) = Response code b"
  then show "(code = 200 \<and> b = CustomerFields customer_fields) \<or>
      (code \<in> {401, 405, 500} \<and> (\<exists>msg. b = Error msg))"
    by (rule customer_fields_handler_answer)
next
  assume "req_method preq \<noteq> ''POST''"
  then show "process_handler penv preq st = (Response 405 (Error ''Method not allowed''), st)"
    by (simp add: process_handler_def)
next
  assume "pv_method vreq \<noteq> ''POST''"
  then show "preview_handler csv vreq st = (Response 405 (Error ''Method not allowed''), st)"
    by (simp add: preview_handler_def)
next
  assume "cf_method freq \<noteq> ''GET''"
  then show "customer_fields_handler freq st = (Response 405 (Error ''Method not allowed''), st)"
    by (simp add: customer_fields_handler_def)
next
  assume "nr_session request = None"
  then show "connection_status_GET fetch url request = (401, ErrorText ''Unauthorized'')"
    by (simp add: connection_status_GET_def)
qed (simp_all add: pause_POST_def messages_GET_def campaign_GET_def campaign_PUT_def
       campaign_DELETE_def configure_whatsapp_POST_def connection_status_GET_def)

theorem bearer_token_handlers_witness:
  "upload_POST example_upload_env
     \<lparr>up_authorization = Some ''Bearer stolen'', up_form = FormData (FileEntry ''guests.csv'' ''Name'')\<rparr>
     example_store = (Response 401 (Error ''Invalid token''), example_store) \<and>
   process_handler example_process_env
     \<lparr>req_method = ''POST'', query_id = Single ''job-'', authorization = Some ''Bearer stolen'',
      form = Fields (Some ''mapping'')\<rparr>
     example_store = (Response 401 (Error ''Invalid token''), example_store) \<and>
   preview_handler plain_csv
     \<lparr>pv_method = ''POST'', pv_authorization = Some ''Bearer stolen'', pv_form = PreviewFile (Some ''Name'')\<rparr>
     example_store = (Response 401 (Error ''Invalid token''), example_store) \<and>
   customer_fields_handler \<lparr>cf_method = ''GET'', cf_authorization = Some ''Bearer stolen''\<rparr>
     example_store = (Response 401 (Error ''Invalid token''), example_store) \<and>
   customer_fields_handler \<lparr>cf_method = ''GET'', cf_authorization = Some ''Bearer tok1''\<rparr>
     example_store = (Response 200 (CustomerFields customer_fields), example_store) \<and>
   connection_status_GET backend_done ''http://localhost:8000'' anonymous_request
     = (401, ErrorText ''Unauthorized'')"
  using bearer_token_handlers
    [where authz = "Some ''Bearer stolen''" and st = example_store
       and ureq = "\<lparr>up_authorization = Some ''Bearer stolen'',
                     up_form = FormData (FileEntry ''guests.csv'' ''Name'')\<rparr>"
       and uenv = example_upload_env
       and preq = "\<lparr>req_method = ''POST'', query_id = Single ''job-'',
                     authorization = Some ''Bearer stolen'', form = Fields (Some ''mapping'')\<rparr>"
       and ident = "''job-''" and penv = example_process_env
       and vreq = "\<lparr>pv_method = ''POST'', pv_authorization = Some ''Bearer stolen'',
                     pv_form = PreviewFile (Some ''Name'')\<rparr>"
       and csv = plain_csv
       and freq = "\<lparr>cf_method = ''GET'', cf_authorization = Some ''Bearer stolen''\<rparr>"
       and fetch = backend_done and url = "''http://localhost:8000''"
       and request = anonymous_request]
  by (simp add: upload_POST_def process_handler_def preview_handler_def
        customer_fields_handler_def verify_authentication_def
        startsWith_def at_index_def example_store_def anonymous_request_def
        connection_status_GET_def)

text \<open>
  Claim C6 as stated fails.  A \<^verbatim>\<open>GET\<close> without any token to the process handler is
  answered 405, and a \<^verbatim>\<open>POST\<close> without a job id and without a token 400: neither
  is a 401, and 405 is not one of the four listed codes.  The pause route, which the claim
  cites, asks for no token: a request without one makes the backend pause the campaign
  and is answered 200, and the backend's refusal is relayed with the backend's status,
  409.  The connection-status route takes a session from the cookies: a request with a
  session and no \<^verbatim>\<open>Authorization\<close> header is answered 200.
\<close>

theorem routes_without_401_counterexample:
  "process_handler example_process_env
     \<lparr>req_method = ''GET'', query_id = Single ''job-'', authorization = None,
      form = Fields None\<rparr>
     example_store = (Response 405 (Error ''Method not allowed''), example_store) \<and>
   process_handler example_process_env
     \<lparr>req_method = ''POST'', query_id = Absent, authorization = None, form = Fields None\<rparr>
     example_store = (Response 400 (Error ''Invalid upload job ID''), example_store) \<and>
   nr_authorization anonymous_request = None \<and>
   pause_POST backend_done ''http://localhost:8000'' anonymous_request ''c1''
     = (200, Relayed ''done'') \<and>
   pause_POST backend_conflict ''http://localhost:8000'' anonymous_request ''c1''
     = (409, Relayed ''Campaign is not active'') \<and>
   nr_authorization session_request = None \<and>
   connection_status_GET backend_done ''http://localhost:8000'' session_request
     = (200, Relayed ''done'')"
  by (simp add: process_handler_def pause_POST_def relay_def backend_done_def
        backend_conflict_def response_ok_def NextResponse_json_def anonymous_request_def
        session_request_def connection_status_GET_def)

section \<open>Theorems: an uploaded job and the process handler\<close>

lemma single_Some_iff: "single xs = Some x \<longleftrightarrow> xs = [x]"
  by (cases xs rule: list.exhaust; cases "tl xs") (auto simp: single_def split: list.splits)

lemma process_handler_not_pending:
  assumes "req_method preq = ''POST''" and "query_id preq = Single ident" and "ident \<noteq> []"
    and "verify_authentication st (authorization preq) = Inr user"
    and "profile_org_id st user = Some org"
    and "filter (\<lambda>j. job_id j = ident \<and> job_org_id j = org) (upload_jobs st) = [job]"
    and "job_status job \<noteq> ''pending''"
  shows "process_handler penv preq st = (Response 400 (Error ''Upload job already processed''), st)"
  using assms by (simp add: process_handler_def single_def)

lemma process_handler_unchanged_unless_pending:
  assumes "\<forall>j \<in> set (upload_jobs st). job_id j = ident \<longrightarrow> job_status j \<noteq> ''pending''"
    and "query_id preq = Single ident"
  shows "\<exists>code msg. process_handler penv preq st = (Response code (Error msg), st) \<and> code \<noteq> 200"
proof -
  have *: "job_status job \<noteq> ''pending''"
    if "single (filter (\<lambda>j. job_id j = ident \<and> job_org_id j = org) (upload_jobs st)) = Some job"
    for org job
  proof -
    from that have "filter (\<lambda>j. job_id j = ident \<and> job_org_id j = org) (upload_jobs st) = [job]"
      by (simp add: single_Some_iff)
    then have "job \<in> set (filter (\<lambda>j. job_id j = ident \<and> job_org_id j = org) (upload_jobs st))"
      by simp
    with assms(1) show ?thesis by auto
  qed
  show ?thesis
    using assms(2) *
    by (auto simp: process_handler_def dest!: verify_authentication_Inl
             split: sum.splits option.splits)
qed

lemma upload_POST_success:
  assumes "upload_POST env req st = (Response 200 (UploadSuccess jid p), st')"
  shows "\<exists>user org name content.
           verify_authentication st (up_authorization req) = Inr user \<and>
           profile_org_id st user = Some org \<and>
           up_form req = FormData (FileEntry name content) \<and>
           endsWith name ''.csv'' \<and>
           nonblank_lines content \<noteq> [] \<and>
           p = make_preview (nonblank_lines content) \<and>
           jid = gen_job_id env (upload_jobs st) \<and>
           jid \<notin> set (map job_id (upload_jobs st)) \<and>
           st' = st\<lparr>files := (files st)(upload_filepath env name \<mapsto> content),
                    upload_jobs := upload_jobs st @
                      [\<lparr>job_id = jid, job_org_id = org, job_user_id = user, job_filename = name,
                        job_file_path = upload_filepath env name, job_status = ''uploaded'',
                        job_total_rows = int (length (nonblank_lines content)) - 1,
                        job_processed_rows = 0, job_errors = Some [],
                        job_column_mapping = None,
                        job_headers = preview_headers (make_preview (nonblank_lines content))\<rparr>]\<rparr>"
  using assms
  by (auto simp: upload_POST_def Let_def dest!: verify_authentication_Inl
           split: sum.splits option.splits upload_form.splits form_entry.splits if_splits)

text \<open>
  Claim C9.  A job the upload route creates has status \<^verbatim>\<open>uploaded\<close>.  A request to the
  process handler for that job is never answered 200 and changes nothing in the store
  (no customer is inserted, the job and its file stay as they are); a \<^verbatim>\<open>POST\<close> by an
  authenticated user of the job's organisation is answered 400,
  \<^verbatim>\<open>Upload job already processed\<close>.
\<close>

theorem uploaded_job_is_not_processed:
  "upload_POST uenv ureq st = (Response 200 (UploadSuccess jid p), st') \<longrightarrow>
     (\<exists>job. filter (\<lambda>j. job_id j = jid) (upload_jobs st') = [job] \<and>
        job_status job = ''uploaded'' \<and>
        (\<forall>penv preq. query_id preq = Single jid \<longrightarrow>
           (\<exists>code msg. process_handler penv preq st' = (Response code (Error msg), st') \<and> code \<noteq> 200) \<and>
           (jid \<noteq> [] \<and> req_method preq = ''POST'' \<and>
            (\<exists>user. verify_authentication st' (authorization preq) = Inr user \<and>
                    profile_org_id st' user = Some (job_org_id job)) \<longrightarrow>
              process_handler penv preq st' =
                (Response 400 (Error ''Upload job already processed''), st'))))"
proof
  assume up: "upload_POST uenv ureq st = (Response 200 (UploadSuccess jid p), st')"
  from upload_POST_success[OF up] obtain user org name content where
    fresh: "jid \<notin> set (map job_id (upload_jobs st))" and
    st': "st' = st\<lparr>files := (files st)(upload_filepath uenv name \<mapsto> content),
                    upload_jobs := upload_jobs st @
                      [\<lparr>job_id = jid, job_org_id = org, job_user_id = user, job_filename = name,
                        job_file_path = upload_filepath uenv name, job_status = ''uploaded'',
                        job_total_rows = int (length (nonblank_lines content)) - 1,
                        job_processed_rows = 0, job_errors = Some [],
                        job_column_mapping = None,
                        job_headers = preview_headers (make_preview (nonblank_lines content))\<rparr>]\<rparr>"
    by blast
  define job where "job = \<lparr>job_id = jid, job_org_id = org, job_user_id = user, job_filename = name,
                        job_file_path = upload_filepath uenv name, job_status = ''uploaded'',
                        job_total_rows = int (length (nonblank_lines content)) - 1,
                        job_processed_rows = 0, job_errors = Some [],
                        job_column_mapping = None,
                        job_headers = preview_headers (make_preview (nonblank_lines content))\<rparr>"
  have jobs: "upload_jobs st' = upload_jobs st @ [job]"
    by (simp add: st' job_def)
  have old: "filter (\<lambda>j. job_id j = jid \<and> P j) (upload_jobs st) = []" for P
    using fresh by (auto simp: filter_empty_conv)
  have old': "filter (\<lambda>j. job_id j = jid) (upload_jobs st) = []"
    using fresh by (auto simp: filter_empty_conv)
  have f1: "filter (\<lambda>j. job_id j = jid) (upload_jobs st') = [job]"
    by (simp add: jobs old' job_def)
  have f2: "filter (\<lambda>j. job_id j = jid \<and> job_org_id j = job_org_id job) (upload_jobs st') = [job]"
    by (simp add: jobs old job_def)
  have status: "job_status job = ''uploaded''" by (simp add: job_def)
  have np: "\<forall>j \<in> set (upload_jobs st'). job_id j = jid \<longrightarrow> job_status j \<noteq> ''pending''"
    using fresh by (auto simp: jobs job_def)
  have "\<forall>penv preq. query_id preq = Single jid \<longrightarrow>
           (\<exists>code msg. process_handler penv preq st' = (Response code (Error msg), st') \<and> code \<noteq> 200) \<and>
           (jid \<noteq> [] \<and> req_method preq = ''POST'' \<and>
            (\<exists>user. verify_authentication st' (authorization preq) = Inr user \<and>
                    profile_org_id st' user = Some (job_org_id job)) \<longrightarrow>
              process_handler penv preq st' =
                (Response 400 (Error ''Upload job already processed''), st'))"
  proof (intro allI impI conjI)
    fix penv :: process_env and preq :: process_request
    assume q: "query_id preq = Single jid"
    show "\<exists>code msg. process_handler penv preq st' = (Response code (Error msg), st') \<and> code \<noteq> 200"
      by (rule process_handler_unchanged_unless_pending[OF np q])
    assume g: "jid \<noteq> [] \<and> req_method preq = ''POST'' \<and>
            (\<exists>user. verify_authentication st' (authorization preq) = Inr user \<and>
                    profile_org_id st' user = Some (job_org_id job))"
    then obtain u where u: "verify_authentication st' (authorization preq) = Inr u"
      "profile_org_id st' u = Some (job_org_id job)" by blast
    show "process_handler penv preq st' =
                (Response 400 (Error ''Upload job already processed''), st')"
      using process_handler_not_pending[OF _ q _ u f2] g status by simp
  qed
  with f1 status show "\<exists>job. filter (\<lambda>j. job_id j = jid) (upload_jobs st') = [job] \<and>
        job_status job = ''uploaded'' \<and>
        (\<forall>penv preq. query_id preq = Single jid \<longrightarrow>
           (\<exists>code msg. process_handler penv preq st' = (Response code (Error msg), st') \<and> code \<noteq> 200) \<and>
           (jid \<noteq> [] \<and> req_method preq = ''POST'' \<and>
            (\<exists>user. verify_authentication st' (authorization preq) = Inr user \<and>
                    profile_org_id st' user = Some (job_org_id job)) \<longrightarrow>
              process_handler penv preq st' =
                (Response 400 (Error ''Upload job already processed''), st')))"
    by blast
qed

lemma example_lines:
  "nonblank_lines example_csv = [''Name,Email'', ''Ann, ann@x.org'', ''Bob,bob-at-x'']"
  by (simp add: nonblank_lines_def example_csv_def trim_def js_space_def)

lemma example_upload:
  "upload_POST example_upload_env (example_upload_request example_csv) example_store
     = (Response 200 (UploadSuccess ''job-'' example_preview), uploaded_store)"
  by (simp add: upload_POST_def example_upload_request_def example_store_def
        verify_authentication_def startsWith_def at_index_def profile_org_id_def endsWith_def
        example_upload_env_def example_lines make_preview_def clean_field_def trim_def
        js_space_def example_preview_def uploaded_store_def uploaded_job_def Let_def)

theorem uploaded_job_is_not_processed_witness:
  "upload_POST example_upload_env (example_upload_request example_csv) example_store
     = (Response 200 (UploadSuccess ''job-'' example_preview), uploaded_store) \<and>
   filter (\<lambda>j. job_id j = ''job-'') (upload_jobs uploaded_store) = [uploaded_job] \<and>
   job_status uploaded_job = ''uploaded'' \<and>
   process_handler example_process_env example_process_request uploaded_store
     = (Response 400 (Error ''Upload job already processed''), uploaded_store)"
proof -
  have v: "verify_authentication uploaded_store (authorization example_process_request) = Inr ''u1''"
    by (simp add: verify_authentication_def example_process_request_def uploaded_store_def
          startsWith_def at_index_def)
  have o: "profile_org_id uploaded_store ''u1'' = Some ''org1''"
    by (simp add: profile_org_id_def uploaded_store_def)
  have f: "filter (\<lambda>j. job_id j = ''job-'') (upload_jobs uploaded_store) = [uploaded_job]"
    by (simp add: uploaded_store_def uploaded_job_def)
  from uploaded_job_is_not_processed
    [of example_upload_env "example_upload_request example_csv" example_store "''job-''"
        example_preview uploaded_store]
    example_upload
  obtain job where job: "filter (\<lambda>j. job_id j = ''job-'') (upload_jobs uploaded_store) = [job]"
    and rest: "\<forall>penv preq. query_id preq = Single ''job-'' \<longrightarrow>
           (\<exists>code msg. process_handler penv preq uploaded_store
                          = (Response code (Error msg), uploaded_store) \<and> code \<noteq> 200) \<and>
           (''job-'' \<noteq> [] \<and> req_method preq = ''POST'' \<and>
            (\<exists>user. verify_authentication uploaded_store (authorization preq) = Inr user \<and>
                    profile_org_id uploaded_store user = Some (job_org_id job)) \<longrightarrow>
              process_handler penv preq uploaded_store =
                (Response 400 (Error ''Upload job already processed''), uploaded_store))"
    by blast
  from job f have "job = uploaded_job" by simp
  then have org: "job_org_id job = ''org1''" by (simp add: uploaded_job_def)
  have "process_handler example_process_env example_process_request uploaded_store
     = (Response 400 (Error ''Upload job already processed''), uploaded_store)"
    using rest[rule_format, of example_process_request example_process_env] v o org
    by (auto simp: example_process_request_def)
  with example_upload f show ?thesis by (simp add: uploaded_job_def)
qed

section \<open>Theorems: the CSV previews\<close>

lemma preview_on_data_step:
  "\<not> pv_isFirstRow ps \<Longrightarrow>
     preview_on_data ps r =
       ps\<lparr>sampleRows := (if length (sampleRows ps) < 5 then sampleRows ps @ [r] else sampleRows ps),
          rowCount := rowCount ps + 1\<rparr>"
  by (simp add: preview_on_data_def)

lemma preview_fold:
  assumes "\<not> pv_isFirstRow ps" and "length (sampleRows ps) \<le> 5"
  shows "foldl preview_on_data ps rows =
           ps\<lparr>sampleRows := take 5 (sampleRows ps @ rows), rowCount := rowCount ps + length rows\<rparr>"
  using assms
proof (induction rows arbitrary: ps)
  case Nil
  then show ?case by simp
next
  case (Cons r rows)
  define ps' where "ps' = preview_on_data ps r"
  have ps': "ps' = ps\<lparr>sampleRows := (if length (sampleRows ps) < 5 then sampleRows ps @ [r]
                                      else sampleRows ps),
                      rowCount := rowCount ps + 1\<rparr>"
    unfolding ps'_def using Cons.prems(1) by (rule preview_on_data_step)
  have "foldl preview_on_data ps' rows =
          ps'\<lparr>sampleRows := take 5 (sampleRows ps' @ rows), rowCount := rowCount ps' + length rows\<rparr>"
    using Cons.prems by (intro Cons.IH) (simp_all add: ps')
  then have "foldl preview_on_data ps (r # rows) =
          ps'\<lparr>sampleRows := take 5 (sampleRows ps' @ rows), rowCount := rowCount ps' + length rows\<rparr>"
    by (simp add: ps'_def)
  then show ?case
    using Cons.prems by (cases "length (sampleRows ps) < 5") (auto simp add: ps' take_Cons')
qed

lemma preview_of_rows_eq:
  "preview_of_rows rows =
     \<lparr>preview_headers = (case rows of [] \<Rightarrow> [] | h # rest \<Rightarrow> h),
      sample_rows = take 5 (tl rows),
      preview_total_rows = int (length (tl rows))\<rparr>"
proof (cases rows)
  case Nil
  then show ?thesis by (simp add: preview_of_rows_def initial_preview_state_def)
next
  case (Cons h rest)
  have "foldl preview_on_data (preview_on_data initial_preview_state h) rest =
          (preview_on_data initial_preview_state h)
            \<lparr>sampleRows := take 5 (sampleRows (preview_on_data initial_preview_state h) @ rest),
             rowCount := rowCount (preview_on_data initial_preview_state h) + length rest\<rparr>"
    by (rule preview_fold) (simp_all add: preview_on_data_def initial_preview_state_def)
  then show ?thesis
    using Cons by (simp add: preview_of_rows_def preview_on_data_def initial_preview_state_def)
qed

text \<open>
  Claim C10, as amended.  For a \<^verbatim>\<open>.csv\<close> file uploaded by an authenticated user of an
  organisation: when the file has no non-blank line, the upload route answers 400 and
  creates no job; when it has one and the database takes the new job, the route answers
  200 with a preview whose headers are the cleaned fields of the first non-blank line,
  whose sample rows are the cleaned fields of the next non-blank lines, five at most, and
  whose \<^verbatim>\<open>total_rows\<close> is the number of non-blank lines minus one.  The stream-based
  preview handler answers 200 for every file its parser reads to the end: the headers are
  the first row the parser emits, the sample rows the next rows, five at most, and
  \<^verbatim>\<open>total_rows\<close> the number of rows after the first; it creates no job and changes
  nothing in the store.
\<close>

theorem csv_previews:
  "(verify_authentication st (up_authorization req) = Inr user \<and>
    profile_org_id st user = Some org \<and>
    up_form req = FormData (FileEntry name content) \<and> endsWith name ''.csv'' \<longrightarrow>
      (nonblank_lines content = [] \<longrightarrow>
         (\<exists>st'. upload_POST env req st = (Response 400 (Error ''CSV file is empty''), st') \<and>
                upload_jobs st' = upload_jobs st)) \<and>
      (nonblank_lines content \<noteq> [] \<and>
       gen_job_id env (upload_jobs st) \<notin> set (map job_id (upload_jobs st)) \<and>
       (\<forall>job. \<not> job_insert_refused env (upload_jobs st) job) \<longrightarrow>
         (\<exists>p st'. upload_POST env req st =
                    (Response 200 (UploadSuccess (gen_job_id env (upload_jobs st)) p), st') \<and>
            preview_headers p = map clean_field (split CHR '','' (hd (nonblank_lines content))) \<and>
            sample_rows p =
              map (\<lambda>line. map clean_field (split CHR '','' line))
                (take 5 (tl (nonblank_lines content))) \<and>
            length (sample_rows p) \<le> 5 \<and>
            preview_total_rows p = int (length (nonblank_lines content)) - 1))) \<and>
   (pv_method vreq = ''POST'' \<and> verify_authentication st (pv_authorization vreq) = Inr user' \<and>
    pv_form vreq = PreviewFile (Some content') \<and> csv content' = (rows, None) \<longrightarrow>
      (\<exists>p. preview_handler csv vreq st = (Response 200 (Preview p), st) \<and>
         preview_headers p = (case rows of [] \<Rightarrow> [] | h # rest \<Rightarrow> h) \<and>
         sample_rows p = take 5 (tl rows) \<and>
         length (sample_rows p) \<le> 5 \<and>
         preview_total_rows p = int (length (tl rows))))"
proof (intro conjI impI)
  assume g: "verify_authentication st (up_authorization req) = Inr user \<and>
    profile_org_id st user = Some org \<and>
    up_form req = FormData (FileEntry name content) \<and> endsWith name ''.csv''"
  { assume "nonblank_lines content = []"
    with g show "\<exists>st'. upload_POST env req st = (Response 400 (Error ''CSV file is empty''), st') \<and>
                upload_jobs st' = upload_jobs st"
      by (simp add: upload_POST_def Let_def) }
  { assume "nonblank_lines content \<noteq> [] \<and>
       gen_job_id env (upload_jobs st) \<notin> set (map job_id (upload_jobs st)) \<and>
       (\<forall>job. \<not> job_insert_refused env (upload_jobs st) job)"
    with g show "\<exists>p st'. upload_POST env req st =
                    (Response 200 (UploadSuccess (gen_job_id env (upload_jobs st)) p), st') \<and>
            preview_headers p = map clean_field (split CHR '','' (hd (nonblank_lines content))) \<and>
            sample_rows p =
              map (\<lambda>line. map clean_field (split CHR '','' line))
                (take 5 (tl (nonblank_lines content))) \<and>
            length (sample_rows p) \<le> 5 \<and>
            preview_total_rows p = int (length (nonblank_lines content)) - 1"
      by (simp add: upload_POST_def Let_def make_preview_def drop_Suc) }
next
  assume "pv_method vreq = ''POST'' \<and> verify_authentication st (pv_authorization vreq) = Inr user' \<and>
    pv_form vreq = PreviewFile (Some content') \<and> csv content' = (rows, None)"
  then show "\<exists>p. preview_handler csv vreq st = (Response 200 (Preview p), st) \<and>
         preview_headers p = (case rows of [] \<Rightarrow> [] | h # rest \<Rightarrow> h) \<and>
         sample_rows p = take 5 (tl rows) \<and>
         length (sample_rows p) \<le> 5 \<and>
         preview_total_rows p = int (length (tl rows))"
    by (simp add: preview_handler_def preview_of_rows_eq)
qed

theorem csv_previews_witness:
  "upload_POST example_upload_env (example_upload_request example_csv) example_store
     = (Response 200 (UploadSuccess ''job-'' example_preview), uploaded_store) \<and>
   fst (upload_POST example_upload_env (example_upload_request [CHR '' '', CHR 0x0A]) example_store)
     = Response 400 (Error ''CSV file is empty'') \<and>
   preview_handler plain_csv
     \<lparr>pv_method = ''POST'', pv_authorization = Some ''Bearer tok1'',
      pv_form = PreviewFile (Some example_csv)\<rparr> example_store
     = (Response 200 (Preview
          \<lparr>preview_headers = [''Name'', ''Email''],
           sample_rows = [[''Ann'', '' ann@x.org''], [''Bob'', ''bob-at-x'']],
           preview_total_rows = 2\<rparr>), example_store)"
proof -
  have v: "verify_authentication example_store (Some ''Bearer tok1'') = Inr ''u1''"
    by (simp add: verify_authentication_def example_store_def startsWith_def at_index_def)
  have o: "profile_org_id example_store ''u1'' = Some ''org1''"
    by (simp add: profile_org_id_def example_store_def)
  have e: "endsWith ''guests.csv'' ''.csv''" by (simp add: endsWith_def)
  have b: "nonblank_lines [CHR '' '', CHR 0x0A] = []"
    by (simp add: nonblank_lines_def trim_def js_space_def)
  have p: "plain_csv example_csv =
      ([[''Name'', ''Email''], [''Ann'', '' ann@x.org''], [''Bob'', ''bob-at-x'']], None)"
    by (simp add: plain_csv_def csv_lines_def example_csv_def Let_def)
  have "fst (upload_POST example_upload_env (example_upload_request [CHR '' '', CHR 0x0A]) example_store)
     = Response 400 (Error ''CSV file is empty'')"
    using csv_previews
      [of example_store "example_upload_request [CHR '' '', CHR 0x0A]" "''u1''" "''org1''"
          "''guests.csv''" "[CHR '' '', CHR 0x0A]" example_upload_env, THEN conjunct1] v o e b
    by (auto simp: example_upload_request_def)
  moreover have "preview_handler plain_csv
     \<lparr>pv_method = ''POST'', pv_authorization = Some ''Bearer tok1'',
      pv_form = PreviewFile (Some example_csv)\<rparr> example_store
     = (Response 200 (Preview
          \<lparr>preview_headers = [''Name'', ''Email''],
           sample_rows = [[''Ann'', '' ann@x.org''], [''Bob'', ''bob-at-x'']],
           preview_total_rows = 2\<rparr>), example_store)"
    using v p by (simp add: preview_handler_def preview_of_rows_eq)
  ultimately show ?thesis using example_upload by simp
qed

text \<open>
  Claim C10 as stated fails for the preview handler: a file that holds a line break and
  nothing else, which the upload route refuses with 400 as empty, gets 200 and an empty
  preview from the preview handler.
\<close>

theorem preview_empty_file_counterexample:
  "preview_handler plain_csv
     \<lparr>pv_method = ''POST'', pv_authorization = Some ''Bearer tok1'',
      pv_form = PreviewFile (Some [CHR 0x0A])\<rparr>
     example_store
   = (Response 200 (Preview \<lparr>preview_headers = [], sample_rows = [], preview_total_rows = 0\<rparr>),
      example_store) \<and>
   fst (upload_POST example_upload_env (example_upload_request [CHR 0x0A]) example_store)
   = Response 400 (Error ''CSV file is empty'')"
  by (simp add: preview_handler_def verify_authentication_def example_store_def startsWith_def
        at_index_def plain_csv_def csv_lines_def nonblank_lines_def trim_def js_space_def
        preview_of_rows_def preview_on_data_def
        initial_preview_state_def upload_POST_def example_upload_request_def profile_org_id_def
        endsWith_def Let_def)

section \<open>Lemmas: the CSV process handler\<close>

lemma on_data_totalRows: "totalRows (on_data cm pd st r) = totalRows st + 1"
  by (simp add: on_data_def Let_def push_error_def split: prod.splits option.splits sum.splits)

lemma foldl_on_data_totalRows:
  "totalRows (foldl (on_data cm pd) st rows) = totalRows st + length rows"
  by (induction rows arbitrary: st) (simp_all add: on_data_totalRows)

lemma read_rows_totalRows: "totalRows (read_rows cm pd rows) = length rows"
  by (simp add: read_rows_def foldl_on_data_totalRows initial_parse_state_def)

lemma insert_batches_result:
  "insert_batches ie org custs i (errs, cnt, tbl) = (errs', cnt', tbl') \<Longrightarrow>
     cnt \<le> cnt' \<and> length tbl' = length tbl + (cnt' - cnt) \<and> (\<exists>more. errs' = errs @ more)"
proof (induction "length custs - i" arbitrary: i errs cnt tbl rule: less_induct)
  case less
  show ?case
  proof (cases "i < length custs")
    case False
    with less.prems show ?thesis by simp
  next
    case True
    define batch where "batch = take batchSize (drop i custs)"
    define toInsert where "toInsert = map (AList.update ''org_id'' org) batch"
    have m: "length custs - (i + batchSize) < length custs - i"
      using True by (simp add: batchSize_def)
    show ?thesis
    proof (cases "ie tbl toInsert")
      case (Some message)
      with True less.prems have
        "insert_batches ie org custs (i + batchSize)
           (errs @ [\<lparr>row = i + 1, error = ''Database error: '' @ message\<rparr>], cnt, tbl)
         = (errs', cnt', tbl')"
        by (simp add: batch_def toInsert_def Let_def)
      from less.hyps[OF m this] show ?thesis by auto
    next
      case None
      with True less.prems have
        "insert_batches ie org custs (i + batchSize) (errs, cnt + length batch, tbl @ toInsert)
         = (errs', cnt', tbl')"
        by (simp add: batch_def toInsert_def Let_def)
      from less.hyps[OF m this] show ?thesis by (auto simp: toInsert_def)
    qed
  qed
qed

lemma update_jobs_ids:
  "(\<And>j. job_id (f j) = job_id j) \<Longrightarrow> map job_id (update_jobs ident f jobs) = map job_id jobs"
  by (induction jobs) (simp_all add: update_jobs_def)

lemma filter_update_jobs:
  "(\<And>j. job_id (f j) = job_id j) \<Longrightarrow>
     filter (\<lambda>j. job_id j = ident) (update_jobs ident f jobs)
       = map f (filter (\<lambda>j. job_id j = ident) jobs)"
  by (induction jobs) (simp_all add: update_jobs_def)

lemma filter_distinct_key:
  "distinct (map job_id jobs) \<Longrightarrow> job \<in> set jobs \<Longrightarrow>
     filter (\<lambda>j. job_id j = job_id job) jobs = [job]"
proof (induction jobs)
  case Nil
  then show ?case by simp
next
  case (Cons a jobs)
  show ?case
  proof (cases "a = job")
    case True
    with Cons.prems have "job_id job \<notin> set (map job_id jobs)" by simp
    then have "\<forall>x \<in> set jobs. job_id x \<noteq> job_id job"
      by (metis image_eqI list.set_map)
    then have "filter (\<lambda>j. job_id j = job_id job) jobs = []"
      by (simp add: filter_empty_conv)
    with True show ?thesis by simp
  next
    case False
    with Cons.prems have "job \<in> set jobs" "job_id a \<noteq> job_id job" by auto
    with Cons show ?thesis by simp
  qed
qed

lemma on_end_result:
  assumes ib: "insert_batches ie org (customers ps) 0 (errors ps, 0, customers_table st)
                 = (errs, cnt, tbl)"
    and f0: "filter (\<lambda>j. job_id j = ident) (upload_jobs st) = [j0]"
  shows "on_end ie ident org job ps st =
       (Response 200 (Job (Some (j0\<lparr>job_status := final_status errs cnt,
                                     job_total_rows := int (totalRows ps) - 1,
                                     job_processed_rows := int cnt,
                                     job_errors := (if length errs > 0 then Some errs else None)\<rparr>))),
        st\<lparr>upload_jobs :=
             update_jobs ident
               (\<lambda>j. j\<lparr>job_status := final_status errs cnt,
                       job_total_rows := int (totalRows ps) - 1,
                       job_processed_rows := int cnt,
                       job_errors := (if length errs > 0 then Some errs else None)\<rparr>)
               (upload_jobs st),
           customers_table := tbl,
           files := (files st)(job_file_path job := None)\<rparr>)"
proof -
  define upd :: "upload_job \<Rightarrow> upload_job" where "upd = (\<lambda>j. j\<lparr>job_status := final_status errs cnt,
                       job_total_rows := int (totalRows ps) - 1,
                       job_processed_rows := int cnt,
                       job_errors := (if length errs > 0 then Some errs else None)\<rparr>)"
  have f: "filter (\<lambda>j. job_id j = ident) (update_jobs ident upd (upload_jobs st)) = [upd j0]"
    by (subst filter_update_jobs) (simp_all add: f0 upd_def)
  have "on_end ie ident org job ps st =
          (Response 200 (Job (single (filter (\<lambda>j. job_id j = ident)
                                         (update_jobs ident upd (upload_jobs st))))),
           st\<lparr>upload_jobs := update_jobs ident upd (upload_jobs st),
              customers_table := tbl,
              files := (files st)(job_file_path job := None)\<rparr>)"
    unfolding on_end_def ib prod.case Let_def upd_def ..
  then show ?thesis
    unfolding f single_def list.case unfolding upd_def .
qed

lemma process_handler_pending:
  assumes "req_method req = ''POST''" and "query_id req = Single ident" and "ident \<noteq> []"
    and "verify_authentication st (authorization req) = Inr user"
    and "profile_org_id st user = Some org"
    and "distinct (map job_id (upload_jobs st))" and "job \<in> set (upload_jobs st)"
    and "job_id job = ident" and "job_org_id job = org" and "job_status job = ''pending''"
  shows "process_handler env req st = process_job env req ident org job st"
proof -
  have "filter (\<lambda>j. job_id j = ident) (upload_jobs st) = [job]"
    using filter_distinct_key[OF assms(6,7)] assms(8) by simp
  then have "filter (\<lambda>j. job_org_id j = org) (filter (\<lambda>j. job_id j = ident) (upload_jobs st)) = [job]"
    using assms(9) by simp
  then have "filter (\<lambda>j. job_id j = ident \<and> job_org_id j = org) (upload_jobs st) = [job]"
    by (simp add: conj_commute)
  then show ?thesis
    using assms by (simp add: process_handler_def single_def)
qed

text \<open>
  \<^verbatim>\<open>hasRequiredData\<close> is set only together with a non-empty \<^verbatim>\<open>customerData.name\<close>,
  so the test of line 149 is decided by \<^verbatim>\<open>hasRequiredData\<close> alone.
\<close>

lemma map_columns_name:
  "map_columns cm r idx hs (cd, has) = Inr (cd', has') \<Longrightarrow>
   (has \<longrightarrow> truthy (map_of cd ''name'')) \<Longrightarrow>
   (has' \<longrightarrow> truthy (map_of cd' ''name''))"
proof (induction hs arbitrary: idx cd has)
  case Nil
  then show ?case by auto
next
  case (Cons h hs)
  from Cons.prems(1) obtain mf where r: "cm h = Reads mf"
    by (cases "cm h") auto
  show ?case
  proof (cases "js_truthy mf \<and> mf \<noteq> JString ''ignore'' \<and> truthy (at_index r idx) \<and> trim (r ! idx) \<noteq> []")
    case True
    with Cons.prems(1) r have
      "map_columns cm r (Suc idx) hs
         (set_property (property_key mf) (trim (r ! idx)) cd, has \<or> mf = JString ''name'')
       = Inr (cd', has')"
      by (simp add: Let_def)
    moreover have "(has \<or> mf = JString ''name'') \<longrightarrow>
        truthy (map_of (set_property (property_key mf) (trim (r ! idx)) cd) ''name'')"
      using Cons.prems(2) True
      by (auto simp: set_property_def property_key_def update_conv' truthy_def)
    ultimately show ?thesis by (rule Cons.IH)
  next
    case False
    with Cons.prems(1) r have "map_columns cm r (Suc idx) hs (cd, has) = Inr (cd', has')"
      by (auto simp: Let_def split: if_splits)
    then show ?thesis using Cons.prems(2) by (rule Cons.IH)
  qed
qed

lemma map_columns_has:
  "map_columns cm r 0 hs ([], False) = Inr (cd, has) \<Longrightarrow> has \<Longrightarrow> truthy (map_of cd ''name'')"
  using map_columns_name[of cm r 0 hs "[]" False cd has] by simp

text \<open>One data row, read in a state that has passed the header.\<close>

lemma on_data_throws:
  assumes "\<not> isFirstRow st" and "map_columns cm r 0 (headers st) ([], False) = Inl e"
  shows "on_data cm pd st r =
           st\<lparr>totalRows := totalRows st + 1,
              errors := errors st @ [\<lparr>row = totalRows st + 1, error = ''Processing error: '' @ e\<rparr>]\<rparr>"
  using assms by (simp add: on_data_def Let_def push_error_def)

lemma on_data_row:
  assumes "\<not> isFirstRow st" and "map_columns cm r 0 (headers st) ([], False) = Inr (cd, has)"
  shows "on_data cm pd st r =
     (if \<not> has
      then st\<lparr>totalRows := totalRows st + 1,
              errors := errors st @ [\<lparr>row = totalRows st + 1, error = ''Name is required''\<rparr>]\<rparr>
      else if email_invalid cd
      then st\<lparr>totalRows := totalRows st + 1,
              errors := errors st @ [\<lparr>row = totalRows st + 1, error = ''Invalid email format''\<rparr>]\<rparr>
      else if truthy (map_of cd ''service_date'')
      then (case pd (the (map_of cd ''service_date'')) of
              None \<Rightarrow> st\<lparr>totalRows := totalRows st + 1,
                         errors := errors st @
                           [\<lparr>row = totalRows st + 1, error = ''Invalid service date format''\<rparr>]\<rparr>
            | Some d \<Rightarrow> st\<lparr>totalRows := totalRows st + 1,
                           customers := customers st @ [AList.update ''service_date'' d cd],
                           processedRows := processedRows st + 1\<rparr>)
      else st\<lparr>totalRows := totalRows st + 1,
              customers := customers st @ [cd],
              processedRows := processedRows st + 1\<rparr>)"
  using assms map_columns_has[OF assms(2)]
  by (simp add: on_data_def Let_def push_error_def split: option.splits)

lemma on_data_keeps:
  assumes "\<not> isFirstRow st"
  shows "\<not> isFirstRow (on_data cm pd st r)" and "headers (on_data cm pd st r) = headers st"
    and "\<exists>cs. customers (on_data cm pd st r) = customers st @ cs"
    and "\<exists>es. errors (on_data cm pd st r) = errors st @ es"
proof -
  have "\<not> isFirstRow (on_data cm pd st r) \<and> headers (on_data cm pd st r) = headers st \<and>
    (\<exists>cs. customers (on_data cm pd st r) = customers st @ cs) \<and>
    (\<exists>es. errors (on_data cm pd st r) = errors st @ es)"
  proof (cases "map_columns cm r 0 (headers st) ([], False)")
    case (Inl e)
    show ?thesis
      using assms unfolding on_data_throws[OF assms Inl, of pd] by simp
  next
    case (Inr res)
    then obtain cd has where m: "map_columns cm r 0 (headers st) ([], False) = Inr (cd, has)"
      by (cases res) auto
    show ?thesis
      using assms unfolding on_data_row[OF assms m, of pd] by (auto split: option.splits)
  qed
  then show "\<not> isFirstRow (on_data cm pd st r)" "headers (on_data cm pd st r) = headers st"
    "\<exists>cs. customers (on_data cm pd st r) = customers st @ cs"
    "\<exists>es. errors (on_data cm pd st r) = errors st @ es"
    by blast+
qed

lemma foldl_on_data_keeps:
  assumes "\<not> isFirstRow st"
  shows "\<not> isFirstRow (foldl (on_data cm pd) st rows) \<and>
         headers (foldl (on_data cm pd) st rows) = headers st \<and>
         (\<exists>cs. customers (foldl (on_data cm pd) st rows) = customers st @ cs) \<and>
         (\<exists>es. errors (foldl (on_data cm pd) st rows) = errors st @ es)"
  using assms
proof (induction rows arbitrary: st)
  case Nil
  then show ?case by simp
next
  case (Cons r rows)
  note k = on_data_keeps[OF Cons.prems, of cm pd r]
  from Cons.IH[OF k(1)] k(2,3,4) show ?case by auto
qed

text \<open>The customers a run collects do not depend on what was collected or counted before.\<close>

lemma on_data_customers_local:
  assumes "\<not> isFirstRow st" and "\<not> isFirstRow st'" and "headers st = headers st'"
  shows "\<exists>cs. customers (on_data cm pd st r) = customers st @ cs \<and>
              customers (on_data cm pd st' r) = customers st' @ cs"
proof (cases "map_columns cm r 0 (headers st) ([], False)")
  case (Inl e)
  with assms(3) have m': "map_columns cm r 0 (headers st') ([], False) = Inl e" by simp
  show ?thesis
    unfolding on_data_throws[OF assms(1) Inl, of pd] on_data_throws[OF assms(2) m', of pd]
    by simp
next
  case (Inr res)
  then obtain cd has where m: "map_columns cm r 0 (headers st) ([], False) = Inr (cd, has)"
    by (cases res) auto
  from m assms(3) have m': "map_columns cm r 0 (headers st') ([], False) = Inr (cd, has)" by simp
  show ?thesis
    unfolding on_data_row[OF assms(1) m, of pd] on_data_row[OF assms(2) m', of pd]
    by (auto split: option.splits)
qed

lemma foldl_on_data_customers_local:
  assumes "\<not> isFirstRow st" and "\<not> isFirstRow st'" and "headers st = headers st'"
  shows "\<exists>cs. customers (foldl (on_data cm pd) st rows) = customers st @ cs \<and>
              customers (foldl (on_data cm pd) st' rows) = customers st' @ cs"
  using assms
proof (induction rows arbitrary: st st')
  case Nil
  then show ?case by simp
next
  case (Cons r rows)
  from on_data_customers_local[OF Cons.prems, of cm pd r] obtain c1 where
    c1: "customers (on_data cm pd st r) = customers st @ c1"
        "customers (on_data cm pd st' r) = customers st' @ c1" by blast
  have h: "headers (on_data cm pd st r) = headers (on_data cm pd st' r)"
    using on_data_keeps(2)[OF Cons.prems(1)] on_data_keeps(2)[OF Cons.prems(2)] Cons.prems(3)
    by simp
  from Cons.IH[OF on_data_keeps(1)[OF Cons.prems(1)] on_data_keeps(1)[OF Cons.prems(2)] h]
  obtain c2 where
    "customers (foldl (on_data cm pd) (on_data cm pd st r) rows)
       = customers (on_data cm pd st r) @ c2"
    "customers (foldl (on_data cm pd) (on_data cm pd st' r) rows)
       = customers (on_data cm pd st' r) @ c2" by blast
  with c1 show ?case by auto
qed

lemma read_rows_header:
  "read_rows cm pd (hdr # data) =
     foldl (on_data cm pd)
       (initial_parse_state\<lparr>totalRows := Suc 0, headers := hdr, isFirstRow := False\<rparr>) data"
  by (simp add: read_rows_def on_data_def initial_parse_state_def)

lemma read_rows_append:
  "read_rows cm pd (hdr # xs @ ys) = foldl (on_data cm pd) (read_rows cm pd (hdr # xs)) ys"
  by (simp add: read_rows_def)

lemma read_rows_state:
  "\<not> isFirstRow (read_rows cm pd (hdr # data)) \<and> headers (read_rows cm pd (hdr # data)) = hdr \<and>
   totalRows (read_rows cm pd (hdr # data)) = Suc (length data)"
proof -
  have "\<not> isFirstRow (initial_parse_state\<lparr>totalRows := Suc 0, headers := hdr, isFirstRow := False\<rparr>)"
    by simp
  from foldl_on_data_keeps[OF this, of cm pd data]
  have "\<not> isFirstRow (read_rows cm pd (hdr # data)) \<and> headers (read_rows cm pd (hdr # data)) = hdr"
    unfolding read_rows_header by simp
  then show ?thesis by (simp add: read_rows_totalRows)
qed

lemma insert_batches_accepting:
  assumes "\<forall>tbl batch. ie tbl batch = None"
  shows "insert_batches ie org custs i (errs, cnt, tbl) =
           (errs, cnt + (length custs - i), tbl @ map (AList.update ''org_id'' org) (drop i custs))"
proof (induction "length custs - i" arbitrary: i cnt tbl rule: less_induct)
  case less
  show ?case
  proof (cases "i < length custs")
    case False
    then show ?thesis by simp
  next
    case True
    define batch where "batch = take batchSize (drop i custs)"
    have m: "length custs - (i + batchSize) < length custs - i"
      using True by (simp add: batchSize_def)
    have l: "length batch + (length custs - (i + batchSize)) = length custs - i"
      by (auto simp: batch_def min_def)
    have d: "batch @ drop (i + batchSize) custs = drop i custs"
      unfolding batch_def
      by (metis add.commute append_take_drop_id drop_drop)
    have "insert_batches ie org custs i (errs, cnt, tbl) =
            insert_batches ie org custs (i + batchSize)
              (errs, cnt + length batch, tbl @ map (AList.update ''org_id'' org) batch)"
      using True assms by (simp add: batch_def Let_def)
    also have "\<dots> = (errs, cnt + length batch + (length custs - (i + batchSize)),
                      (tbl @ map (AList.update ''org_id'' org) batch) @
                        map (AList.update ''org_id'' org) (drop (i + batchSize) custs))"
      by (rule less.hyps[OF m])
    also have "\<dots> = (errs, cnt + (length custs - i),
                      tbl @ map (AList.update ''org_id'' org) (drop i custs))"
      using l d by (metis (no_types, lifting) add.assoc append.assoc map_append)
    finally show ?thesis .
  qed
qed

lemma read_rows_step:
  assumes "i < length data"
  shows "read_rows cm pd (hdr # take (Suc i) data)
           = on_data cm pd (read_rows cm pd (hdr # take i data)) (data ! i)"
proof -
  have "hdr # take (Suc i) data = (hdr # take i data) @ [data ! i]"
    using assms by (simp add: take_Suc_conv_app_nth)
  then show ?thesis by (simp add: read_rows_def)
qed

lemma read_rows_rest:
  "read_rows cm pd (hdr # data)
     = foldl (on_data cm pd) (read_rows cm pd (hdr # take n data)) (drop n data)"
  using read_rows_append[of cm pd hdr "take n data" "drop n data"] by simp

lemma read_rows_grows:
  "\<exists>cs es. customers (read_rows cm pd (hdr # data))
             = customers (read_rows cm pd (hdr # take n data)) @ cs \<and>
           errors (read_rows cm pd (hdr # data))
             = errors (read_rows cm pd (hdr # take n data)) @ es"
  using foldl_on_data_keeps[of "read_rows cm pd (hdr # take n data)" cm pd "drop n data"]
    read_rows_state[of cm pd hdr "take n data"]
  unfolding read_rows_rest[of cm pd hdr data n, symmetric] by auto

lemma insert_batches_step:
  assumes "i < length custs"
  shows "insert_batches ie org custs i (errs, cnt, tbl) =
     (case ie tbl (map (AList.update ''org_id'' org) (take batchSize (drop i custs))) of
        Some message \<Rightarrow>
          insert_batches ie org custs (i + batchSize)
            (errs @ [\<lparr>row = i + 1, error = ''Database error: '' @ message\<rparr>], cnt, tbl)
      | None \<Rightarrow>
          insert_batches ie org custs (i + batchSize)
            (errs, cnt + length (take batchSize (drop i custs)),
             tbl @ map (AList.update ''org_id'' org) (take batchSize (drop i custs))))"
  using assms by (simp add: Let_def)

lemma insert_batches_done:
  "\<not> i < length custs \<Longrightarrow> insert_batches ie org custs i acc = acc"
  by (cases acc) simp

text \<open>The table only grows, and what is inserted does not depend on the errors and the count so far.\<close>

lemma insert_batches_table:
  "\<exists>more. snd (snd (insert_batches ie org custs i (errs, cnt, tbl))) = tbl @ more \<and>
          snd (snd (insert_batches ie org custs i (errs', cnt', tbl))) = tbl @ more"
proof (induction "length custs - i" arbitrary: i errs cnt errs' cnt' tbl rule: less_induct)
  case less
  show ?case
  proof (cases "i < length custs")
    case False
    then show ?thesis by simp
  next
    case True
    define toInsert where
      "toInsert = map (AList.update ''org_id'' org) (take batchSize (drop i custs))"
    have m: "length custs - (i + batchSize) < length custs - i"
      using True by (simp add: batchSize_def)
    show ?thesis
    proof (cases "ie tbl toInsert")
      case (Some message)
      from less.hyps[OF m, of "errs @ [\<lparr>row = i + 1, error = ''Database error: '' @ message\<rparr>]" cnt tbl
          "errs' @ [\<lparr>row = i + 1, error = ''Database error: '' @ message\<rparr>]" cnt']
      show ?thesis
        unfolding insert_batches_step[OF True] using Some
        by (simp add: toInsert_def del: insert_batches.simps)
    next
      case None
      from less.hyps[OF m, of errs "cnt + length (take batchSize (drop i custs))" "tbl @ toInsert"
          errs' "cnt' + length (take batchSize (drop i custs))"]
      obtain more where
        "snd (snd (insert_batches ie org custs (i + batchSize)
            (errs, cnt + length (take batchSize (drop i custs)), tbl @ toInsert)))
           = tbl @ (toInsert @ more)"
        "snd (snd (insert_batches ie org custs (i + batchSize)
            (errs', cnt' + length (take batchSize (drop i custs)), tbl @ toInsert)))
           = tbl @ (toInsert @ more)"
        by auto
      then show ?thesis
        unfolding insert_batches_step[OF True] using None
        unfolding toInsert_def[symmetric] by (intro exI[of _ "toInsert @ more"]) simp
    qed
  qed
qed

text \<open>The loop up to a batch boundary is the loop over the customers before that boundary.\<close>

lemma insert_batches_prefix:
  "i + n * batchSize \<le> length custs \<Longrightarrow>
     insert_batches ie org custs i acc =
       insert_batches ie org custs (i + n * batchSize)
         (insert_batches ie org (take (i + n * batchSize) custs) i acc)"
proof (induction n arbitrary: i acc)
  case 0
  then show ?case by (simp add: insert_batches_done)
next
  case (Suc n)
  obtain errs cnt tbl where acc: "acc = (errs, cnt, tbl)" by (cases acc) auto
  define k where "k = i + Suc n * batchSize"
  have k: "k \<le> length custs" "i + batchSize \<le> k" "k = (i + batchSize) + n * batchSize"
    using Suc.prems by (simp_all add: k_def)
  have i: "i < length custs" "i < length (take k custs)"
    using k by (simp_all add: batchSize_def)
  have b: "take batchSize (drop i (take k custs)) = take batchSize (drop i custs)"
    using k(2) by (simp add: drop_take min_def)
  have ih: "insert_batches ie org custs (i + batchSize) acc' =
       insert_batches ie org custs k (insert_batches ie org (take k custs) (i + batchSize) acc')"
    for acc'
    using Suc.IH[of "i + batchSize" acc'] k by (simp del: insert_batches.simps)
  show ?case
    unfolding k_def[symmetric] acc insert_batches_step[OF i(1)] insert_batches_step[OF i(2)] b
    by (simp add: ih del: insert_batches.simps split: option.splits)
qed

lemma insert_batches_batch_inserted:
  assumes p: "p < length custs"
    and ok: "ie (snd (snd (insert_batches ie org (take (p div batchSize * batchSize) custs) 0 acc)))
               (map (AList.update ''org_id'' org)
                  (take batchSize (drop (p div batchSize * batchSize) custs))) = None"
  shows "AList.update ''org_id'' org (custs ! p) \<in> set (snd (snd (insert_batches ie org custs 0 acc)))"
proof -
  define k where "k = p div batchSize * batchSize"
  have k: "k \<le> p" "p - k < batchSize" "k < length custs"
    using p by (simp_all add: k_def batchSize_def) 
  obtain errs cnt tbl where
    before: "insert_batches ie org (take k custs) 0 acc = (errs, cnt, tbl)"
    by (cases "insert_batches ie org (take k custs) 0 acc") auto
  define toInsert where
    "toInsert = map (AList.update ''org_id'' org) (take batchSize (drop k custs))"
  have ok': "ie tbl toInsert = None"
    using ok before by (simp add: k_def[symmetric] toInsert_def del: insert_batches.simps)
  have "insert_batches ie org custs 0 acc = insert_batches ie org custs k (errs, cnt, tbl)"
    using insert_batches_prefix[of 0 "p div batchSize" custs ie org acc] k(3) before
    by (simp add: k_def[symmetric] del: insert_batches.simps)
  also have "\<dots> = insert_batches ie org custs (k + batchSize)
                     (errs, cnt + length (take batchSize (drop k custs)), tbl @ toInsert)"
    unfolding insert_batches_step[OF k(3)] using ok'
    by (simp add: toInsert_def del: insert_batches.simps)
  finally have fin: "insert_batches ie org custs 0 acc =
      insert_batches ie org custs (k + batchSize)
        (errs, cnt + length (take batchSize (drop k custs)), tbl @ toInsert)" .
  from insert_batches_table[of ie org custs "k + batchSize" errs
        "cnt + length (take batchSize (drop k custs))" "tbl @ toInsert"]
  obtain more where
    "snd (snd (insert_batches ie org custs (k + batchSize)
        (errs, cnt + length (take batchSize (drop k custs)), tbl @ toInsert)))
      = (tbl @ toInsert) @ more" by blast
  then have "\<exists>more. snd (snd (insert_batches ie org custs 0 acc)) = (tbl @ toInsert) @ more"
    unfolding fin by blast
  moreover have "custs ! p \<in> set (take batchSize (drop k custs))"
  proof -
    have "(take batchSize (drop k custs)) ! (p - k) = custs ! p"
      using k p by simp
    moreover have "p - k < length (take batchSize (drop k custs))"
      using k p by simp
    ultimately show ?thesis by (metis nth_mem)
  qed
  ultimately show ?thesis by (auto simp: toInsert_def)
qed

text \<open>The answer and the store of a run that reaches the \<^verbatim>\<open>'end'\<close> listener.\<close>

lemma process_handler_run:
  assumes g: "req_method req = ''POST''" "query_id req = Single ident" "ident \<noteq> []"
    "verify_authentication st (authorization req) = Inr user"
    "profile_org_id st user = Some org"
    "distinct (map job_id (upload_jobs st))" "job \<in> set (upload_jobs st)"
    "job_id job = ident" "job_org_id job = org" "job_status job = ''pending''"
    and b: "form req = Fields (Some mapping)" "mapping \<noteq> []" "parse_json env mapping = Some cm"
    "files st (job_file_path job) = Some content" "csv_parser env content = (rows, None)"
    and ib: "insert_batches (insert_error env) org (customers (read_rows cm (parse_date env) rows)) 0
               (errors (read_rows cm (parse_date env) rows), 0, customers_table st) = (errs, cnt, tbl)"
  shows "\<exists>job' st'. process_handler env req st = (Response 200 (Job (Some job')), st') \<and>
           customers_table st' = tbl \<and>
           job_errors job' = (if errs = [] then None else Some errs)"
proof -
  define ps where "ps = read_rows cm (parse_date env) rows"
  define upd1 :: "upload_job \<Rightarrow> upload_job" where
    "upd1 = (\<lambda>j. j\<lparr>job_status := ''processing'', job_column_mapping := Some cm\<rparr>)"
  define st1 where "st1 = st\<lparr>upload_jobs := update_jobs ident upd1 (upload_jobs st)\<rparr>"
  have h: "process_handler env req st = process_job env req ident org job st"
    by (rule process_handler_pending[OF g])
  have pj: "process_job env req ident org job st = on_end (insert_error env) ident org job ps st1"
    using b by (simp add: process_job_def truthy_def Let_def ps_def st1_def upd1_def)
  have f0: "filter (\<lambda>j. job_id j = ident) (upload_jobs st) = [job]"
    using filter_distinct_key[OF g(6,7)] g(8) by simp
  have f1: "filter (\<lambda>j. job_id j = ident) (upload_jobs st1) = [upd1 job]"
    unfolding st1_def by (simp add: filter_update_jobs upd1_def f0)
  have ib1: "insert_batches (insert_error env) org (customers ps) 0 (errors ps, 0, customers_table st1)
           = (errs, cnt, tbl)"
    using ib by (simp add: ps_def st1_def del: insert_batches.simps)
  show ?thesis
    unfolding h pj on_end_result[OF ib1 f1] by simp
qed

subsection \<open>The example file\<close>

lemma example_plain_csv: "plain_csv example_csv = (example_rows, None)"
  by (simp add: plain_csv_def csv_lines_def example_csv_def example_rows_def Let_def)

lemma example_reads:
  "example_mapping ''Name'' = Reads (JString ''name'')"
  "example_mapping ''Email'' = Reads (JString ''email'')"
  by (simp_all add: example_mapping_def json_object_def)

lemma example_columns:
  "map_columns example_mapping [''Ann'', '' ann@x.org''] 0 [''Name'', ''Email''] ([], False)
     = Inr ([(''name'', ''Ann''), (''email'', ''ann@x.org'')], True)"
  "map_columns example_mapping [''Bob'', ''bob-at-x''] 0 [''Name'', ''Email''] ([], False)
     = Inr ([(''name'', ''Bob''), (''email'', ''bob-at-x'')], True)"
  "map_columns example_mapping ['''', ''bob-at-x''] 0 [''Name'', ''Email''] ([], False)
     = Inr ([(''email'', ''bob-at-x'')], False)"
  by (simp_all add: example_reads js_truthy_def property_key_def set_property_def truthy_def
        at_index_def trim_def js_space_def Let_def)

text \<open>
  A header that no member of the mapping names, but that names a member every object
  inherits, reads as that member: the cell is kept, under the key the member converts to.
\<close>

lemma example_inherited_column:
  "map_columns example_mapping [''Ann'', ''x''] 0 [''Name'', ''constructor''] ([], False)
     = Inr ([(''name'', ''Ann''), (''function Object() { [native code] }'', ''x'')], True)"
  by (simp add: example_reads example_mapping_def json_object_def object_prototype_def
        native_function_def js_truthy_def property_key_def set_property_def truthy_def
        at_index_def trim_def js_space_def Let_def)

text \<open>With the column mapping \<^verbatim>\<open>null\<close>, every data row of a file with a header is caught.\<close>

lemma example_null_mapping:
  "read_rows json_null example_date [[''Name''], [''Ann'']] =
     \<lparr>customers = [],
      errors = [\<lparr>row = 2,
                 error = ''Processing error: TypeError: Cannot read properties of null (reading ''
                           @ [CHR 0x27] @ ''Name'' @ [CHR 0x27] @ '')''\<rparr>],
      totalRows = 2, processedRows = 0, isFirstRow = False, headers = [''Name'']\<rparr>"
  by (simp add: read_rows_def initial_parse_state_def on_data_def Let_def json_null_def
        push_error_def)

lemma example_emails:
  "\<not> email_invalid [(''name'', ''Ann''), (''email'', ''ann@x.org'')]"
  "email_invalid [(''name'', ''Bob''), (''email'', ''bob-at-x'')]"
  "email_invalid [(''email'', ''bob-at-x'')]"
  by (simp_all add: email_invalid_def email_regex_def Plus_def not_space_at_def js_space_def)

lemma example_read_rows:
  "read_rows example_mapping example_date example_rows =
     \<lparr>customers = [[(''name'', ''Ann''), (''email'', ''ann@x.org'')]],
      errors = [\<lparr>row = 3, error = ''Invalid email format''\<rparr>],
      totalRows = 3, processedRows = 1, isFirstRow = False, headers = [''Name'', ''Email'']\<rparr>"
  by (simp add: read_rows_def example_rows_def initial_parse_state_def on_data_def Let_def
        example_columns example_emails truthy_def push_error_def del: map_columns.simps)

lemma example_pending_auth:
  "verify_authentication pending_store (authorization example_process_request) = Inr ''u1''"
  "profile_org_id pending_store ''u1'' = Some ''org1''"
  by (simp_all add: verify_authentication_def example_process_request_def pending_store_def
        uploaded_store_def startsWith_def at_index_def profile_org_id_def)

lemma example_process_run:
  "process_handler example_process_env example_process_request pending_store
     = (Response 200 (Job (Some processed_job)), processed_store)"
proof -
  have ib: "insert_batches accept_all ''org1'' [[(''name'', ''Ann''), (''email'', ''ann@x.org'')]] 0
       ([\<lparr>row = 3, error = ''Invalid email format''\<rparr>], 0, [])
     = ([\<lparr>row = 3, error = ''Invalid email format''\<rparr>], 1,
        [[(''name'', ''Ann''), (''email'', ''ann@x.org''), (''org_id'', ''org1'')]])"
    by (simp add: accept_all_def batchSize_def)
  show ?thesis
    by (simp add: process_handler_def example_process_request_def verify_authentication_def
          startsWith_def at_index_def profile_org_id_def pending_store_def uploaded_store_def
          uploaded_job_def single_def process_job_def truthy_def example_process_env_def
          update_jobs_def example_plain_csv example_read_rows on_end_def ib final_status_def
          processed_job_def processed_store_def Let_def
          del: insert_batches.simps)
qed

lemma example_first_two_rows:
  "first_two_rows example_csv = ([[''Name'', ''Email''], [''Ann'', '' ann@x.org'']], None)"
  by (simp add: first_two_rows_def example_plain_csv example_rows_def)

lemma example_read_two_rows:
  "read_rows example_mapping example_date [[''Name'', ''Email''], [''Ann'', '' ann@x.org'']] =
     \<lparr>customers = [[(''name'', ''Ann''), (''email'', ''ann@x.org'')]],
      errors = [],
      totalRows = 2, processedRows = 1, isFirstRow = False, headers = [''Name'', ''Email'']\<rparr>"
  by (simp add: read_rows_def initial_parse_state_def on_data_def Let_def
        example_columns example_emails truthy_def push_error_def del: map_columns.simps)

lemma example_process_run_two_rows:
  "customers_table (snd (process_handler (example_process_env\<lparr>csv_parser := first_two_rows\<rparr>)
       example_process_request pending_store))
     = [[(''name'', ''Ann''), (''email'', ''ann@x.org''), (''org_id'', ''org1'')]]"
proof -
  have ib: "insert_batches accept_all ''org1'' [[(''name'', ''Ann''), (''email'', ''ann@x.org'')]] 0
       ([], 0, [])
     = ([], 1, [[(''name'', ''Ann''), (''email'', ''ann@x.org''), (''org_id'', ''org1'')]])"
    by (simp add: accept_all_def batchSize_def)
  show ?thesis
    by (simp add: process_handler_def example_process_request_def verify_authentication_def
          startsWith_def at_index_def profile_org_id_def pending_store_def uploaded_store_def
          uploaded_job_def single_def process_job_def truthy_def example_process_env_def
          update_jobs_def example_first_two_rows example_read_two_rows on_end_def ib
          final_status_def Let_def
          del: insert_batches.simps)
qed

section \<open>Theorems: rows with a malformed email\<close>

text \<open>
  Claim C2, as amended.  A \<^verbatim>\<open>POST\<close> by an authenticated user for a pending job of the
  user's organisation, with a column mapping that parses and a file the CSV parser reads
  to the end (the header \<open>hdr\<close>, then the data rows \<open>data\<close>), is answered 200 with the
  updated job, and:

  \<^item> for a data row (the \<open>i\<close>-th after the header) that has a value in a column mapped
    to \<^verbatim>\<open>name\<close> and whose \<^verbatim>\<open>email\<close> is not empty and does not match the pattern,
    the job's \<^verbatim>\<open>errors\<close> hold an entry with the row number \<open>i + 2\<close> (rows are counted
    from 1, the header being row 1) and \<^verbatim>\<open>Invalid email format\<close>, and the
    \<^verbatim>\<open>customers\<close> table ends as it ends when the parser does not emit that row;

  \<^item> the customer at position \<open>p\<close> among those collected from the rows is in the
    \<^verbatim>\<open>customers\<close> table at the end, with the organisation's id, when the database
    accepts the batch that holds it (the customers from position
    \<open>p div 100 * 100\<close> on, a hundred at most, inserted into the table as the batches
    before have left it), whatever it does with the other batches.

  Reading the rows, whatever the handler's request: such a row with a malformed email
  adds exactly that entry to the errors and adds no customer, and the customers collected
  are those of the file without the row; a row that has a name, an acceptable or absent
  email and an acceptable or absent service date is among the customers collected; a row
  without a value in a column mapped to \<^verbatim>\<open>name\<close> adds the entry \<^verbatim>\<open>Name is required\<close>
  instead, whatever its email, and no customer.
\<close>

theorem invalid_email_row:
  "(req_method req = ''POST'' \<and> query_id req = Single ident \<and> ident \<noteq> [] \<and>
    verify_authentication st (authorization req) = Inr user \<and>
    profile_org_id st user = Some org \<and>
    distinct (map job_id (upload_jobs st)) \<and> job \<in> set (upload_jobs st) \<and>
    job_id job = ident \<and> job_org_id job = org \<and> job_status job = ''pending'' \<and>
    form req = Fields (Some mapping) \<and> mapping \<noteq> [] \<and> parse_json env mapping = Some cm \<and>
    files st (job_file_path job) = Some content \<and> csv_parser env content = (hdr # data, None)
    \<longrightarrow>
    (\<exists>job' st'.
       process_handler env req st = (Response 200 (Job (Some job')), st') \<and>
       (i < length data \<and> map_columns cm (data ! i) 0 hdr ([], False) = Inr (cd, True) \<and>
        email_invalid cd \<longrightarrow>
          (\<exists>errs. job_errors job' = Some errs \<and>
                  \<lparr>row = i + 2, error = ''Invalid email format''\<rparr> \<in> set errs) \<and>
          (\<forall>env'. parse_json env' = parse_json env \<and> parse_date env' = parse_date env \<and>
                  insert_error env' = insert_error env \<and>
                  csv_parser env' content = (hdr # take i data @ drop (Suc i) data, None) \<longrightarrow>
               customers_table (snd (process_handler env' req st)) = customers_table st')) \<and>
       (let ps = read_rows cm (parse_date env) (hdr # data);
            start = p div batchSize * batchSize;
            before = insert_batches (insert_error env) org (take start (customers ps)) 0
                       (errors ps, 0, customers_table st)
        in p < length (customers ps) \<and>
           insert_error env (snd (snd before))
             (map (AList.update ''org_id'' org) (take batchSize (drop start (customers ps)))) = None
           \<longrightarrow> AList.update ''org_id'' org (customers ps ! p) \<in> set (customers_table st')))) \<and>
   (i < length data \<and> map_columns cm (data ! i) 0 hdr ([], False) = Inr (cd, True) \<and>
    email_invalid cd \<longrightarrow>
      errors (read_rows cm pd (hdr # take (Suc i) data))
        = errors (read_rows cm pd (hdr # take i data)) @
            [\<lparr>row = i + 2, error = ''Invalid email format''\<rparr>] \<and>
      customers (read_rows cm pd (hdr # take (Suc i) data))
        = customers (read_rows cm pd (hdr # take i data)) \<and>
      \<lparr>row = i + 2, error = ''Invalid email format''\<rparr> \<in> set (errors (read_rows cm pd (hdr # data))) \<and>
      customers (read_rows cm pd (hdr # data))
        = customers (read_rows cm pd (hdr # take i data @ drop (Suc i) data))) \<and>
   (j < length data \<and> map_columns cm (data ! j) 0 hdr ([], False) = Inr (cd', True) \<and>
    \<not> email_invalid cd' \<and>
    (if truthy (map_of cd' ''service_date'')
     then pd (the (map_of cd' ''service_date'')) = Some d \<and> c = AList.update ''service_date'' d cd'
     else c = cd') \<longrightarrow>
      c \<in> set (customers (read_rows cm pd (hdr # data)))) \<and>
   (k < length data \<and> map_columns cm (data ! k) 0 hdr ([], False) = Inr (cd0, False) \<longrightarrow>
      errors (read_rows cm pd (hdr # take (Suc k) data))
        = errors (read_rows cm pd (hdr # take k data)) @
            [\<lparr>row = k + 2, error = ''Name is required''\<rparr>] \<and>
      customers (read_rows cm pd (hdr # take (Suc k) data))
        = customers (read_rows cm pd (hdr # take k data)))"
proof -
  have R1: "errors (read_rows cm pd (hdr # take (Suc i) data))
        = errors (read_rows cm pd (hdr # take i data)) @
            [\<lparr>row = i + 2, error = ''Invalid email format''\<rparr>] \<and>
      customers (read_rows cm pd (hdr # take (Suc i) data))
        = customers (read_rows cm pd (hdr # take i data)) \<and>
      \<lparr>row = i + 2, error = ''Invalid email format''\<rparr> \<in> set (errors (read_rows cm pd (hdr # data))) \<and>
      customers (read_rows cm pd (hdr # data))
        = customers (read_rows cm pd (hdr # take i data @ drop (Suc i) data))"
    if a: "i < length data \<and> map_columns cm (data ! i) 0 hdr ([], False) = Inr (cd, True) \<and>
           email_invalid cd" for pd
  proof -
    define st1 where "st1 = read_rows cm pd (hdr # take i data)"
    define st2 where "st2 = read_rows cm pd (hdr # take (Suc i) data)"
    have s1: "\<not> isFirstRow st1" "headers st1 = hdr" "totalRows st1 = Suc i"
      using read_rows_state[of cm pd hdr "take i data"] a by (simp_all add: st1_def)
    have s2: "\<not> isFirstRow st2" "headers st2 = hdr"
      using read_rows_state[of cm pd hdr "take (Suc i) data"] by (simp_all add: st2_def)
    have step: "st2 = on_data cm pd st1 (data ! i)"
      unfolding st1_def st2_def using a by (intro read_rows_step) simp
    have m: "map_columns cm (data ! i) 0 (headers st1) ([], False) = Inr (cd, True)"
      using a s1 by simp
    have st2_eq: "st2 = st1\<lparr>totalRows := totalRows st1 + 1,
                           errors := errors st1 @ [\<lparr>row = totalRows st1 + 1, error = ''Invalid email format''\<rparr>]\<rparr>"
      unfolding step on_data_row[OF s1(1) m, of pd] using a by simp
    have e: "errors (read_rows cm pd (hdr # take (Suc i) data))
          = errors (read_rows cm pd (hdr # take i data)) @
              [\<lparr>row = i + 2, error = ''Invalid email format''\<rparr>]"
      using st2_eq s1(3) by (simp add: st1_def[symmetric] st2_def[symmetric])
    have c: "customers (read_rows cm pd (hdr # take (Suc i) data))
          = customers (read_rows cm pd (hdr # take i data))"
      using st2_eq by (simp add: st1_def[symmetric] st2_def[symmetric])
    from read_rows_grows[of cm pd hdr data "Suc i"] e
    have f: "\<lparr>row = i + 2, error = ''Invalid email format''\<rparr> \<in> set (errors (read_rows cm pd (hdr # data)))"
      by auto
    have full: "read_rows cm pd (hdr # data) = foldl (on_data cm pd) st2 (drop (Suc i) data)"
      unfolding st2_def by (rule read_rows_rest)
    have without: "read_rows cm pd (hdr # take i data @ drop (Suc i) data)
                     = foldl (on_data cm pd) st1 (drop (Suc i) data)"
      unfolding st1_def by (rule read_rows_append)
    from foldl_on_data_customers_local[OF s2(1) s1(1), of cm pd "drop (Suc i) data"] s1(2) s2(2)
    obtain cs where "customers (foldl (on_data cm pd) st2 (drop (Suc i) data)) = customers st2 @ cs"
      "customers (foldl (on_data cm pd) st1 (drop (Suc i) data)) = customers st1 @ cs" by auto
    with c have "customers (read_rows cm pd (hdr # data))
          = customers (read_rows cm pd (hdr # take i data @ drop (Suc i) data))"
      unfolding full without by (simp add: st1_def[symmetric] st2_def[symmetric])
    with e c f show ?thesis by blast
  qed
  have H: "\<exists>job' st'.
       process_handler env req st = (Response 200 (Job (Some job')), st') \<and>
       (i < length data \<and> map_columns cm (data ! i) 0 hdr ([], False) = Inr (cd, True) \<and>
        email_invalid cd \<longrightarrow>
          (\<exists>errs. job_errors job' = Some errs \<and>
                  \<lparr>row = i + 2, error = ''Invalid email format''\<rparr> \<in> set errs) \<and>
          (\<forall>env'. parse_json env' = parse_json env \<and> parse_date env' = parse_date env \<and>
                  insert_error env' = insert_error env \<and>
                  csv_parser env' content = (hdr # take i data @ drop (Suc i) data, None) \<longrightarrow>
               customers_table (snd (process_handler env' req st)) = customers_table st')) \<and>
       (let ps = read_rows cm (parse_date env) (hdr # data);
            start = p div batchSize * batchSize;
            before = insert_batches (insert_error env) org (take start (customers ps)) 0
                       (errors ps, 0, customers_table st)
        in p < length (customers ps) \<and>
           insert_error env (snd (snd before))
             (map (AList.update ''org_id'' org) (take batchSize (drop start (customers ps)))) = None
           \<longrightarrow> AList.update ''org_id'' org (customers ps ! p) \<in> set (customers_table st'))"
    if a: "req_method req = ''POST'' \<and> query_id req = Single ident \<and> ident \<noteq> [] \<and>
    verify_authentication st (authorization req) = Inr user \<and>
    profile_org_id st user = Some org \<and>
    distinct (map job_id (upload_jobs st)) \<and> job \<in> set (upload_jobs st) \<and>
    job_id job = ident \<and> job_org_id job = org \<and> job_status job = ''pending'' \<and>
    form req = Fields (Some mapping) \<and> mapping \<noteq> [] \<and> parse_json env mapping = Some cm \<and>
    files st (job_file_path job) = Some content \<and> csv_parser env content = (hdr # data, None)"
  proof -
    from a have g: "req_method req = ''POST''" "query_id req = Single ident" "ident \<noteq> []"
      "verify_authentication st (authorization req) = Inr user"
      "profile_org_id st user = Some org"
      "distinct (map job_id (upload_jobs st))" "job \<in> set (upload_jobs st)"
      "job_id job = ident" "job_org_id job = org" "job_status job = ''pending''"
      and b: "form req = Fields (Some mapping)" "mapping \<noteq> []" "parse_json env mapping = Some cm"
      "files st (job_file_path job) = Some content"
      and cp: "csv_parser env content = (hdr # data, None)"
      by blast+
    define ps where "ps = read_rows cm (parse_date env) (hdr # data)"
    obtain errs cnt tbl where
      ib: "insert_batches (insert_error env) org (customers ps) 0 (errors ps, 0, customers_table st)
             = (errs, cnt, tbl)"
      by (cases "insert_batches (insert_error env) org (customers ps) 0
                   (errors ps, 0, customers_table st)") auto
    from process_handler_run[OF g b cp ib[unfolded ps_def]] obtain job' st' where
      run: "process_handler env req st = (Response 200 (Job (Some job')), st')"
      and tbl: "customers_table st' = tbl"
      and je: "job_errors job' = (if errs = [] then None else Some errs)"
      by blast
    from insert_batches_result[OF ib] obtain more where more: "errs = errors ps @ more"
      by auto
    have A: "(\<exists>errs. job_errors job' = Some errs \<and>
                  \<lparr>row = i + 2, error = ''Invalid email format''\<rparr> \<in> set errs) \<and>
          (\<forall>env'. parse_json env' = parse_json env \<and> parse_date env' = parse_date env \<and>
                  insert_error env' = insert_error env \<and>
                  csv_parser env' content = (hdr # take i data @ drop (Suc i) data, None) \<longrightarrow>
               customers_table (snd (process_handler env' req st)) = customers_table st')"
      if bad: "i < length data \<and> map_columns cm (data ! i) 0 hdr ([], False) = Inr (cd, True) \<and>
        email_invalid cd"
    proof (intro conjI allI impI)
      from R1[OF bad, of "parse_date env"]
      have "\<lparr>row = i + 2, error = ''Invalid email format''\<rparr> \<in> set (errors ps)"
        by (simp add: ps_def)
      then have "\<lparr>row = i + 2, error = ''Invalid email format''\<rparr> \<in> set errs"
        by (simp add: more)
      then show "\<exists>errs. job_errors job' = Some errs \<and>
                  \<lparr>row = i + 2, error = ''Invalid email format''\<rparr> \<in> set errs"
        using je by (auto split: if_splits)
    next
      fix env' :: process_env
      assume e: "parse_json env' = parse_json env \<and> parse_date env' = parse_date env \<and>
                  insert_error env' = insert_error env \<and>
                  csv_parser env' content = (hdr # take i data @ drop (Suc i) data, None)"
      define ps' where "ps' = read_rows cm (parse_date env) (hdr # take i data @ drop (Suc i) data)"
      have cs: "customers ps' = customers ps"
        using R1[OF bad, of "parse_date env"] by (simp add: ps_def ps'_def)
      obtain errs' cnt' tbl' where
        ib': "insert_batches (insert_error env) org (customers ps') 0
                (errors ps', 0, customers_table st) = (errs', cnt', tbl')"
        by (cases "insert_batches (insert_error env) org (customers ps') 0
                     (errors ps', 0, customers_table st)") auto
      have b': "form req = Fields (Some mapping)" "mapping \<noteq> []" "parse_json env' mapping = Some cm"
        "files st (job_file_path job) = Some content"
        "csv_parser env' content = (hdr # take i data @ drop (Suc i) data, None)"
        using b e by simp_all
      have ib'': "insert_batches (insert_error env') org
                    (customers (read_rows cm (parse_date env') (hdr # take i data @ drop (Suc i) data))) 0
                    (errors (read_rows cm (parse_date env') (hdr # take i data @ drop (Suc i) data)), 0,
                     customers_table st) = (errs', cnt', tbl')"
        using ib' e by (simp add: ps'_def del: insert_batches.simps)
      from process_handler_run[OF g b' ib''] obtain job'' st'' where
        "process_handler env' req st = (Response 200 (Job (Some job'')), st'')"
        "customers_table st'' = tbl'" by blast
      moreover have "tbl' = tbl"
        using insert_batches_table[of "insert_error env" org "customers ps" 0 "errors ps" 0
            "customers_table st" "errors ps'" 0] ib ib'
        by (auto simp add: cs simp del: insert_batches.simps)
      ultimately show "customers_table (snd (process_handler env' req st)) = customers_table st'"
        by (simp add: tbl)
    qed
    have B: "AList.update ''org_id'' org (customers ps ! p) \<in> set (customers_table st')"
      if "p < length (customers ps)"
        "insert_error env
           (snd (snd (insert_batches (insert_error env) org
                        (take (p div batchSize * batchSize) (customers ps)) 0
                        (errors ps, 0, customers_table st))))
           (map (AList.update ''org_id'' org)
              (take batchSize (drop (p div batchSize * batchSize) (customers ps)))) = None"
      using insert_batches_batch_inserted
              [of p "customers ps" "insert_error env" org "(errors ps, 0, customers_table st)"]
            that ib tbl
      by (simp del: insert_batches.simps)
    show ?thesis
      apply (rule exI[of _ job'])
      apply (rule exI[of _ st'])
      using run A B unfolding Let_def ps_def by blast
  qed
  have R2: "c \<in> set (customers (read_rows cm pd (hdr # data)))"
    if a: "j < length data \<and> map_columns cm (data ! j) 0 hdr ([], False) = Inr (cd', True) \<and>
    \<not> email_invalid cd' \<and>
    (if truthy (map_of cd' ''service_date'')
     then pd (the (map_of cd' ''service_date'')) = Some d \<and> c = AList.update ''service_date'' d cd'
     else c = cd')"
  proof -
    define st1 where "st1 = read_rows cm pd (hdr # take j data)"
    have s1: "\<not> isFirstRow st1" "headers st1 = hdr"
      using read_rows_state[of cm pd hdr "take j data"] by (simp_all add: st1_def)
    have m: "map_columns cm (data ! j) 0 (headers st1) ([], False) = Inr (cd', True)"
      using a s1 by simp
    have "read_rows cm pd (hdr # take (Suc j) data) = on_data cm pd st1 (data ! j)"
      unfolding st1_def using a by (intro read_rows_step) simp
    then have "customers (read_rows cm pd (hdr # take (Suc j) data)) = customers st1 @ [c]"
      unfolding on_data_row[OF s1(1) m, of pd] using a by (auto split: if_splits)
    with read_rows_grows[of cm pd hdr data "Suc j"]
    show "c \<in> set (customers (read_rows cm pd (hdr # data)))" by auto
  qed
  have R3: "errors (read_rows cm pd (hdr # take (Suc k) data))
        = errors (read_rows cm pd (hdr # take k data)) @
            [\<lparr>row = k + 2, error = ''Name is required''\<rparr>] \<and>
      customers (read_rows cm pd (hdr # take (Suc k) data))
        = customers (read_rows cm pd (hdr # take k data))"
    if a: "k < length data \<and> map_columns cm (data ! k) 0 hdr ([], False) = Inr (cd0, False)"
  proof -
    define st1 where "st1 = read_rows cm pd (hdr # take k data)"
    define st2 where "st2 = read_rows cm pd (hdr # take (Suc k) data)"
    have s1: "\<not> isFirstRow st1" "headers st1 = hdr" "totalRows st1 = Suc k"
      using read_rows_state[of cm pd hdr "take k data"] a by (simp_all add: st1_def)
    have step: "st2 = on_data cm pd st1 (data ! k)"
      unfolding st1_def st2_def using a by (intro read_rows_step) simp
    have m: "map_columns cm (data ! k) 0 (headers st1) ([], False) = Inr (cd0, False)"
      using a s1 by simp
    have st2_eq: "st2 = st1\<lparr>totalRows := totalRows st1 + 1,
                           errors := errors st1 @ [\<lparr>row = totalRows st1 + 1, error = ''Name is required''\<rparr>]\<rparr>"
      unfolding step on_data_row[OF s1(1) m, of pd] using a by simp
    show ?thesis
      using st2_eq s1(3) by (simp add: st1_def[symmetric] st2_def[symmetric])
  qed
  from H R1[of pd] R2 R3 show ?thesis by blast
qed

theorem invalid_email_row_witness:
  "process_handler example_process_env example_process_request pending_store
     = (Response 200 (Job (Some processed_job)), processed_store) \<and>
   job_errors processed_job = Some [\<lparr>row = 3, error = ''Invalid email format''\<rparr>] \<and>
   customers_table processed_store
     = [[(''name'', ''Ann''), (''email'', ''ann@x.org''), (''org_id'', ''org1'')]] \<and>
   customers_table (snd (process_handler (example_process_env\<lparr>csv_parser := first_two_rows\<rparr>)
       example_process_request pending_store))
     = customers_table processed_store \<and>
   [(''name'', ''Ann''), (''email'', ''ann@x.org''), (''org_id'', ''org1'')]
     \<in> set (customers_table processed_store) \<and>
   \<lparr>row = 3, error = ''Invalid email format''\<rparr>
     \<in> set (errors (read_rows example_mapping example_date example_rows)) \<and>
   [(''name'', ''Ann''), (''email'', ''ann@x.org'')]
     \<in> set (customers (read_rows example_mapping example_date example_rows))"
proof -
  define data where "data = [[''Ann'', '' ann@x.org''], [''Bob'', ''bob-at-x'']]"
  define ann where "ann = [(''name'', ''Ann''), (''email'', ''ann@x.org'')]"
  define bob where "bob = [(''name'', ''Bob''), (''email'', ''bob-at-x'')]"
  note t = invalid_email_row
    [where req = example_process_request and ident = "''job-''" and st = pending_store
       and user = "''u1''" and org = "''org1''"
       and job = "uploaded_job\<lparr>job_status := ''pending''\<rparr>" and mapping = "''mapping''"
       and env = example_process_env and cm = example_mapping and content = example_csv
       and hdr = "[''Name'', ''Email'']" and data = data
       and i = 1 and cd = bob and p = 0 and pd = example_date
       and j = 0 and cd' = ann and d = undefined and c = ann
       and k = 0 and ?cd0.0 = undefined]
  have r: "[''Name'', ''Email''] # data = example_rows"
    by (simp add: example_rows_def data_def)
  have G: "req_method example_process_request = ''POST'' \<and>
      query_id example_process_request = Single ''job-'' \<and> ''job-'' \<noteq> [] \<and>
      verify_authentication pending_store (authorization example_process_request) = Inr ''u1'' \<and>
      profile_org_id pending_store ''u1'' = Some ''org1'' \<and>
      distinct (map job_id (upload_jobs pending_store)) \<and>
      uploaded_job\<lparr>job_status := ''pending''\<rparr> \<in> set (upload_jobs pending_store) \<and>
      job_id (uploaded_job\<lparr>job_status := ''pending''\<rparr>) = ''job-'' \<and>
      job_org_id (uploaded_job\<lparr>job_status := ''pending''\<rparr>) = ''org1'' \<and>
      job_status (uploaded_job\<lparr>job_status := ''pending''\<rparr>) = ''pending'' \<and>
      form example_process_request = Fields (Some ''mapping'') \<and> ''mapping'' \<noteq> [] \<and>
      parse_json example_process_env ''mapping'' = Some example_mapping \<and>
      files pending_store (job_file_path (uploaded_job\<lparr>job_status := ''pending''\<rparr>))
        = Some example_csv \<and>
      csv_parser example_process_env example_csv = ([''Name'', ''Email''] # data, None)"
    using example_pending_auth
    by (simp add: example_process_request_def pending_store_def uploaded_store_def
          uploaded_job_def example_process_env_def example_plain_csv r)
  have bad: "1 < length data \<and>
      map_columns example_mapping (data ! 1) 0 [''Name'', ''Email''] ([], False) = Inr (bob, True) \<and>
      email_invalid bob"
    using example_columns(2) example_emails(2)
    by (simp add: data_def bob_def del: map_columns.simps)
  have good: "0 < length data \<and>
      map_columns example_mapping (data ! 0) 0 [''Name'', ''Email''] ([], False) = Inr (ann, True) \<and>
      \<not> email_invalid ann \<and>
      (if truthy (map_of ann ''service_date'')
       then example_date (the (map_of ann ''service_date'')) = Some undefined \<and>
            ann = AList.update ''service_date'' undefined ann
       else ann = ann)"
    using example_columns(1) example_emails(1)
    by (simp add: data_def ann_def truthy_def del: map_columns.simps)
  from t[THEN conjunct1, THEN mp, OF G] obtain job' st' where
    run': "process_handler example_process_env example_process_request pending_store
             = (Response 200 (Job (Some job')), st')"
    and A: "1 < length data \<and>
        map_columns example_mapping (data ! 1) 0 [''Name'', ''Email''] ([], False) = Inr (bob, True) \<and>
        email_invalid bob \<longrightarrow>
          (\<exists>errs. job_errors job' = Some errs \<and>
                  \<lparr>row = 1 + 2, error = ''Invalid email format''\<rparr> \<in> set errs) \<and>
          (\<forall>env'. parse_json env' = parse_json example_process_env \<and>
                  parse_date env' = parse_date example_process_env \<and>
                  insert_error env' = insert_error example_process_env \<and>
                  csv_parser env' example_csv
                    = ([''Name'', ''Email''] # take 1 data @ drop (Suc 1) data, None) \<longrightarrow>
               customers_table (snd (process_handler env' example_process_request pending_store))
                 = customers_table st')"
    and B: "let ps = read_rows example_mapping (parse_date example_process_env)
                       ([''Name'', ''Email''] # data);
            start = 0 div batchSize * batchSize;
            before = insert_batches (insert_error example_process_env) ''org1''
                       (take start (customers ps)) 0 (errors ps, 0, customers_table pending_store)
        in 0 < length (customers ps) \<and>
           insert_error example_process_env (snd (snd before))
             (map (AList.update ''org_id'' ''org1'') (take batchSize (drop start (customers ps))))
             = None
           \<longrightarrow> AList.update ''org_id'' ''org1'' (customers ps ! 0) \<in> set (customers_table st')"
    by blast
  from run' example_process_run have eq: "job' = processed_job" "st' = processed_store"
    by simp_all
  from A[THEN mp, OF bad] have
    two: "customers_table (snd (process_handler (example_process_env\<lparr>csv_parser := first_two_rows\<rparr>)
            example_process_request pending_store)) = customers_table processed_store"
    unfolding eq
    by (simp add: example_first_two_rows data_def)
  from B have
    ins: "[(''name'', ''Ann''), (''email'', ''ann@x.org''), (''org_id'', ''org1'')]
            \<in> set (customers_table processed_store)"
    unfolding eq r Let_def
    by (simp add: example_process_env_def example_read_rows accept_all_def
          del: insert_batches.simps)
  from t[THEN conjunct2, THEN conjunct1, THEN mp, OF bad]
  have e: "\<lparr>row = 3, error = ''Invalid email format''\<rparr>
       \<in> set (errors (read_rows example_mapping example_date example_rows))"
    unfolding r by (simp add: numeral_3_eq_3)
  from t[THEN conjunct2, THEN conjunct2, THEN conjunct1, THEN mp, OF good]
  have c: "[(''name'', ''Ann''), (''email'', ''ann@x.org'')]
       \<in> set (customers (read_rows example_mapping example_date example_rows))"
    unfolding r by (simp add: ann_def)
  have je: "job_errors processed_job = Some [\<lparr>row = 3, error = ''Invalid email format''\<rparr>]"
    by (simp add: processed_job_def)
  have ct: "customers_table processed_store
     = [[(''name'', ''Ann''), (''email'', ''ann@x.org''), (''org_id'', ''org1'')]]"
    by (simp add: processed_store_def)
  from example_process_run je ct two ins e c show ?thesis by blast
qed

text \<open>
  Claim C2 as stated fails: the name is checked before the email, so a row without a name
  whose email is malformed yields \<^verbatim>\<open>Name is required\<close> and no invalid-email entry.
\<close>

theorem name_checked_before_email_counterexample:
  "\<not> rx_test email_regex ''bob-at-x'' \<and>
   read_rows example_mapping example_date [[''Name'', ''Email''], ['''', ''bob-at-x'']] =
     \<lparr>customers = [],
      errors = [\<lparr>row = 2, error = ''Name is required''\<rparr>],
      totalRows = 2, processedRows = 0, isFirstRow = False, headers = [''Name'', ''Email'']\<rparr>"
  by (simp add: read_rows_def initial_parse_state_def on_data_def Let_def
        example_columns truthy_def push_error_def email_regex_def Plus_def not_space_at_def
        js_space_def del: map_columns.simps)

section \<open>Theorems: the job after processing\<close>

text \<open>
  Claim C8.  A \<^verbatim>\<open>POST\<close> by an authenticated user for a pending job of the user's
  organisation, with a column mapping that parses and a file the CSV parser reads to the
  end, is answered 200 with the updated job, the only job of that id in the store.  With
  \<open>errs\<close> the errors recorded (those of the rows, then those of the database), the job's
  \<^verbatim>\<open>errors\<close> are \<open>errs\<close>, or \<^verbatim>\<open>null\<close> when there are none; its status is
  \<^verbatim>\<open>failed\<close> exactly when \<open>errs\<close> is not empty and the \<^verbatim>\<open>customers\<close> table has not
  grown, and \<^verbatim>\<open>completed\<close> otherwise; its \<^verbatim>\<open>total_rows\<close> is the number of rows
  read minus one; and its \<^verbatim>\<open>processed_rows\<close> is the number of rows by which the
  \<^verbatim>\<open>customers\<close> table has grown.
\<close>

theorem process_final_job:
  "req_method req = ''POST'' \<and> query_id req = Single ident \<and> ident \<noteq> [] \<and>
   verify_authentication st (authorization req) = Inr user \<and>
   profile_org_id st user = Some org \<and>
   distinct (map job_id (upload_jobs st)) \<and> job \<in> set (upload_jobs st) \<and>
   job_id job = ident \<and> job_org_id job = org \<and> job_status job = ''pending'' \<and>
   form req = Fields (Some mapping) \<and> mapping \<noteq> [] \<and> parse_json env mapping = Some cm \<and>
   files st (job_file_path job) = Some content \<and> csv_parser env content = (rows, None)
   \<longrightarrow>
   (\<exists>job' st' errs more.
      process_handler env req st = (Response 200 (Job (Some job')), st') \<and>
      filter (\<lambda>j. job_id j = ident) (upload_jobs st') = [job'] \<and>
      errs = errors (read_rows cm (parse_date env) rows) @ more \<and>
      job_errors job' = (if errs = [] then None else Some errs) \<and>
      (job_status job' = ''failed'' \<longleftrightarrow>
         errs \<noteq> [] \<and> length (customers_table st') = length (customers_table st)) \<and>
      (job_status job' = ''completed'' \<longleftrightarrow>
         \<not> (errs \<noteq> [] \<and> length (customers_table st') = length (customers_table st))) \<and>
      job_total_rows job' = int (length rows) - 1 \<and>
      int (length (customers_table st)) + job_processed_rows job' = int (length (customers_table st')))"
proof
  assume a: "req_method req = ''POST'' \<and> query_id req = Single ident \<and> ident \<noteq> [] \<and>
   verify_authentication st (authorization req) = Inr user \<and>
   profile_org_id st user = Some org \<and>
   distinct (map job_id (upload_jobs st)) \<and> job \<in> set (upload_jobs st) \<and>
   job_id job = ident \<and> job_org_id job = org \<and> job_status job = ''pending'' \<and>
   form req = Fields (Some mapping) \<and> mapping \<noteq> [] \<and> parse_json env mapping = Some cm \<and>
   files st (job_file_path job) = Some content \<and> csv_parser env content = (rows, None)"
  from a have g: "req_method req = ''POST''" "query_id req = Single ident" "ident \<noteq> []"
    "verify_authentication st (authorization req) = Inr user"
    "profile_org_id st user = Some org"
    "distinct (map job_id (upload_jobs st))" "job \<in> set (upload_jobs st)"
    "job_id job = ident" "job_org_id job = org" "job_status job = ''pending''"
    and b: "form req = Fields (Some mapping)" "mapping \<noteq> []" "parse_json env mapping = Some cm"
    "files st (job_file_path job) = Some content" "csv_parser env content = (rows, None)"
    by blast+
  define ps where "ps = read_rows cm (parse_date env) rows"
  define upd1 :: "upload_job \<Rightarrow> upload_job" where
    "upd1 = (\<lambda>j. j\<lparr>job_status := ''processing'', job_column_mapping := Some cm\<rparr>)"
  define st1 where "st1 = st\<lparr>upload_jobs := update_jobs ident upd1 (upload_jobs st)\<rparr>"
  have h: "process_handler env req st = process_job env req ident org job st"
    by (rule process_handler_pending[OF g])
  have pj: "process_job env req ident org job st = on_end (insert_error env) ident org job ps st1"
    using b by (simp add: process_job_def truthy_def Let_def ps_def st1_def upd1_def)
  have f0: "filter (\<lambda>j. job_id j = ident) (upload_jobs st) = [job]"
    using filter_distinct_key[OF g(6,7)] g(8) by simp
  have f1: "filter (\<lambda>j. job_id j = ident) (upload_jobs st1) = [upd1 job]"
    unfolding st1_def by (simp add: filter_update_jobs upd1_def f0)
  obtain errs cnt tbl where
    ib: "insert_batches (insert_error env) org (customers ps) 0 (errors ps, 0, customers_table st1)
           = (errs, cnt, tbl)"
    by (cases "insert_batches (insert_error env) org (customers ps) 0
                 (errors ps, 0, customers_table st1)") auto
  from insert_batches_result[OF ib] obtain more where
    more: "errs = errors ps @ more" and len: "length tbl = length (customers_table st1) + cnt"
    by auto
  define upd2 :: "upload_job \<Rightarrow> upload_job" where
    "upd2 = (\<lambda>j. j\<lparr>job_status := final_status errs cnt,
                     job_total_rows := int (totalRows ps) - 1,
                     job_processed_rows := int cnt,
                     job_errors := (if length errs > 0 then Some errs else None)\<rparr>)"
  define st' where "st' = st1\<lparr>upload_jobs := update_jobs ident upd2 (upload_jobs st1),
                              customers_table := tbl,
                              files := (files st1)(job_file_path job := None)\<rparr>"
  have oe: "on_end (insert_error env) ident org job ps st1 =
              (Response 200 (Job (Some (upd2 (upd1 job)))), st')"
    unfolding upd2_def st'_def by (rule on_end_result[OF ib f1])
  have f2: "filter (\<lambda>j. job_id j = ident) (upload_jobs st') = [upd2 (upd1 job)]"
    unfolding st'_def by (simp add: filter_update_jobs upd2_def f1)
  have tbl: "customers_table st' = tbl" "customers_table st1 = customers_table st"
    by (simp_all add: st'_def st1_def)
  have tr: "totalRows ps = length rows"
    by (simp add: ps_def read_rows_totalRows)
  have props:
    "job_errors (upd2 (upd1 job)) = (if errs = [] then None else Some errs)"
    "job_status (upd2 (upd1 job)) = ''failed'' \<longleftrightarrow>
       errs \<noteq> [] \<and> length (customers_table st') = length (customers_table st)"
    "job_status (upd2 (upd1 job)) = ''completed'' \<longleftrightarrow>
       \<not> (errs \<noteq> [] \<and> length (customers_table st') = length (customers_table st))"
    "job_total_rows (upd2 (upd1 job)) = int (length rows) - 1"
    "int (length (customers_table st)) + job_processed_rows (upd2 (upd1 job))
       = int (length (customers_table st'))"
    using len by (auto simp: upd2_def final_status_def tbl tr)
  show "\<exists>job' st' errs more.
      process_handler env req st = (Response 200 (Job (Some job')), st') \<and>
      filter (\<lambda>j. job_id j = ident) (upload_jobs st') = [job'] \<and>
      errs = errors (read_rows cm (parse_date env) rows) @ more \<and>
      job_errors job' = (if errs = [] then None else Some errs) \<and>
      (job_status job' = ''failed'' \<longleftrightarrow>
         errs \<noteq> [] \<and> length (customers_table st') = length (customers_table st)) \<and>
      (job_status job' = ''completed'' \<longleftrightarrow>
         \<not> (errs \<noteq> [] \<and> length (customers_table st') = length (customers_table st))) \<and>
      job_total_rows job' = int (length rows) - 1 \<and>
      int (length (customers_table st)) + job_processed_rows job' = int (length (customers_table st'))"
    apply (rule exI[of _ "upd2 (upd1 job)"])
    apply (rule exI[of _ st'])
    apply (rule exI[of _ errs])
    apply (rule exI[of _ more])
    using h pj oe f2 more props unfolding ps_def by simp
qed

theorem process_final_job_witness:
  "process_handler example_process_env example_process_request pending_store
     = (Response 200 (Job (Some processed_job)), processed_store) \<and>
   job_status processed_job = ''completed'' \<and>
   job_total_rows processed_job = int (length example_rows) - 1 \<and>
   job_processed_rows processed_job
     = int (length (customers_table processed_store)) - int (length (customers_table pending_store))"
proof -
  have ib: "insert_batches accept_all ''org1'' [[(''name'', ''Ann''), (''email'', ''ann@x.org'')]] 0
       ([\<lparr>row = 3, error = ''Invalid email format''\<rparr>], 0, [])
     = ([\<lparr>row = 3, error = ''Invalid email format''\<rparr>], 1,
        [[(''name'', ''Ann''), (''email'', ''ann@x.org''), (''org_id'', ''org1'')]])"
    by (simp add: accept_all_def batchSize_def)
  have run: "process_handler example_process_env example_process_request pending_store
     = (Response 200 (Job (Some processed_job)), processed_store)"
    by (simp add: process_handler_def example_process_request_def verify_authentication_def
          startsWith_def at_index_def profile_org_id_def pending_store_def uploaded_store_def
          uploaded_job_def single_def process_job_def truthy_def example_process_env_def
          update_jobs_def example_plain_csv example_read_rows on_end_def ib final_status_def
          processed_job_def processed_store_def Let_def
          del: insert_batches.simps)
  from process_final_job
    [of example_process_request "''job-''" pending_store "''u1''" "''org1''"
        "uploaded_job\<lparr>job_status := ''pending''\<rparr>" "''mapping''" example_process_env
        example_mapping example_csv example_rows]
    example_pending_auth
  have "\<exists>job' st' errs more.
      process_handler example_process_env example_process_request pending_store
        = (Response 200 (Job (Some job')), st') \<and>
      job_total_rows job' = int (length example_rows) - 1 \<and>
      int (length (customers_table pending_store)) + job_processed_rows job'
        = int (length (customers_table st'))"
    by (simp add: example_process_request_def pending_store_def uploaded_store_def
          uploaded_job_def example_process_env_def example_plain_csv) blast
  with run show ?thesis
    by (auto simp: processed_job_def)
qed

end
